(* ===== verification/Rust_Prelude.thy ===== *)
theory Rust_Prelude
  imports Main "HOL-Library.Word" "HOL-Library.Sublist"
begin

text \<open>
  What the components share: the standard-library string operations of Rust on UTF-8 byte
  strings (a HOL \<open>char\<close> is one byte), decimal and radix number formats, saturating
  arithmetic at a width, and the lemma collections of the development.

  \<^item> \<open>trim\<close> removes the Unicode White_Space code points by their UTF-8 encodings;
  \<^item> the ASCII case operations leave every byte outside \<open>A..Z\<close> alone;
  \<^item> \<open>from_str_radix\<close> follows \<open>core::num\<close>: an optional plus sign, at least one digit,
    \<open>None\<close> on any other character and on overflow.
\<close>

unbundle bit_operations_syntax

named_theorems asm_defs \<open>definitions unfolded together when a whole handler is evaluated\<close>

section \<open>Widths\<close>

abbreviation u8_max :: nat where "u8_max \<equiv> 255"
abbreviation u32_max :: nat where "u32_max \<equiv> 4294967295"
abbreviation u64_max :: nat where "u64_max \<equiv> 18446744073709551615"

definition sat_add64 :: "nat \<Rightarrow> nat \<Rightarrow> nat" where
  "sat_add64 a b = min (a + b) u64_max"

definition sat_mul32 :: "nat \<Rightarrow> nat \<Rightarrow> nat" where
  "sat_mul32 a b = min (a * b) u32_max"

lemma sat_add64_le [simp]: "sat_add64 a b \<le> u64_max"
  by (simp add: sat_add64_def)

lemma sat_add64_ge: "a \<le> u64_max \<Longrightarrow> a \<le> sat_add64 a b"
  by (simp add: sat_add64_def)

section \<open>Byte strings\<close>

definition byte :: "char \<Rightarrow> nat" where
  "byte c = of_char c"

definition chr :: "nat \<Rightarrow> char" where
  "chr n = char_of n"

lemma byte_chr [simp]: "n < 256 \<Longrightarrow> byte (chr n) = n"
  by (simp add: byte_def chr_def)

lemma chr_byte [simp]: "chr (byte c) = c"
  by (simp add: byte_def chr_def)

lemma byte_inj [simp]: "byte a = byte b \<longleftrightarrow> a = b"
  by (metis chr_byte)

lemma byte_less [simp]: "byte c < 256"
proof -
  have "of_char c < (256 :: nat)" by (simp add: of_char_of [symmetric])
  then show ?thesis by (simp add: byte_def)
qed

definition ascii_lower :: "char \<Rightarrow> char" where
  "ascii_lower c = (if 65 \<le> byte c \<and> byte c \<le> 90 then chr (byte c + 32) else c)"

definition ascii_upper :: "char \<Rightarrow> char" where
  "ascii_upper c = (if 97 \<le> byte c \<and> byte c \<le> 122 then chr (byte c - 32) else c)"

definition to_ascii_lowercase :: "string \<Rightarrow> string" where
  "to_ascii_lowercase s = map ascii_lower s"

definition to_ascii_uppercase :: "string \<Rightarrow> string" where
  "to_ascii_uppercase s = map ascii_upper s"

definition eq_ignore_ascii_case :: "string \<Rightarrow> string \<Rightarrow> bool" where
  "eq_ignore_ascii_case a b \<longleftrightarrow> to_ascii_lowercase a = to_ascii_lowercase b"

lemma eq_ignore_refl [simp]: "eq_ignore_ascii_case a a"
  by (simp add: eq_ignore_ascii_case_def)

lemma eq_ignore_sym: "eq_ignore_ascii_case a b \<Longrightarrow> eq_ignore_ascii_case b a"
  by (simp add: eq_ignore_ascii_case_def)

lemma eq_ignore_trans:
  "eq_ignore_ascii_case a b \<Longrightarrow> eq_ignore_ascii_case b c \<Longrightarrow> eq_ignore_ascii_case a c"
  by (simp add: eq_ignore_ascii_case_def)

lemma ascii_lower_idem [simp]: "ascii_lower (ascii_lower c) = ascii_lower c"
  by (auto simp: ascii_lower_def)

lemma ascii_lower_upper [simp]: "ascii_lower (ascii_upper c) = ascii_lower c"
  by (auto simp: ascii_lower_def ascii_upper_def)

definition is_ascii_digit :: "char \<Rightarrow> bool" where
  "is_ascii_digit c \<longleftrightarrow> 48 \<le> byte c \<and> byte c \<le> 57"

definition is_ascii_alphanumeric :: "char \<Rightarrow> bool" where
  "is_ascii_alphanumeric c \<longleftrightarrow>
     is_ascii_digit c \<or> (65 \<le> byte c \<and> byte c \<le> 90) \<or> (97 \<le> byte c \<and> byte c \<le> 122)"

definition is_ascii :: "string \<Rightarrow> bool" where
  "is_ascii s \<longleftrightarrow> list_all (\<lambda>c. byte c < 128) s"

definition starts_with :: "string \<Rightarrow> string \<Rightarrow> bool" where
  "starts_with s p \<longleftrightarrow> take (length p) s = p"

lemma starts_with_append [simp]: "starts_with (p @ s) p"
  by (simp add: starts_with_def)

lemma starts_with_iff: "starts_with s p \<longleftrightarrow> (\<exists>r. s = p @ r)"
  by (metis append_eq_conv_conj starts_with_def)

definition ends_with :: "string \<Rightarrow> string \<Rightarrow> bool" where
  "ends_with s p \<longleftrightarrow> length p \<le> length s \<and> drop (length s - length p) s = p"

fun str_contains :: "string \<Rightarrow> string \<Rightarrow> bool" where
  "str_contains [] p \<longleftrightarrow> p = []"
| "str_contains (c # cs) p \<longleftrightarrow> starts_with (c # cs) p \<or> str_contains cs p"

section \<open>Trimming\<close>

text \<open>The length in bytes of the white-space code point a byte list starts with, 0 if none.\<close>

definition ws_len :: "string \<Rightarrow> nat" where
  "ws_len s = (case map byte (take 3 s) of
     [] \<Rightarrow> 0
   | b # r \<Rightarrow>
       (if b = 32 \<or> (9 \<le> b \<and> b \<le> 13) then 1
        else (case r of
          [] \<Rightarrow> 0
        | b2 # r2 \<Rightarrow>
            (if b = 194 \<and> (b2 = 133 \<or> b2 = 160) then 2
             else (case r2 of
               [] \<Rightarrow> 0
             | b3 # _ \<Rightarrow>
                 (if (b = 225 \<and> b2 = 154 \<and> b3 = 128)
                     \<or> (b = 226 \<and> b2 = 128 \<and> ((128 \<le> b3 \<and> b3 \<le> 138) \<or> b3 = 168 \<or> b3 = 169 \<or> b3 = 175))
                     \<or> (b = 226 \<and> b2 = 129 \<and> b3 = 159)
                     \<or> (b = 227 \<and> b2 = 128 \<and> b3 = 128)
                  then 3 else 0))))))"

definition ws_end_len :: "string \<Rightarrow> nat" where
  "ws_end_len s =
     (let n = length s in
      if 1 \<le> n \<and> ws_len (drop (n - 1) s) = 1 then 1
      else if 2 \<le> n \<and> ws_len (drop (n - 2) s) = 2 then 2
      else if 3 \<le> n \<and> ws_len (drop (n - 3) s) = 3 then 3
      else 0)"

lemma ws_len_Nil [simp]: "ws_len [] = 0"
  by (simp add: ws_len_def)

lemma ws_end_len_Nil [simp]: "ws_end_len [] = 0"
  by (simp add: ws_end_len_def)

lemma ws_len_pos: "0 < ws_len s \<Longrightarrow> s \<noteq> []"
  by auto

lemma ws_end_len_pos: "0 < ws_end_len s \<Longrightarrow> s \<noteq> []"
  by auto

function trim_start :: "string \<Rightarrow> string" where
  "trim_start s = (if ws_len s = 0 then s else trim_start (drop (ws_len s) s))"
  by pat_completeness auto
termination
  by (relation "measure length") (auto intro!: diff_less dest: ws_len_pos)

function trim_end :: "string \<Rightarrow> string" where
  "trim_end s = (if ws_end_len s = 0 then s else trim_end (take (length s - ws_end_len s) s))"
  by pat_completeness auto
termination
  by (relation "measure length") (auto intro!: diff_less dest: ws_end_len_pos)

declare trim_start.simps [simp del] trim_end.simps [simp del]

definition trim :: "string \<Rightarrow> string" where
  "trim s = trim_end (trim_start s)"

lemma trim_start_Nil [simp]: "trim_start [] = []"
  by (subst trim_start.simps) simp

lemma trim_end_Nil [simp]: "trim_end [] = []"
  by (subst trim_end.simps) simp

lemma trim_Nil [simp]: "trim [] = []"
  by (simp add: trim_def)

section \<open>Splitting\<close>

fun split_on :: "char \<Rightarrow> string \<Rightarrow> string list" where
  "split_on c [] = [[]]"
| "split_on c (x # xs) =
     (if x = c then [] # split_on c xs
      else (case split_on c xs of [] \<Rightarrow> [[x]] | y # ys \<Rightarrow> (x # y) # ys))"

fun split_once :: "char \<Rightarrow> string \<Rightarrow> (string \<times> string) option" where
  "split_once c [] = None"
| "split_once c (x # xs) =
     (if x = c then Some ([], xs)
      else (case split_once c xs of None \<Rightarrow> None | Some (a, b) \<Rightarrow> Some (x # a, b)))"

lemma split_on_not_Nil [simp]: "split_on c s \<noteq> []"
  by (induction s) (auto split: list.splits)

lemma split_on_append_sep:
  "split_on c (a @ c # b) = split_on c a @ split_on c b"
proof (induction a)
  case Nil
  then show ?case by simp
next
  case (Cons x a)
  then show ?case by (cases "split_on c a") auto
qed

lemma split_on_no_sep: "c \<notin> set a \<Longrightarrow> split_on c a = [a]"
  by (induction a) auto

lemma split_once_Some:
  "split_once c s = Some (a, b) \<Longrightarrow> s = a @ c # b \<and> c \<notin> set a"
  by (induction s arbitrary: a b) (auto split: if_splits option.splits)

text \<open>\<open>str::lines\<close>: a line ends at a line feed, a carriage return before it is dropped.\<close>

abbreviation LF :: char where "LF \<equiv> CHR 0x0A"
abbreviation CR :: char where "CR \<equiv> CHR 0x0D"

definition strip_cr :: "string \<Rightarrow> string" where
  "strip_cr s = (if s \<noteq> [] \<and> last s = CR then butlast s else s)"

definition str_lines :: "string \<Rightarrow> string list" where
  "str_lines s =
     (let ps = split_on LF s in map strip_cr (butlast ps) @ (if last ps = [] then [] else [last ps]))"

lemma str_lines_Nil [simp]: "str_lines [] = []"
  by (simp add: str_lines_def)

lemma str_lines_snoc:
  assumes "LF \<notin> set l" and "s = [] \<or> last s = LF"
  shows "str_lines (s @ l @ [LF]) = str_lines s @ [strip_cr l]"
proof (cases "s = []")
  case True
  then show ?thesis using assms(1) by (simp add: str_lines_def split_on_append_sep split_on_no_sep)
next
  case False
  with assms(2) obtain t where t: "s = t @ [LF]" by (metis append_butlast_last_id)
  have "split_on LF (s @ l @ [LF]) = split_on LF t @ [l, []]"
    using split_on_append_sep [of LF t "l @ [LF]"] split_on_append_sep [of LF l "[]"] assms(1) t
    by (simp add: split_on_no_sep)
  moreover have "split_on LF s = split_on LF t @ [[]]"
    using split_on_append_sep [of LF t "[]"] t by simp
  ultimately show ?thesis by (simp add: str_lines_def butlast_append)
qed

text \<open>A text framed by two visible ASCII characters has no blanks to trim.\<close>

lemma trim_framed:
  assumes "byte a \<noteq> 32" and "\<not> (9 \<le> byte a \<and> byte a \<le> 13)" and "byte a < 128"
    and "byte b \<noteq> 32" and "\<not> (9 \<le> byte b \<and> byte b \<le> 13)" and "byte b < 128"
  shows "trim (a # s @ [b]) = a # s @ [b]"
proof -
  have start: "ws_len (a # t) = 0" for t
    using assms(1-3) by (auto simp: ws_len_def split: list.splits)
  have tail: "ws_len (t @ [b]) \<noteq> Suc (length t)" for t
    using assms(4-6) by (cases t rule: remdups_adj.cases)
      (auto simp: ws_len_def split: list.splits if_splits)
  let ?s = "a # s @ [b]"
  have fin: "ws_end_len ?s = 0"
  proof -
    have "drop (length ?s - Suc k) ?s = drop (length ?s - Suc k) (a # s) @ [b]" for k
      by (cases "length ?s - Suc k") auto
    then have "ws_len (drop (length ?s - Suc k) ?s) \<noteq> Suc k" if "Suc k \<le> length ?s" for k
      using tail [of "drop (length ?s - Suc k) (a # s)"] that by simp
    from this [of 0] this [of 1] this [of 2] show ?thesis
      by (auto simp: ws_end_len_def Let_def numeral_3_eq_3 numeral_2_eq_2)
  qed
  show ?thesis
    unfolding trim_def by (subst trim_start.simps) (simp add: start, subst trim_end.simps, simp add: fin)
qed

lemma trim_start_visible:
  assumes "byte a \<noteq> 32" and "\<not> (9 \<le> byte a \<and> byte a \<le> 13)" and "byte a < 128"
  shows "trim_start (a # s) = a # s"
proof -
  have "ws_len (a # s) = 0" using assms by (auto simp: ws_len_def split: list.splits)
  then show ?thesis by (subst trim_start.simps) simp
qed

lemma trim_end_lf: "trim_end (s @ [LF]) = trim_end s"
proof -
  have "ws_end_len (s @ [LF]) = 1"
    by (simp add: ws_end_len_def Let_def ws_len_def byte_def)
  then show ?thesis by (subst trim_end.simps) simp
qed

section \<open>Number formats\<close>

fun show_nat :: "nat \<Rightarrow> string" where
  "show_nat n = (if n < 10 then [chr (48 + n)] else show_nat (n div 10) @ [chr (48 + n mod 10)])"

declare show_nat.simps [simp del]

definition to_digit :: "nat \<Rightarrow> char \<Rightarrow> nat option" where
  "to_digit radix c =
     (let b = byte c;
          d = (if 48 \<le> b \<and> b \<le> 57 then b - 48
               else if 97 \<le> b \<and> b \<le> 122 then b - 87
               else if 65 \<le> b \<and> b \<le> 90 then b - 55 else 99)
      in if d < radix then Some d else None)"

fun digits_val :: "nat \<Rightarrow> nat \<Rightarrow> string \<Rightarrow> nat option" where
  "digits_val radix acc [] = Some acc"
| "digits_val radix acc (c # cs) =
     (case to_digit radix c of None \<Rightarrow> None | Some d \<Rightarrow> digits_val radix (acc * radix + d) cs)"

definition from_str_radix :: "nat \<Rightarrow> nat \<Rightarrow> string \<Rightarrow> nat option" where
  "from_str_radix radix bound s =
     (case s of
        [] \<Rightarrow> None
      | c # cs \<Rightarrow>
          (let ds = (if c = CHR ''+'' \<and> cs \<noteq> [] then cs else s)
           in case digits_val radix 0 ds of
                None \<Rightarrow> None
              | Some n \<Rightarrow> if n \<le> bound then Some n else None))"

abbreviation parse_u8 :: "string \<Rightarrow> nat option" where "parse_u8 \<equiv> from_str_radix 10 u8_max"
abbreviation parse_u32 :: "string \<Rightarrow> nat option" where "parse_u32 \<equiv> from_str_radix 10 u32_max"
abbreviation parse_u64 :: "string \<Rightarrow> nat option" where "parse_u64 \<equiv> from_str_radix 10 u64_max"

lemma from_str_radix_bound: "from_str_radix r bd s = Some n \<Longrightarrow> n \<le> bd"
  by (auto simp: from_str_radix_def Let_def split: list.splits option.splits if_splits)

lemma digits_val_append:
  "digits_val r acc (a @ b) = (case digits_val r acc a of None \<Rightarrow> None | Some v \<Rightarrow> digits_val r v b)"
  by (induction a arbitrary: acc) (auto split: option.splits)

lemma to_digit_dec [simp]: "d < 10 \<Longrightarrow> to_digit 10 (chr (48 + d)) = Some d"
  by (simp add: to_digit_def Let_def)

lemma show_nat_digits: "digits_val 10 0 (show_nat n) = Some n"
proof (induction n rule: show_nat.induct)
  case (1 n)
  show ?case
  proof (cases "n < 10")
    case True
    then show ?thesis by (subst show_nat.simps) simp
  next
    case False
    with "1.IH" have "digits_val 10 0 (show_nat (n div 10)) = Some (n div 10)" by simp
    with False show ?thesis
      by (subst show_nat.simps) (simp add: digits_val_append)
  qed
qed

lemma show_nat_inj [simp]: "show_nat a = show_nat b \<longleftrightarrow> a = b"
  by (metis option.inject show_nat_digits)

lemma show_nat_set: "c \<in> set (show_nat n) \<Longrightarrow> is_ascii_digit c"
proof (induction n rule: show_nat.induct)
  case (1 n)
  show ?case
  proof (cases "n < 10")
    case True
    with "1.prems" show ?thesis by (simp add: show_nat.simps [of n] is_ascii_digit_def)
  next
    case False
    with 1 show ?thesis by (auto simp: show_nat.simps [of n] is_ascii_digit_def)
  qed
qed

lemma show_nat_not_Nil [simp]: "show_nat n \<noteq> []"
  by (subst show_nat.simps) simp

text \<open>\<open>{:02x}\<close>: two lower-case hexadecimal digits.\<close>

definition hex_digit :: "nat \<Rightarrow> char" where
  "hex_digit d = (if d < 10 then chr (48 + d) else chr (87 + d))"

definition show_hex2 :: "nat \<Rightarrow> string" where
  "show_hex2 b = [hex_digit (b div 16), hex_digit (b mod 16)]"

lemma to_digit_hex [simp]: "d < 16 \<Longrightarrow> to_digit 16 (hex_digit d) = Some d"
  by (auto simp: to_digit_def Let_def hex_digit_def)

section \<open>Options and lists\<close>

definition ok_or :: "'e \<Rightarrow> 'a option \<Rightarrow> 'e + 'a" where
  "ok_or e x = (case x of None \<Rightarrow> Inl e | Some v \<Rightarrow> Inr v)"

definition is_ok :: "'e + 'a \<Rightarrow> bool" where
  "is_ok r = (case r of Inl _ \<Rightarrow> False | Inr _ \<Rightarrow> True)"

lemma ok_or_Inr [simp]: "ok_or e x = Inr v \<longleftrightarrow> x = Some v"
  by (simp add: ok_or_def split: option.splits)

lemma ok_or_Inl [simp]: "ok_or e x = Inl e' \<longleftrightarrow> x = None \<and> e' = e"
  by (auto simp: ok_or_def split: option.splits)

lemma is_ok_simps [simp]: "is_ok (Inl e) = False" "is_ok (Inr v) = True"
  by (simp_all add: is_ok_def)

lemma is_ok_iff: "is_ok r \<longleftrightarrow> (\<exists>v. r = Inr v)"
  by (cases r) auto

text \<open>The \<open>?\<close> operator and an early return.\<close>

definition and_then :: "'e + 'a \<Rightarrow> ('a \<Rightarrow> 'e + 'b) \<Rightarrow> 'e + 'b" where
  "and_then r f = (case r of Inl e \<Rightarrow> Inl e | Inr v \<Rightarrow> f v)"

definition reject_if :: "bool \<Rightarrow> 'e \<Rightarrow> 'e + unit" where
  "reject_if b e = (if b then Inl e else Inr ())"

lemma and_then_simps [simp]: "and_then (Inl e) f = Inl e" "and_then (Inr v) f = f v"
  by (simp_all add: and_then_def)

lemma and_then_Inr [simp]: "and_then r f = Inr w \<longleftrightarrow> (\<exists>v. r = Inr v \<and> f v = Inr w)"
  by (cases r) auto

lemma and_then_Inl: "and_then r f = Inl e \<longleftrightarrow> r = Inl e \<or> (\<exists>v. r = Inr v \<and> f v = Inl e)"
  by (cases r) auto

lemma reject_if_Inr [simp]: "reject_if b e = Inr u \<longleftrightarrow> \<not> b"
  by (simp add: reject_if_def)

lemma reject_if_simps [simp]: "reject_if True e = Inl e" "reject_if False e = Inr ()"
  by (simp_all add: reject_if_def)

definition last_opt :: "'a list \<Rightarrow> 'a option" where
  "last_opt xs = (if xs = [] then None else Some (last xs))"

lemma last_opt_Nil [simp]: "last_opt [] = None"
  and last_opt_snoc [simp]: "last_opt (xs @ [x]) = Some x"
  by (simp_all add: last_opt_def)

text \<open>Keep the newest \<open>n\<close> entries: \<open>while len > n { pop_front }\<close>.\<close>

definition keep_last :: "nat \<Rightarrow> 'a list \<Rightarrow> 'a list" where
  "keep_last n xs = drop (length xs - n) xs"

lemma length_keep_last [simp]: "length (keep_last n xs) = min n (length xs)"
  by (simp add: keep_last_def)

lemma keep_last_id [simp]: "length xs \<le> n \<Longrightarrow> keep_last n xs = xs"
  by (simp add: keep_last_def)

lemma set_keep_last: "set (keep_last n xs) \<subseteq> set xs"
  by (simp add: keep_last_def set_drop_subset)

text \<open>Replace the first element that satisfies \<open>p\<close> (\<open>position\<close> then an indexed store).\<close>

fun map_first :: "('a \<Rightarrow> bool) \<Rightarrow> ('a \<Rightarrow> 'a) \<Rightarrow> 'a list \<Rightarrow> 'a list" where
  "map_first p f [] = []"
| "map_first p f (x # xs) = (if p x then f x # xs else x # map_first p f xs)"

lemma length_map_first [simp]: "length (map_first p f xs) = length xs"
  by (induction xs) auto

lemma map_first_none: "\<forall>x \<in> set xs. \<not> p x \<Longrightarrow> map_first p f xs = xs"
  by (induction xs) auto

lemma find_map_first_same:
  "(\<And>x. p x \<Longrightarrow> p (f x)) \<Longrightarrow> find p (map_first p f xs) = map_option f (find p xs)"
  by (induction xs) auto

lemma find_map_first_other:
  "(\<And>x. p x \<Longrightarrow> \<not> q x) \<Longrightarrow> (\<And>x. p x \<Longrightarrow> \<not> q (f x)) \<Longrightarrow> find q (map_first p f xs) = find q xs"
  by (induction xs) auto

lemma map_map_first:
  "(\<And>x. p x \<Longrightarrow> g (f x) = g x) \<Longrightarrow> map g (map_first p f xs) = map g xs"
  by (induction xs) auto

lemma set_map_first: "set (map_first p f xs) \<subseteq> set xs \<union> f ` {x \<in> set xs. p x}"
  by (induction xs) auto

end
