(* ===== verification/Interfaces.thy ===== *)
theory Interfaces
  imports Rust_Prelude
begin

text \<open>
  The contracts that several components share, as locales; each is interpreted in the theory
  of the component that provides it.

  \<^item> \<open>keyed_store\<close>: a collection looked up by an identifier, with the laws of a map up to an
    equivalence of identifiers (the campaign catalog compares them without ASCII case).
  \<^item> \<open>step_system\<close>: a component driven by operations that keep an invariant.
  \<^item> \<open>guarded_system\<close>: a step system with a fact that no step can take back.
\<close>

section \<open>Collections by identifier\<close>

datatype ('k, 'v) store_op = Put 'v | Del 'k

locale keyed_store =
  fixes look :: "'s \<Rightarrow> 'k \<Rightarrow> 'v option"
    and put :: "'v \<Rightarrow> 's \<Rightarrow> 's"
    and del :: "'k \<Rightarrow> 's \<Rightarrow> 's"
    and key :: "'v \<Rightarrow> 'k"
    and same :: "'k \<Rightarrow> 'k \<Rightarrow> bool"
    and inv :: "'s \<Rightarrow> bool"
  assumes inv_put: "inv s \<Longrightarrow> inv (put v s)"
    and inv_del: "inv s \<Longrightarrow> inv (del k s)"
    and look_put: "inv s \<Longrightarrow> look (put v s) k = (if same (key v) k then Some v else look s k)"
    and look_del: "inv s \<Longrightarrow> look (del k s) k' = (if same k k' then None else look s k')"
    and same_refl: "same k k"
    and same_sym: "same k k' \<Longrightarrow> same k' k"
    and same_trans: "same k k' \<Longrightarrow> same k' k'' \<Longrightarrow> same k k''"
begin

fun apply_op :: "('k, 'v) store_op \<Rightarrow> 's \<Rightarrow> 's" where
  "apply_op (Put v) s = put v s"
| "apply_op (Del k) s = del k s"

fun spec_op :: "('k, 'v) store_op \<Rightarrow> ('k \<Rightarrow> 'v option) \<Rightarrow> ('k \<Rightarrow> 'v option)" where
  "spec_op (Put v) m = (\<lambda>k. if same (key v) k then Some v else m k)"
| "spec_op (Del k) m = (\<lambda>k'. if same k k' then None else m k')"

lemma inv_apply: "inv s \<Longrightarrow> inv (apply_op x s)"
  by (cases x) (simp_all add: inv_put inv_del)

lemma inv_run: "inv s \<Longrightarrow> inv (fold apply_op xs s)"
  by (induction xs arbitrary: s) (simp_all add: inv_apply)

lemma look_apply: "inv s \<Longrightarrow> look (apply_op x s) = spec_op x (look s)"
  by (cases x) (auto simp: look_put look_del)

lemma look_run: "inv s \<Longrightarrow> look (fold apply_op xs s) = fold spec_op xs (look s)"
  by (induction xs arbitrary: s) (simp_all add: inv_apply look_apply)

lemma put_get: "inv s \<Longrightarrow> look (put v s) (key v) = Some v"
  by (simp add: look_put same_refl)

lemma del_get: "inv s \<Longrightarrow> look (del k s) k = None"
  by (simp add: look_del same_refl)

lemma put_put:
  assumes "inv s" and "same (key v) (key w)"
  shows "look (put w (put v s)) = look (put w s)"
proof
  fix k
  from assms show "look (put w (put v s)) k = look (put w s) k"
    using same_trans [OF same_sym [OF assms(2)], of k] same_trans [OF assms(2), of k]
    by (auto simp: look_put inv_put)
qed

lemma put_other: "inv s \<Longrightarrow> \<not> same (key v) k \<Longrightarrow> look (put v s) k = look s k"
  by (simp add: look_put)

end

section \<open>Components driven by operations\<close>

locale step_system =
  fixes step :: "'o \<Rightarrow> 's \<Rightarrow> 's"
    and inv :: "'s \<Rightarrow> bool"
  assumes inv_step: "inv s \<Longrightarrow> inv (step x s)"
begin

lemma inv_run: "inv s \<Longrightarrow> inv (fold step xs s)"
  by (induction xs arbitrary: s) (simp_all add: inv_step)

lemma inv_prefix: "inv s \<Longrightarrow> inv (fold step (take n xs) s)"
  by (rule inv_run)

end

locale guarded_system = step_system step inv
  for step :: "'o \<Rightarrow> 's \<Rightarrow> 's" and inv :: "'s \<Rightarrow> bool" +
  fixes settled :: "'s \<Rightarrow> bool"
  assumes settled_step: "inv s \<Longrightarrow> settled s \<Longrightarrow> settled (step x s)"
begin

lemma settled_run: "inv s \<Longrightarrow> settled s \<Longrightarrow> settled (fold step xs s)"
  by (induction xs arbitrary: s) (simp_all add: inv_step settled_step)

lemma settled_after:
  "inv s \<Longrightarrow> settled (fold step xs s) \<Longrightarrow> settled (fold step (xs @ ys) s)"
  by (simp add: settled_run inv_run)

end

section \<open>Mutations applied twice\<close>

text \<open>
  An action that changes the durable view of a state as a function of that view alone. Applied to a
  clone and again to the live state, with activity in between that leaves the view alone, it makes
  the same durable change both times.
\<close>

locale view_action =
  fixes act :: "'s \<Rightarrow> 's"
    and view :: "'s \<Rightarrow> 'v"
    and eff :: "'v \<Rightarrow> 'v"
    and inv :: "'s \<Rightarrow> bool"
  assumes inv_act: "inv s \<Longrightarrow> inv (act s)"
    and view_act: "inv s \<Longrightarrow> view (act s) = eff (view s)"
begin

lemma view_twice: "inv s \<Longrightarrow> inv s' \<Longrightarrow> view s' = view s \<Longrightarrow> view (act s') = view (act s)"
  by (simp add: view_act)

lemma view_unchanged: "inv s \<Longrightarrow> inv s' \<Longrightarrow> view s' = view s \<Longrightarrow> view (act s) = view s \<Longrightarrow> view (act s') = view s"
  by (simp add: view_act)

end

end
