(* ===== verification/Domain.thy ===== *)
theory Domain
  imports Interfaces
begin

text \<open>
  \<open>crates/asmodeus-common\<close>: scenario categories and action natures (\<open>lib.rs\<close>), the run
  lifecycle automaton (\<open>state.rs\<close>) and the role and capability matrix (\<open>rbac.rs\<close>).
\<close>

section \<open>Roles and capabilities\<close>

datatype role = Admin | RedTeam | DevSecOps | Ciso | SecOps | Auditor

datatype capability = RunRedTeam | InjectChaos | ViewReports | ManageScenarios

definition role_from_str :: "string \<Rightarrow> role option" where
  "role_from_str s =
     (let t = to_ascii_lowercase (trim s) in
      if t = ''admin'' then Some Admin
      else if t = ''red_team'' \<or> t = ''redteam'' then Some RedTeam
      else if t = ''devsecops'' then Some DevSecOps
      else if t = ''ciso'' then Some Ciso
      else if t = ''secops'' \<or> t = ''soc'' \<or> t = ''blue_team'' then Some SecOps
      else if t = ''auditor'' then Some Auditor
      else None)"

fun role_as_str :: "role \<Rightarrow> string" where
  "role_as_str Admin = ''admin''"
| "role_as_str RedTeam = ''red_team''"
| "role_as_str DevSecOps = ''devsecops''"
| "role_as_str Ciso = ''ciso''"
| "role_as_str SecOps = ''secops''"
| "role_as_str Auditor = ''auditor''"

fun can :: "role \<Rightarrow> capability \<Rightarrow> bool" where
  "can Admin _ = True"
| "can RedTeam RunRedTeam = True"
| "can RedTeam ViewReports = True"
| "can RedTeam ManageScenarios = True"
| "can RedTeam InjectChaos = False"
| "can DevSecOps InjectChaos = True"
| "can DevSecOps ViewReports = True"
| "can DevSecOps ManageScenarios = True"
| "can DevSecOps RunRedTeam = False"
| "can Ciso ViewReports = True"
| "can SecOps ViewReports = True"
| "can Auditor ViewReports = True"
| "can Ciso _ = False"
| "can SecOps _ = False"
| "can Auditor _ = False"

section \<open>Categories and action natures\<close>

datatype category = CatRedTeam | CatChaos

datatype action_nature = Synthetic | Operational

fun required_capability :: "category \<Rightarrow> capability" where
  "required_capability CatRedTeam = RunRedTeam"
| "required_capability CatChaos = InjectChaos"

text \<open>The exercise tags open with an emoji, written here as its UTF-8 bytes.\<close>

definition EXERCISE_TAG_RED_TEAM :: string where
  "EXERCISE_TAG_RED_TEAM = map chr [240, 159, 148, 180] @ '' [RED TEAM EXERCISE]''"

definition EXERCISE_TAG_CHAOS :: string where
  "EXERCISE_TAG_CHAOS = map chr [226, 154, 161] @ '' [CHAOS TEST]''"

fun category_tag :: "category \<Rightarrow> string" where
  "category_tag CatRedTeam = EXERCISE_TAG_RED_TEAM"
| "category_tag CatChaos = EXERCISE_TAG_CHAOS"

fun category_as_str :: "category \<Rightarrow> string" where
  "category_as_str CatRedTeam = ''red_team''"
| "category_as_str CatChaos = ''chaos''"

definition category_from_str :: "string \<Rightarrow> category option" where
  "category_from_str s =
     (let t = to_ascii_lowercase (trim s) in
      if t = ''red_team'' \<or> t = ''redteam'' then Some CatRedTeam
      else if t = ''chaos'' then Some CatChaos
      else None)"

definition is_permitted :: "action_nature \<Rightarrow> bool" where
  "is_permitted n \<longleftrightarrow> n = Synthetic"

fun nature_as_str :: "action_nature \<Rightarrow> string" where
  "nature_as_str Synthetic = ''synthetic''"
| "nature_as_str Operational = ''operational''"

definition nature_from_str :: "string \<Rightarrow> action_nature option" where
  "nature_from_str s =
     (let t = to_ascii_lowercase (trim s) in
      if t = ''synthetic'' then Some Synthetic
      else if t = ''operational'' then Some Operational
      else None)"

section \<open>The run lifecycle\<close>

datatype run_state = Idle | Validated | Armed | Injecting | Detected | Contained
  | CircuitBreakerTripped | Cleanup | Completed

datatype run_event = Validate | Arm | Inject | Detect | Contain | TripBreaker
  | DoCleanup | Complete

record state_error =
  se_from :: run_state
  se_event :: run_event

fun on :: "run_state \<Rightarrow> run_event \<Rightarrow> state_error + run_state" where
  "on Idle Validate = Inr Validated"
| "on Validated Arm = Inr Armed"
| "on Armed Inject = Inr Injecting"
| "on Injecting Detect = Inr Detected"
| "on Injecting TripBreaker = Inr CircuitBreakerTripped"
| "on Detected Contain = Inr Contained"
| "on Contained DoCleanup = Inr Cleanup"
| "on CircuitBreakerTripped DoCleanup = Inr Cleanup"
| "on Cleanup Complete = Inr Completed"
| "on s e = Inl \<lparr>se_from = s, se_event = e\<rparr>"

definition is_terminal_state :: "run_state \<Rightarrow> bool" where
  "is_terminal_state s \<longleftrightarrow> s = Completed"

text \<open>A sequence of events with the \<open>?\<close> operator: it stops at the first refusal.\<close>

fun drive :: "run_state \<Rightarrow> run_event list \<Rightarrow> state_error + run_state" where
  "drive s [] = Inr s"
| "drive s (e # es) = (case on s e of Inl err \<Rightarrow> Inl err | Inr s' \<Rightarrow> drive s' es)"

fun_cases on_InrE: "on s e = Inr s'"

lemma on_error: "on s e = Inl err \<Longrightarrow> err = \<lparr>se_from = s, se_event = e\<rparr>"
  by (cases s; cases e) auto

lemma drive_append:
  "drive s (es @ fs) = (case drive s es of Inl err \<Rightarrow> Inl err | Inr s' \<Rightarrow> drive s' fs)"
  by (induction es arbitrary: s) (auto split: sum.splits)

definition happy_path :: "run_event list" where
  "happy_path = [Validate, Arm, Inject, Detect, Contain, DoCleanup, Complete]"

definition breaker_path :: "run_event list" where
  "breaker_path = [Validate, Arm, Inject, TripBreaker, DoCleanup, Complete]"

text \<open>The continuations the automaton accepts from each state.\<close>

fun continuations :: "run_state \<Rightarrow> run_event list list" where
  "continuations Completed = [[]]"
| "continuations Cleanup = [[Complete]]"
| "continuations Contained = [[DoCleanup, Complete]]"
| "continuations CircuitBreakerTripped = [[DoCleanup, Complete]]"
| "continuations Detected = [[Contain, DoCleanup, Complete]]"
| "continuations Injecting = [[Detect, Contain, DoCleanup, Complete], [TripBreaker, DoCleanup, Complete]]"
| "continuations Armed =
     [[Inject, Detect, Contain, DoCleanup, Complete], [Inject, TripBreaker, DoCleanup, Complete]]"
| "continuations Validated =
     [[Arm, Inject, Detect, Contain, DoCleanup, Complete], [Arm, Inject, TripBreaker, DoCleanup, Complete]]"
| "continuations Idle = [happy_path, breaker_path]"

lemma continuations_step:
  "on s e = Inr s' \<Longrightarrow>
     (\<exists>c \<in> set (continuations s). prefix (e # es) c) \<longleftrightarrow> (\<exists>c \<in> set (continuations s'). prefix es c)"
  by (erule on_InrE) (auto simp: happy_path_def breaker_path_def)

lemma continuations_stuck:
  "on s e = Inl err \<Longrightarrow> c \<in> set (continuations s) \<Longrightarrow> \<not> prefix (e # es) c"
  by (cases s; cases e) (auto simp: happy_path_def breaker_path_def)

lemma continuations_nonempty: "\<exists>c. c \<in> set (continuations s)"
  by (cases s) auto

lemma drive_accepts:
  "is_ok (drive s es) \<longleftrightarrow> (\<exists>c \<in> set (continuations s). prefix es c)"
proof (induction es arbitrary: s)
  case Nil
  then show ?case using continuations_nonempty by auto
next
  case (Cons e es)
  show ?case
  proof (cases "on s e")
    case (Inl err)
    then show ?thesis using continuations_stuck by auto
  next
    case (Inr s')
    with Cons.IH [of s'] continuations_step [OF Inr, of es] show ?thesis by simp
  qed
qed

lemma path_prefixes:
  "prefix es happy_path \<longleftrightarrow> es \<in> set (prefixes happy_path)"
  "prefix es breaker_path \<longleftrightarrow> es \<in> set (prefixes breaker_path)"
  by simp_all

lemma drive_targets:
  assumes "prefix es happy_path \<or> prefix es breaker_path"
  shows "(drive Idle es = Inr Injecting \<longleftrightarrow> es = [Validate, Arm, Inject])
    \<and> (drive Idle es = Inr Completed \<longleftrightarrow> es = happy_path \<or> es = breaker_path)"
  using assms unfolding path_prefixes
  by (auto simp: happy_path_def breaker_path_def)

text \<open>
  The run lifecycle is exactly the two documented paths: a sequence of events from \<open>Idle\<close> is
  accepted when and only when it is a prefix of the happy path or of the breaker path. So
  \<open>Injecting\<close> is never reached without \<open>Validate\<close> and \<open>Arm\<close> before, in that order, and a run
  completes only through \<open>Cleanup\<close>.
\<close>
theorem lifecycle_language:
  "(is_ok (drive Idle es) \<longleftrightarrow> prefix es happy_path \<or> prefix es breaker_path)
   \<and> (drive Idle es = Inr Injecting \<longleftrightarrow> es = [Validate, Arm, Inject])
   \<and> (drive Idle es = Inr Completed \<longleftrightarrow> es = happy_path \<or> es = breaker_path)"
proof (cases "prefix es happy_path \<or> prefix es breaker_path")
  case True
  then show ?thesis using drive_targets [OF True] by (simp add: drive_accepts)
next
  case False
  then have no: "\<not> is_ok (drive Idle es)" by (simp add: drive_accepts)
  then have "drive Idle es \<noteq> Inr s" for s by (auto simp: is_ok_iff)
  moreover have "es \<noteq> [Validate, Arm, Inject]" "es \<noteq> happy_path" "es \<noteq> breaker_path"
    using False by (auto simp: happy_path_def)
  ultimately show ?thesis using False no by simp
qed

end
