(* ===== verification/Scope.thy ===== *)
theory Scope
  imports Domain
begin

text \<open>
  \<open>crates/asmodeus-dsl/src/lib.rs\<close>: the blast radius. \<open>path_in_scope\<close> confines file targets to the
  two canary directories, \<open>net_target_in_scope\<close> confines network targets to loopback and the three
  documentation nets. The specifications are the lexical resolution of a path (\<open>resolve_path\<close>) and
  the set of addresses a CIDR block names; the lemmas say that both guards decide them.
\<close>

section \<open>Paths\<close>

definition CANARY_PREFIXES :: "string list" where
  "CANARY_PREFIXES = [''/var/tmp/asmodeus-canary/'', ''/tmp/asmodeus-canary/'']"

definition trim_end_slash :: "string \<Rightarrow> string" where
  "trim_end_slash s = rev (dropWhile (\<lambda>c. c = CHR ''/'') (rev s))"

definition path_in_scope :: "string \<Rightarrow> bool" where
  "path_in_scope path =
     (if list_ex (\<lambda>component. component = ''..'') (split_on CHR ''/'' path) then False
      else (let trimmed = trim_end_slash path in
        trimmed = ''/var/tmp/asmodeus-canary''
        \<or> trimmed = ''/tmp/asmodeus-canary''
        \<or> list_ex (\<lambda>p. starts_with path p) CANARY_PREFIXES))"

text \<open>What the operating system makes of a path without symbolic links: the names from the root.\<close>

fun resolve_step :: "string \<Rightarrow> string list \<Rightarrow> string list" where
  "resolve_step c st = (if c = [] \<or> c = ''.'' then st else if c = ''..'' then tl st else c # st)"

definition resolve_path :: "string \<Rightarrow> string list" where
  "resolve_path p = rev (fold resolve_step (split_on CHR ''/'' p) [])"

definition canary_dirs :: "string list list" where
  "canary_dirs = [[''var'', ''tmp'', ''asmodeus-canary''], [''tmp'', ''asmodeus-canary'']]"

declare resolve_step.simps [simp del]

lemma resolve_push: "''..'' \<notin> set cs \<Longrightarrow> \<exists>x. fold resolve_step cs st = x @ st"
proof (induction cs arbitrary: st)
  case Nil
  then show ?case by simp
next
  case (Cons c cs)
  then have ih: "\<exists>x. fold resolve_step cs st' = x @ st'" for st' by simp
  from Cons.prems have "c \<noteq> ''..''" by auto
  then have "resolve_step c st = st \<or> resolve_step c st = c # st" by (simp add: resolve_step.simps)
  then show ?case using ih [of st] ih [of "c # st"] by auto
qed

lemma resolve_under:
  assumes "''..'' \<notin> set (split_on CHR ''/'' r)"
  shows "prefix (resolve_path q) (resolve_path (q @ CHR ''/'' # r))"
proof -
  obtain x where "fold resolve_step (split_on CHR ''/'' r) (fold resolve_step (split_on CHR ''/'' q) [])
      = x @ fold resolve_step (split_on CHR ''/'' q) []"
    using resolve_push [OF assms] by blast
  then show ?thesis by (simp add: resolve_path_def split_on_append_sep)
qed

lemma trim_end_slash_split: "\<exists>n. s = trim_end_slash s @ replicate n CHR ''/''"
proof -
  have "rev (takeWhile (\<lambda>c. c = CHR ''/'') (rev s)) = replicate (length (takeWhile (\<lambda>c. c = CHR ''/'') (rev s))) CHR ''/''"
    by (rule replicate_length_same [symmetric, THEN trans, rotated])
      (auto dest: set_takeWhileD)
  moreover have "s = trim_end_slash s @ rev (takeWhile (\<lambda>c. c = CHR ''/'') (rev s))"
    by (metis rev_append rev_rev_ident takeWhile_dropWhile_id trim_end_slash_def)
  ultimately show ?thesis by metis
qed

definition canary_roots :: "string list" where
  "canary_roots = [''/var/tmp/asmodeus-canary'', ''/tmp/asmodeus-canary'']"

lemma path_in_scope_iff:
  "path_in_scope p \<longleftrightarrow> ''..'' \<notin> set (split_on CHR ''/'' p) \<and>
     (trim_end_slash p \<in> set canary_roots \<or> (\<exists>q \<in> set canary_roots. \<exists>r. p = q @ CHR ''/'' # r))"
proof -
  have pre: "CANARY_PREFIXES = map (\<lambda>q. q @ ''/'') canary_roots"
    by (simp add: CANARY_PREFIXES_def canary_roots_def)
  have "list_ex (\<lambda>q. starts_with p q) CANARY_PREFIXES \<longleftrightarrow> (\<exists>q \<in> set canary_roots. \<exists>r. p = q @ CHR ''/'' # r)"
    unfolding pre by (simp add: list_ex_iff starts_with_iff)
  moreover have "trim_end_slash p \<in> set canary_roots \<longleftrightarrow>
      trim_end_slash p = ''/var/tmp/asmodeus-canary'' \<or> trim_end_slash p = ''/tmp/asmodeus-canary''"
    by (simp only: canary_roots_def list.set insert_iff empty_iff simp_thms)
  moreover have "list_ex (\<lambda>c. c = ''..'') (split_on CHR ''/'' p) \<longleftrightarrow> ''..'' \<in> set (split_on CHR ''/'' p)"
    by (auto simp only: list_ex_iff)
  ultimately show ?thesis unfolding path_in_scope_def Let_def by metis
qed

lemma in_scope_cases:
  assumes "path_in_scope p"
  obtains "p \<in> set canary_roots"
  | q r where "q \<in> set canary_roots" and "p = q @ CHR ''/'' # r" and "''..'' \<notin> set (split_on CHR ''/'' r)"
proof -
  have sub: "''..'' \<notin> set (split_on CHR ''/'' r)" if "p = q @ CHR ''/'' # r" for q r
    using assms that by (simp add: path_in_scope_iff split_on_append_sep)
  obtain n where n: "p = trim_end_slash p @ replicate n CHR ''/''" using trim_end_slash_split by blast
  show thesis
  proof (cases "\<exists>q \<in> set canary_roots. \<exists>r. p = q @ CHR ''/'' # r")
    case True
    then show thesis using that(2) sub by blast
  next
    case False
    then have root: "trim_end_slash p \<in> set canary_roots" using assms by (simp add: path_in_scope_iff)
    moreover have "n = 0" using n root False by (cases n) auto
    ultimately show thesis using n that(1) by simp
  qed
qed

lemma path_in_scope_join:
  assumes "path_in_scope p" and "''..'' \<notin> set (split_on CHR ''/'' r)"
  shows "path_in_scope (p @ CHR ''/'' # r)"
proof -
  have "\<exists>q \<in> set canary_roots. \<exists>r'. p @ CHR ''/'' # r = q @ CHR ''/'' # r'"
    using assms(1) by (rule in_scope_cases) auto
  with assms show ?thesis by (simp add: path_in_scope_iff split_on_append_sep)
qed

lemma resolve_canary:
  assumes "q \<in> set canary_roots"
  shows "resolve_path q \<in> set canary_dirs"
proof -
  have "set (map resolve_path canary_roots) = set canary_dirs"
    by (simp add: canary_roots_def canary_dirs_def resolve_path_def resolve_step.simps)
  with assms show ?thesis by (metis image_eqI image_set)
qed

lemma in_scope_canary:
  assumes "path_in_scope p"
  shows "\<exists>d \<in> set canary_dirs. prefix d (resolve_path p)"
  using assms
proof (cases rule: in_scope_cases)
  case 1
  then show ?thesis using resolve_canary by blast
next
  case (2 q r)
  then show ?thesis using resolve_under [OF 2(3), of q] resolve_canary by blast
qed

text \<open>
  C0: A path the sandbox guard accepts resolves, component by component with \<open>.\<close>, \<open>..\<close> and doubled
  slashes taken as the operating system takes them, to a place at or below one of the two canary
  directories; anything joined to it without a parent component is accepted again and resolves below
  that place.
\<close>
theorem path_in_scope_confined:
  assumes "path_in_scope p"
  shows "(\<exists>d \<in> set canary_dirs. prefix d (resolve_path p))
    \<and> (\<forall>r. ''..'' \<notin> set (split_on CHR ''/'' r) \<longrightarrow>
          path_in_scope (p @ CHR ''/'' # r) \<and> prefix (resolve_path p) (resolve_path (p @ CHR ''/'' # r)))"
  using in_scope_canary [OF assms] path_in_scope_join [OF assms] resolve_under by blast

theorem path_in_scope_confined_witness:
  "\<exists>d \<in> set canary_dirs. prefix d (resolve_path ''/tmp/asmodeus-canary/run/./a//b'')"
  by (rule conjunct1 [OF path_in_scope_confined]) (simp add: path_in_scope_def CANARY_PREFIXES_def starts_with_def)

section \<open>Networks\<close>

definition NET_TEST_BLOCKS :: "(32 word \<times> nat) list" where
  "NET_TEST_BLOCKS = [(0x7F000000, 8), (0xC0000200, 24), (0xC6336400, 24), (0xCB007100, 24)]"

text \<open>\<open>if prefix == 0 { 0 } else { u32::MAX << (32 - prefix) }\<close>\<close>

definition prefix_mask :: "nat \<Rightarrow> 32 word" where
  "prefix_mask plen = (if plen = 0 then 0 else push_bit (32 - plen) (- 1))"

fun parse_octets :: "nat list \<Rightarrow> string list \<Rightarrow> nat list option" where
  "parse_octets acc [] = (if length acc = 4 then Some acc else None)"
| "parse_octets acc (part # parts) =
     (if length acc = 4 then None
      else case parse_u8 part of None \<Rightarrow> None | Some n \<Rightarrow> parse_octets (acc @ [n]) parts)"

definition from_be_bytes :: "nat list \<Rightarrow> 32 word" where
  "from_be_bytes = foldl (\<lambda>w b. push_bit 8 w OR word_of_nat b) 0"

definition parse_ipv4_cidr :: "string \<Rightarrow> (32 word \<times> nat) option" where
  "parse_ipv4_cidr cidr =
     (case split_once CHR ''/'' cidr of
        None \<Rightarrow> None
      | Some (addr, len) \<Rightarrow>
          (case parse_u32 len of
             None \<Rightarrow> None
           | Some plen \<Rightarrow>
               (if plen > 32 then None
                else (case parse_octets [] (split_on CHR ''.'' addr) of
                   None \<Rightarrow> None
                 | Some octets \<Rightarrow> Some (from_be_bytes octets AND prefix_mask plen, plen)))))"

definition net_target_in_scope :: "string \<Rightarrow> bool" where
  "net_target_in_scope cidr =
     (case parse_ipv4_cidr cidr of
        None \<Rightarrow> False
      | Some (net, plen) \<Rightarrow>
          list_ex (\<lambda>(block_net, block_prefix).
            \<not> plen < block_prefix \<and> net AND prefix_mask block_prefix = block_net) NET_TEST_BLOCKS)"

text \<open>An address is a member of a block when it agrees with it under the block's mask.\<close>

definition in_block :: "32 word \<Rightarrow> 32 word \<times> nat \<Rightarrow> bool" where
  "in_block a blk \<longleftrightarrow> a AND prefix_mask (snd blk) = fst blk"

definition test_address :: "32 word \<Rightarrow> bool" where
  "test_address a \<longleftrightarrow>
     drop_bit 24 a = 127
     \<or> drop_bit 8 a = 0xC00002 \<or> drop_bit 8 a = 0xC63364 \<or> drop_bit 8 a = 0xCB0071"

lemma bit_prefix_mask: "p \<le> 32 \<Longrightarrow> bit (prefix_mask p) i \<longleftrightarrow> 32 - p \<le> i \<and> i < 32"
  by (auto simp: prefix_mask_def bit_simps not_less not_le)

lemma mask_drop_bit:
  assumes "p \<le> 32"
  shows "a AND prefix_mask p = b AND prefix_mask p \<longleftrightarrow> drop_bit (32 - p) a = drop_bit (32 - p) b"
proof
  assume eq: "a AND prefix_mask p = b AND prefix_mask p"
  show "drop_bit (32 - p) a = drop_bit (32 - p) b"
  proof (rule bit_word_eqI)
    fix i :: nat
    have "bit (a AND prefix_mask p) (32 - p + i) = bit (b AND prefix_mask p) (32 - p + i)"
      by (simp only: eq)
    then show "bit (drop_bit (32 - p) a) i = bit (drop_bit (32 - p) b) i"
      using assms by (auto simp: bit_and_iff bit_prefix_mask bit_drop_bit_eq dest: bit_imp_le_length)
  qed
next
  assume eq: "drop_bit (32 - p) a = drop_bit (32 - p) b"
  show "a AND prefix_mask p = b AND prefix_mask p"
  proof (rule bit_word_eqI)
    fix i :: nat
    have "bit (drop_bit (32 - p) a) (i - (32 - p)) = bit (drop_bit (32 - p) b) (i - (32 - p))"
      by (simp only: eq)
    then show "bit (a AND prefix_mask p) i = bit (b AND prefix_mask p) i"
      using assms by (auto simp: bit_and_iff bit_prefix_mask bit_drop_bit_eq)
  qed
qed

lemma in_block_drop:
  assumes "p \<le> 32" and "b AND prefix_mask p = b"
  shows "in_block a (b, p) \<longleftrightarrow> drop_bit (32 - p) a = drop_bit (32 - p) b"
  using mask_drop_bit [OF assms(1), of a b] assms(2) by (simp add: in_block_def)


lemma prefix_mask_eval: "prefix_mask 8 = 0xFF000000" "prefix_mask 24 = 0xFFFFFF00"
  by (simp_all add: prefix_mask_def push_bit_eq_mult)

lemma in_test_block:
  "in_block a (0x7F000000, 8) \<longleftrightarrow> drop_bit 24 a = 127"
  "in_block a (0xC0000200, 24) \<longleftrightarrow> drop_bit 8 a = 0xC00002"
  "in_block a (0xC6336400, 24) \<longleftrightarrow> drop_bit 8 a = 0xC63364"
  "in_block a (0xCB007100, 24) \<longleftrightarrow> drop_bit 8 a = 0xCB0071"
  using in_block_drop [of 8 "0x7F000000" a] in_block_drop [of 24 "0xC0000200" a]
    in_block_drop [of 24 "0xC6336400" a] in_block_drop [of 24 "0xCB007100" a]
  by (simp_all add: prefix_mask_eval)

lemma test_address_blocks: "test_address a \<longleftrightarrow> list_ex (in_block a) NET_TEST_BLOCKS"
  by (simp add: NET_TEST_BLOCKS_def test_address_def in_test_block)

lemma parse_ipv4_cidr_prefix:
  "parse_ipv4_cidr s = Some (net, p) \<Longrightarrow> p \<le> 32 \<and> net AND prefix_mask p = net"
  by (auto simp: parse_ipv4_cidr_def and.assoc split: option.splits if_splits)

lemma prefix_mask_absorb: "q \<le> p \<Longrightarrow> p \<le> 32 \<Longrightarrow> prefix_mask p AND prefix_mask q = prefix_mask q"
  by (rule bit_word_eqI) (auto simp: bit_and_iff bit_prefix_mask)

lemma in_block_weaken:
  assumes "in_block a (net, p)" and "q \<le> p" and "p \<le> 32"
  shows "a AND prefix_mask q = net AND prefix_mask q"
  using assms by (auto simp: in_block_def and.assoc prefix_mask_absorb)

text \<open>The neighbour of an address across the last bit of a block's prefix.\<close>

lemma neighbour_in_block:
  assumes "p < q" and "q \<le> 32"
  shows "(a XOR push_bit (32 - q) 1) AND prefix_mask p = a AND prefix_mask p"
  using assms by (intro bit_word_eqI) (auto simp: bit_simps bit_prefix_mask bit_1_iff)

lemma neighbour_drop8: "drop_bit 8 (a XOR push_bit 8 1 :: 32 word) = drop_bit 8 a XOR 1"
  by (simp add: drop_bit_xor)

lemma neighbour_drop24: "drop_bit 24 (a XOR push_bit 24 1 :: 32 word) = drop_bit 24 a XOR 1"
  by (simp add: drop_bit_xor)

lemma drop24_drop8: "drop_bit 24 (a :: 32 word) = drop_bit 16 (drop_bit 8 a)"
  by simp

lemma test_address_top:
  assumes "test_address a"
  shows "drop_bit 24 a \<in> {127, 0xC0, 0xC6, 0xCB}"
  using assms unfolding test_address_def drop24_drop8 by (elim disjE) (simp_all del: drop_bit_drop_bit)

lemma not_test_address:
  assumes "drop_bit 8 a = y" and "drop_bit 16 y \<noteq> 127" and "y \<noteq> 0xC00002" and "y \<noteq> 0xC63364" and "y \<noteq> 0xCB0071"
  shows "\<not> test_address a"
  using assms unfolding test_address_def drop24_drop8 by blast

lemma neighbour_outside:
  assumes "blk \<in> set NET_TEST_BLOCKS" and "in_block a blk"
  shows "\<not> test_address (a XOR push_bit (32 - snd blk) 1)"
proof -
  let ?b = "a XOR push_bit 8 1" and ?c = "a XOR push_bit 24 1"
  have "\<not> test_address ?c" if "drop_bit 24 a = 127"
  proof -
    have "drop_bit 24 ?c = 126" using that by (simp only: neighbour_drop24) simp
    then show ?thesis using test_address_top [of ?c] by auto
  qed
  moreover have "\<not> test_address ?b" if "drop_bit 8 a = 0xC00002"
  proof -
    have "drop_bit 8 ?b = 0xC00003" using that by (simp only: neighbour_drop8) simp
    then show ?thesis by (rule not_test_address) simp_all
  qed
  moreover have "\<not> test_address ?b" if "drop_bit 8 a = 0xC63364"
  proof -
    have "drop_bit 8 ?b = 0xC63365" using that by (simp only: neighbour_drop8) simp
    then show ?thesis by (rule not_test_address) simp_all
  qed
  moreover have "\<not> test_address ?b" if "drop_bit 8 a = 0xCB0071"
  proof -
    have "drop_bit 8 ?b = 0xCB0070" using that by (simp only: neighbour_drop8) simp
    then show ?thesis by (rule not_test_address) simp_all
  qed
  ultimately show ?thesis using assms
    by (auto simp: NET_TEST_BLOCKS_def in_test_block simp del: push_bit_of_1)
qed

lemma net_accept:
  assumes "blk \<in> set NET_TEST_BLOCKS" and "snd blk \<le> p" and "p \<le> 32"
    and "net AND prefix_mask (snd blk) = fst blk" and "in_block a (net, p)"
  shows "test_address a"
  using in_block_weaken [OF assms(5,2,3)] assms(1,4)
  by (auto simp: test_address_blocks list_ex_iff in_block_def)

lemma net_block_exact:
  assumes "net AND prefix_mask p = net" and "p \<le> 32"
  shows "(\<exists>blk \<in> set NET_TEST_BLOCKS. snd blk \<le> p \<and> net AND prefix_mask (snd blk) = fst blk)
    \<longleftrightarrow> (\<forall>a. in_block a (net, p) \<longrightarrow> test_address a)"
proof
  assume "\<exists>blk \<in> set NET_TEST_BLOCKS. snd blk \<le> p \<and> net AND prefix_mask (snd blk) = fst blk"
  then show "\<forall>a. in_block a (net, p) \<longrightarrow> test_address a" using net_accept assms(2) by blast
next
  assume all: "\<forall>a. in_block a (net, p) \<longrightarrow> test_address a"
  have "in_block net (net, p)" using assms(1) by (simp add: in_block_def)
  then obtain blk where blk: "blk \<in> set NET_TEST_BLOCKS" "in_block net blk"
    using all by (auto simp: test_address_blocks list_ex_iff)
  have le: "snd blk \<le> 32" using blk(1) by (auto simp: NET_TEST_BLOCKS_def)
  have "\<not> p < snd blk"
  proof
    assume "p < snd blk"
    then have "in_block (net XOR push_bit (32 - snd blk) 1) (net, p)"
      using neighbour_in_block [OF _ le] assms(1) by (simp add: in_block_def)
    with all neighbour_outside [OF blk] show False by blast
  qed
  with blk show "\<exists>blk \<in> set NET_TEST_BLOCKS. snd blk \<le> p \<and> net AND prefix_mask (snd blk) = fst blk"
    unfolding in_block_def by (meson not_less)
qed

text \<open>
  C16: The network guard is exact: it accepts a target exactly when the text parses as an IPv4 CIDR
  block every address of which lies in loopback or in one of the three documentation nets. A
  supernet of a test block, a malformed text or a block that leaves the test ranges in one address
  is refused.
\<close>
theorem net_target_in_scope_exact:
  "net_target_in_scope s \<longleftrightarrow>
     (\<exists>net p. parse_ipv4_cidr s = Some (net, p) \<and> {a. in_block a (net, p)} \<subseteq> {a. test_address a})"
proof (cases "parse_ipv4_cidr s")
  case None
  then show ?thesis by (simp add: net_target_in_scope_def)
next
  case (Some np)
  then obtain net p where np: "parse_ipv4_cidr s = Some (net, p)" by (cases np) auto
  have "net_target_in_scope s \<longleftrightarrow>
      (\<exists>blk \<in> set NET_TEST_BLOCKS. snd blk \<le> p \<and> net AND prefix_mask (snd blk) = fst blk)"
    by (auto simp: net_target_in_scope_def np list_ex_iff not_less split_def)
  then show ?thesis using net_block_exact [of net p] parse_ipv4_cidr_prefix [OF np] np by (simp add: Collect_mono_iff)
qed

section \<open>The INV-0 gates\<close>

datatype reject_reason = NotSynthetic | OutOfScope | OutOfNetScope

definition validate :: "action_nature \<Rightarrow> string \<Rightarrow> reject_reason + run_state" where
  "validate nature target_path =
     (if \<not> is_permitted nature then Inl NotSynthetic
      else if \<not> path_in_scope target_path then Inl OutOfScope
      else Inr Validated)"

definition validate_net :: "action_nature \<Rightarrow> string \<Rightarrow> reject_reason + run_state" where
  "validate_net nature target_cidr =
     (if \<not> is_permitted nature then Inl NotSynthetic
      else if \<not> net_target_in_scope target_cidr then Inl OutOfNetScope
      else Inr Validated)"

lemma validate_Inr [simp]:
  "validate n p = Inr s \<longleftrightarrow> n = Synthetic \<and> path_in_scope p \<and> s = Validated"
  by (auto simp: validate_def is_permitted_def)

lemma validate_net_Inr [simp]:
  "validate_net n c = Inr s \<longleftrightarrow> n = Synthetic \<and> net_target_in_scope c \<and> s = Validated"
  by (auto simp: validate_net_def is_permitted_def)

end
