(* ===== verification/Taxonomy.thy ===== *)
theory Taxonomy
  imports Domain
begin

text \<open>
  \<open>crates/asmodeus-dsl/src/mitre.rs\<close> and \<open>fidelity.rs\<close>: the pinned ATT&CK table with its
  case-insensitive lookup, and the order of fidelity levels that bounds what a scenario may claim.
  The lemmas show that the table is a well-formed two-level taxonomy: identifiers are distinct up
  to case, the primary tactic heads the tactic set, every sub-technique hangs below a base technique.
\<close>

section \<open>The technique table\<close>

record mitre_technique =
  mt_id :: string
  mt_name :: string
  mt_tactic :: string
  mt_tactics :: "string list"
  mt_parent :: "string option"
  mt_description :: string

definition is_subtechnique :: "mitre_technique \<Rightarrow> bool" where
  "is_subtechnique t \<longleftrightarrow> mt_parent t \<noteq> None"

definition ATTACK_VERSION :: string where
  "ATTACK_VERSION = ''ATT&CK Enterprise v15.1''"

definition T1486_DATA_ENCRYPTED_FOR_IMPACT :: mitre_technique where
  "T1486_DATA_ENCRYPTED_FOR_IMPACT = \<lparr>
     mt_id = ''T1486'', mt_name = ''Data Encrypted for Impact'', mt_tactic = ''Impact'',
     mt_tactics = [''Impact''], mt_parent = None,
     mt_description = ''Adversaries may encrypt data on target systems or on large numbers of systems in a network to interrupt availability.''\<rparr>"

definition T1611_ESCAPE_TO_HOST :: mitre_technique where
  "T1611_ESCAPE_TO_HOST = \<lparr>
     mt_id = ''T1611'', mt_name = ''Escape to Host'', mt_tactic = ''Privilege Escalation'',
     mt_tactics = [''Privilege Escalation''], mt_parent = None,
     mt_description = ''Adversaries may break out of a container to gain access to the underlying host system.''\<rparr>"

definition T1059_COMMAND_AND_SCRIPTING_INTERPRETER :: mitre_technique where
  "T1059_COMMAND_AND_SCRIPTING_INTERPRETER = \<lparr>
     mt_id = ''T1059'', mt_name = ''Command and Scripting Interpreter'', mt_tactic = ''Execution'',
     mt_tactics = [''Execution''], mt_parent = None,
     mt_description = ''Adversaries may abuse command and script interpreters to execute commands, scripts, or binaries.''\<rparr>"

definition T1071_APPLICATION_LAYER_PROTOCOL :: mitre_technique where
  "T1071_APPLICATION_LAYER_PROTOCOL = \<lparr>
     mt_id = ''T1071'', mt_name = ''Application Layer Protocol'', mt_tactic = ''Command and Control'',
     mt_tactics = [''Command and Control''], mt_parent = None,
     mt_description = ''Adversaries may communicate using application layer protocols to avoid detection/network filtering by blending in with existing traffic.''\<rparr>"

definition T1568_DYNAMIC_RESOLUTION :: mitre_technique where
  "T1568_DYNAMIC_RESOLUTION = \<lparr>
     mt_id = ''T1568'', mt_name = ''Dynamic Resolution'', mt_tactic = ''Command and Control'',
     mt_tactics = [''Command and Control''], mt_parent = None,
     mt_description = ''Adversaries may dynamically establish connections to command and control infrastructure using domain generation or dynamic DNS.''\<rparr>"

definition T1003_OS_CREDENTIAL_DUMPING :: mitre_technique where
  "T1003_OS_CREDENTIAL_DUMPING = \<lparr>
     mt_id = ''T1003'', mt_name = ''OS Credential Dumping'', mt_tactic = ''Credential Access'',
     mt_tactics = [''Credential Access''], mt_parent = None,
     mt_description = ''Adversaries may attempt to dump credentials to obtain account login and credential material.''\<rparr>"

definition T1070_INDICATOR_REMOVAL :: mitre_technique where
  "T1070_INDICATOR_REMOVAL = \<lparr>
     mt_id = ''T1070'', mt_name = ''Indicator Removal on Host'', mt_tactic = ''Defense Evasion'',
     mt_tactics = [''Defense Evasion''], mt_parent = None,
     mt_description = ''Adversaries may delete or alter generated event logs, files, or other artifacts to cover their tracks.''\<rparr>"

definition T1053_SCHEDULED_TASK_JOB :: mitre_technique where
  "T1053_SCHEDULED_TASK_JOB = \<lparr>
     mt_id = ''T1053'', mt_name = ''Scheduled Task/Job'', mt_tactic = ''Persistence'',
     mt_tactics = [''Persistence'', ''Execution'', ''Privilege Escalation''], mt_parent = None,
     mt_description = ''Adversaries may configure tasks or jobs to execute at a specified time or on a recurring basis for persistence.''\<rparr>"

definition T1041_EXFILTRATION_OVER_C2 :: mitre_technique where
  "T1041_EXFILTRATION_OVER_C2 = \<lparr>
     mt_id = ''T1041'', mt_name = ''Exfiltration Over C2 Channel'', mt_tactic = ''Exfiltration'',
     mt_tactics = [''Exfiltration''], mt_parent = None,
     mt_description = ''Adversaries may steal data by exfiltrating it over an existing command and control channel.''\<rparr>"

definition T1562_IMPAIR_DEFENSES :: mitre_technique where
  "T1562_IMPAIR_DEFENSES = \<lparr>
     mt_id = ''T1562'', mt_name = ''Impair Defenses: Disable Tools'', mt_tactic = ''Defense Evasion'',
     mt_tactics = [''Defense Evasion''], mt_parent = None,
     mt_description = ''Adversaries may maliciously inhibit or disable security tools, logging services, or protective agents.''\<rparr>"

definition T1609_CONTAINER_ADMINISTRATION_COMMAND :: mitre_technique where
  "T1609_CONTAINER_ADMINISTRATION_COMMAND = \<lparr>
     mt_id = ''T1609'', mt_name = ''Container Administration Command'', mt_tactic = ''Execution'',
     mt_tactics = [''Execution''], mt_parent = None,
     mt_description = ''Adversaries may abuse a container administration service to execute commands within a container.''\<rparr>"

definition T1059_004_UNIX_SHELL :: mitre_technique where
  "T1059_004_UNIX_SHELL = \<lparr>
     mt_id = ''T1059.004'', mt_name = ''Command and Scripting Interpreter: Unix Shell'', mt_tactic = ''Execution'',
     mt_tactics = [''Execution''], mt_parent = Some ''T1059'',
     mt_description = ''Adversaries may abuse Unix shell commands and scripts for execution.''\<rparr>"

definition T1071_001_WEB_PROTOCOLS :: mitre_technique where
  "T1071_001_WEB_PROTOCOLS = \<lparr>
     mt_id = ''T1071.001'', mt_name = ''Application Layer Protocol: Web Protocols'', mt_tactic = ''Command and Control'',
     mt_tactics = [''Command and Control''], mt_parent = Some ''T1071'',
     mt_description = ''Adversaries may communicate using application layer protocols associated with web traffic to avoid detection.''\<rparr>"

definition T1071_004_DNS :: mitre_technique where
  "T1071_004_DNS = \<lparr>
     mt_id = ''T1071.004'', mt_name = ''Application Layer Protocol: DNS'', mt_tactic = ''Command and Control'',
     mt_tactics = [''Command and Control''], mt_parent = Some ''T1071'',
     mt_description = ''Adversaries may communicate using the DNS application layer protocol to avoid detection/network filtering.''\<rparr>"

definition T1562_001_DISABLE_OR_MODIFY_TOOLS :: mitre_technique where
  "T1562_001_DISABLE_OR_MODIFY_TOOLS = \<lparr>
     mt_id = ''T1562.001'', mt_name = ''Impair Defenses: Disable or Modify Tools'', mt_tactic = ''Defense Evasion'',
     mt_tactics = [''Defense Evasion''], mt_parent = Some ''T1562'',
     mt_description = ''Adversaries may disable or modify security tools to avoid possible detection of their activity.''\<rparr>"

definition ALL_TECHNIQUES :: "mitre_technique list" where
  "ALL_TECHNIQUES =
    [T1486_DATA_ENCRYPTED_FOR_IMPACT,
     T1611_ESCAPE_TO_HOST,
     T1059_COMMAND_AND_SCRIPTING_INTERPRETER,
     T1071_APPLICATION_LAYER_PROTOCOL,
     T1568_DYNAMIC_RESOLUTION,
     T1003_OS_CREDENTIAL_DUMPING,
     T1070_INDICATOR_REMOVAL,
     T1053_SCHEDULED_TASK_JOB,
     T1041_EXFILTRATION_OVER_C2,
     T1562_IMPAIR_DEFENSES]"

definition ADDITIONAL_TECHNIQUES :: "mitre_technique list" where
  "ADDITIONAL_TECHNIQUES = [T1609_CONTAINER_ADMINISTRATION_COMMAND]"

definition SUBTECHNIQUES :: "mitre_technique list" where
  "SUBTECHNIQUES =
    [T1059_004_UNIX_SHELL,
     T1071_001_WEB_PROTOCOLS,
     T1071_004_DNS,
     T1562_001_DISABLE_OR_MODIFY_TOOLS]"

definition ALL_DEFS :: "mitre_technique list" where
  "ALL_DEFS =
    [T1486_DATA_ENCRYPTED_FOR_IMPACT,
     T1611_ESCAPE_TO_HOST,
     T1059_COMMAND_AND_SCRIPTING_INTERPRETER,
     T1071_APPLICATION_LAYER_PROTOCOL,
     T1568_DYNAMIC_RESOLUTION,
     T1003_OS_CREDENTIAL_DUMPING,
     T1070_INDICATOR_REMOVAL,
     T1053_SCHEDULED_TASK_JOB,
     T1041_EXFILTRATION_OVER_C2,
     T1562_IMPAIR_DEFENSES,
     T1609_CONTAINER_ADMINISTRATION_COMMAND,
     T1059_004_UNIX_SHELL,
     T1071_001_WEB_PROTOCOLS,
     T1071_004_DNS,
     T1562_001_DISABLE_OR_MODIFY_TOOLS]"

definition lookup_technique :: "string \<Rightarrow> mitre_technique option" where
  "lookup_technique tid = find (\<lambda>t. eq_ignore_ascii_case (mt_id t) tid) ALL_DEFS"

definition is_known_id :: "string \<Rightarrow> bool" where
  "is_known_id tid \<longleftrightarrow> lookup_technique tid \<noteq> None"

definition base_technique :: "string \<Rightarrow> mitre_technique option" where
  "base_technique tid =
     (case lookup_technique tid of
        None \<Rightarrow> None
      | Some t \<Rightarrow> (case mt_parent t of None \<Rightarrow> Some t | Some p \<Rightarrow> lookup_technique p))"

lemmas technique_defs =
  T1486_DATA_ENCRYPTED_FOR_IMPACT_def
  T1611_ESCAPE_TO_HOST_def
  T1059_COMMAND_AND_SCRIPTING_INTERPRETER_def
  T1071_APPLICATION_LAYER_PROTOCOL_def
  T1568_DYNAMIC_RESOLUTION_def
  T1003_OS_CREDENTIAL_DUMPING_def
  T1070_INDICATOR_REMOVAL_def
  T1053_SCHEDULED_TASK_JOB_def
  T1041_EXFILTRATION_OVER_C2_def
  T1562_IMPAIR_DEFENSES_def
  T1609_CONTAINER_ADMINISTRATION_COMMAND_def
  T1059_004_UNIX_SHELL_def
  T1071_001_WEB_PROTOCOLS_def
  T1071_004_DNS_def
  T1562_001_DISABLE_OR_MODIFY_TOOLS_def

lemma all_defs_ids:
  "map mt_id ALL_DEFS =
    [''T1486'', ''T1611'', ''T1059'', ''T1071'', ''T1568'', ''T1003'', ''T1070'', ''T1053'', ''T1041'',
     ''T1562'', ''T1609'', ''T1059.004'', ''T1071.001'', ''T1071.004'', ''T1562.001'']"
  by (simp add: ALL_DEFS_def technique_defs)

lemma all_defs_split: "ALL_DEFS = ALL_TECHNIQUES @ ADDITIONAL_TECHNIQUES @ SUBTECHNIQUES"
  by (simp add: ALL_DEFS_def ALL_TECHNIQUES_def ADDITIONAL_TECHNIQUES_def SUBTECHNIQUES_def)

lemma find_SomeD: "find p xs = Some x \<Longrightarrow> x \<in> set xs \<and> p x"
  by (induction xs) (auto split: if_splits)

lemma lookup_SomeD:
  "lookup_technique tid = Some t \<Longrightarrow> t \<in> set ALL_DEFS \<and> eq_ignore_ascii_case (mt_id t) tid"
  unfolding lookup_technique_def by (drule find_SomeD) simp

lemma lookup_cong: "eq_ignore_ascii_case a b \<Longrightarrow> lookup_technique a = lookup_technique b"
  unfolding lookup_technique_def eq_ignore_ascii_case_def by simp

lemma ids_distinct: "distinct (map to_ascii_lowercase (map mt_id ALL_DEFS))"
  unfolding all_defs_ids by (simp add: to_ascii_lowercase_def ascii_lower_def byte_def chr_def)

lemma find_distinct:
  "distinct (map f xs) \<Longrightarrow> x \<in> set xs \<Longrightarrow> find (\<lambda>y. f y = f x) xs = Some x"
  by (induction xs) auto

lemma lookup_member: "t \<in> set ALL_DEFS \<Longrightarrow> lookup_technique (mt_id t) = Some t"
  using find_distinct [of "to_ascii_lowercase \<circ> mt_id" ALL_DEFS t] ids_distinct
  by (simp add: lookup_technique_def eq_ignore_ascii_case_def)

lemma parents_are_bases:
  "list_all (\<lambda>t. case mt_parent t of None \<Rightarrow> True
     | Some p \<Rightarrow> list_ex (\<lambda>b. mt_id b = p \<and> mt_parent b = None) ALL_DEFS) ALL_DEFS"
  by (simp add: ALL_DEFS_def technique_defs)

lemma lookup_parent:
  assumes "t \<in> set ALL_DEFS" and "mt_parent t = Some p"
  obtains b where "lookup_technique p = Some b" and "mt_parent b = None"
proof -
  from parents_are_bases assms obtain b where "b \<in> set ALL_DEFS" "mt_id b = p" "mt_parent b = None"
    by (auto simp: list_all_iff list_ex_iff split: option.splits)
  then show thesis using lookup_member that by blast
qed

lemma tactic_heads_tactics:
  "list_all (\<lambda>t. mt_tactics t \<noteq> [] \<and> hd (mt_tactics t) = mt_tactic t) ALL_DEFS"
  by (simp add: ALL_DEFS_def technique_defs)

text \<open>
  The taxonomy resolves: lookup is a function of the identifier up to ASCII case that finds
  every table entry under its own identifier, and the base technique of any known identifier exists
  and is itself no sub-technique, so coverage is never attributed to a dangling parent.
\<close>
theorem taxonomy_resolves:
  "(t \<in> set ALL_DEFS \<longleftrightarrow> lookup_technique (mt_id t) = Some t)
   \<and> (is_known_id tid \<longleftrightarrow> (\<exists>b. base_technique tid = Some b \<and> \<not> is_subtechnique b))
   \<and> lookup_technique (to_ascii_uppercase (to_ascii_lowercase tid)) = lookup_technique tid"
proof (intro conjI)
  show "t \<in> set ALL_DEFS \<longleftrightarrow> lookup_technique (mt_id t) = Some t"
    using lookup_member lookup_SomeD by blast
  show "is_known_id tid \<longleftrightarrow> (\<exists>b. base_technique tid = Some b \<and> \<not> is_subtechnique b)"
  proof (cases "lookup_technique tid")
    case None
    then show ?thesis by (simp add: is_known_id_def base_technique_def)
  next
    case (Some t)
    then have "t \<in> set ALL_DEFS" using lookup_SomeD by blast
    with Some show ?thesis
      by (cases "mt_parent t")
        (auto simp: is_known_id_def base_technique_def is_subtechnique_def elim: lookup_parent)
  qed
  have "eq_ignore_ascii_case (to_ascii_uppercase (to_ascii_lowercase tid)) tid"
    by (simp add: eq_ignore_ascii_case_def to_ascii_lowercase_def to_ascii_uppercase_def)
  then show "lookup_technique (to_ascii_uppercase (to_ascii_lowercase tid)) = lookup_technique tid"
    by (rule lookup_cong)
qed

section \<open>Fidelity\<close>

datatype fidelity = Unspecified | MarkerOnly | Behavioral

datatype coverage_class = IndicatorOnly | BehavioralSignal

fun fidelity_rank :: "fidelity \<Rightarrow> nat" where
  "fidelity_rank Unspecified = 0"
| "fidelity_rank MarkerOnly = 1"
| "fidelity_rank Behavioral = 2"

text \<open>The derived \<open>Ord\<close>: the declaration order.\<close>

instantiation fidelity :: linorder
begin

definition less_eq_fidelity :: "fidelity \<Rightarrow> fidelity \<Rightarrow> bool" where
  "less_eq_fidelity a b \<longleftrightarrow> fidelity_rank a \<le> fidelity_rank b"

definition less_fidelity :: "fidelity \<Rightarrow> fidelity \<Rightarrow> bool" where
  "less_fidelity a b \<longleftrightarrow> fidelity_rank a < fidelity_rank b"

instance
proof
  fix a b c :: fidelity
  show "a < b \<longleftrightarrow> a \<le> b \<and> \<not> b \<le> a" by (auto simp: less_eq_fidelity_def less_fidelity_def)
  show "a \<le> a" by (simp add: less_eq_fidelity_def)
  show "a \<le> b \<Longrightarrow> b \<le> c \<Longrightarrow> a \<le> c" by (simp add: less_eq_fidelity_def)
  show "a \<le> b \<Longrightarrow> b \<le> a \<Longrightarrow> a = b" by (cases a; cases b) (simp_all add: less_eq_fidelity_def)
  show "a \<le> b \<or> b \<le> a" by (auto simp: less_eq_fidelity_def)
qed

end

definition fidelity_parse :: "string \<Rightarrow> fidelity option" where
  "fidelity_parse s =
     (let t = to_ascii_lowercase (trim s) in
      if t = ''unspecified'' then Some Unspecified
      else if t = ''marker_only'' \<or> t = ''marker-only'' \<or> t = ''markeronly'' then Some MarkerOnly
      else if t = ''behavioral'' \<or> t = ''behavioural'' then Some Behavioral
      else None)"

fun fidelity_as_str :: "fidelity \<Rightarrow> string" where
  "fidelity_as_str Unspecified = ''unspecified''"
| "fidelity_as_str MarkerOnly = ''marker_only''"
| "fidelity_as_str Behavioral = ''behavioral''"

fun coverage_of :: "fidelity \<Rightarrow> coverage_class" where
  "coverage_of Unspecified = IndicatorOnly"
| "coverage_of MarkerOnly = IndicatorOnly"
| "coverage_of Behavioral = BehavioralSignal"

definition claims_behavioral :: "fidelity \<Rightarrow> bool" where
  "claims_behavioral f \<longleftrightarrow> coverage_of f = BehavioralSignal"

definition permits_prevention_claim :: "fidelity \<Rightarrow> bool" where
  "permits_prevention_claim f \<longleftrightarrow> claims_behavioral f"

record technique_ref =
  tr_technique_id :: string
  tr_fidelity :: fidelity

lemma fidelity_least [simp]: "Unspecified \<le> f"
  by (simp add: less_eq_fidelity_def)

lemma fidelity_le_Unspecified [simp]: "f \<le> Unspecified \<longleftrightarrow> f = Unspecified"
  by (cases f) (simp_all add: less_eq_fidelity_def)

lemma claims_behavioral_iff [simp]: "claims_behavioral f \<longleftrightarrow> f = Behavioral"
  by (cases f) (simp_all add: claims_behavioral_def)

lemma not_behavioral: "f \<le> MarkerOnly \<longleftrightarrow> \<not> claims_behavioral f"
  by (cases f) (simp_all add: less_eq_fidelity_def)

end
