(* ===== verification/Json.thy ===== *)
theory Json
  imports Interfaces "HOL-Library.List_Lexorder" "HOL-Library.Char_ord"
begin

text \<open>
  \<open>serde_json::Value\<close> as the components use it, and \<open>BTreeMap\<close> (the representation of its
  objects): an association list sorted by key, with insertion, removal and lookup. The map is the
  first provider of the \<open>keyed_store\<close> contract.

  A JSON number is kept as serde_json keeps it: a non-negative integer, a negative integer, or the
  bits of a finite double.
\<close>

section \<open>\<open>BTreeMap\<close>\<close>

fun bt_insert :: "'k::linorder \<Rightarrow> 'v \<Rightarrow> ('k \<times> 'v) list \<Rightarrow> ('k \<times> 'v) list" where
  "bt_insert k v [] = [(k, v)]"
| "bt_insert k v ((k', v') # m) =
     (if k < k' then (k, v) # (k', v') # m
      else if k = k' then (k, v) # m
      else (k', v') # bt_insert k v m)"

definition bt_remove :: "'k \<Rightarrow> ('k \<times> 'v) list \<Rightarrow> ('k \<times> 'v) list" where
  "bt_remove k m = filter (\<lambda>e. fst e \<noteq> k) m"

definition bt_inv :: "('k::linorder \<times> 'v) list \<Rightarrow> bool" where
  "bt_inv m \<longleftrightarrow> sorted_wrt (<) (map fst m)"

lemma bt_inv_Nil [simp]: "bt_inv []"
  by (simp add: bt_inv_def)

lemma bt_insert_keys [simp]: "set (map fst (bt_insert k v m)) = insert k (set (map fst m))"
  by (induction k v m rule: bt_insert.induct) auto

lemma bt_inv_insert: "bt_inv m \<Longrightarrow> bt_inv (bt_insert k v m)"
proof (induction k v m rule: bt_insert.induct)
  case (1 k v)
  then show ?case by (simp add: bt_inv_def)
next
  case (2 k v k' v' m)
  then show ?case
    using bt_insert_keys [of k v m] by (auto simp: bt_inv_def)
qed

lemma bt_inv_remove: "bt_inv m \<Longrightarrow> bt_inv (bt_remove k m)"
  unfolding bt_inv_def bt_remove_def by (induction m) auto

lemma map_of_bt_insert:
  "bt_inv m \<Longrightarrow> map_of (bt_insert k v m) = (map_of m)(k \<mapsto> v)"
proof (induction k v m rule: bt_insert.induct)
  case (1 k v)
  then show ?case by simp
next
  case (2 k v k' v' m)
  then show ?case by (auto simp: bt_inv_def fun_eq_iff)
qed

lemma map_of_bt_remove: "map_of (bt_remove k m) = (map_of m)(k := None)"
  unfolding bt_remove_def by (induction m) (auto simp: fun_eq_iff)

lemma bt_inv_distinct: "bt_inv m \<Longrightarrow> distinct (map fst m)"
  unfolding bt_inv_def by (induction m) auto

lemma map_of_keys: "distinct (map fst m) \<Longrightarrow> m = map (\<lambda>k. (k, the (map_of m k))) (map fst m)"
proof (induction m)
  case (Cons e m)
  obtain k v where e: "e = (k, v)" by (cases e)
  with Cons.prems have "k \<notin> set (map fst m)" by simp
  then have "map (\<lambda>x. (x, the (map_of (e # m) x))) (map fst m) = map (\<lambda>x. (x, the (map_of m x))) (map fst m)"
    by (auto simp: e)
  with Cons e show ?case by simp
qed simp

lemma bt_ext:
  assumes "bt_inv m" and "bt_inv n" and "map_of m = map_of n"
  shows "m = n"
proof -
  have "set (map fst m) = dom (map_of m)" "set (map fst n) = dom (map_of n)"
    by (simp_all add: dom_map_of_conv_image_fst)
  then have "map fst m = map fst n"
    using assms
    by (intro sorted_distinct_set_unique)
      (auto simp: bt_inv_distinct bt_inv_def strict_sorted_imp_sorted)
  then show ?thesis
    using map_of_keys [OF bt_inv_distinct [OF assms(1)]] map_of_keys [OF bt_inv_distinct [OF assms(2)]] assms(3)
    by metis
qed

definition bt_entry :: "('k \<times> 'v) list \<Rightarrow> 'k \<Rightarrow> ('k \<times> 'v) option" where
  "bt_entry m k = map_option (Pair k) (map_of m k)"

interpretation btree: keyed_store bt_entry "\<lambda>(k, v). bt_insert k v" bt_remove fst "(=)" bt_inv
  by unfold_locales
    (auto simp: bt_inv_insert bt_inv_remove bt_entry_def map_of_bt_insert map_of_bt_remove)

section \<open>Values\<close>

datatype json_number = PosInt nat | NegInt int | Float64 "64 word"

datatype json = JNull | JBool bool | JNum json_number | JStr string
  | JArr "json list" | JObj "(string \<times> json) list"

fun as_u64 :: "json \<Rightarrow> nat option" where
  "as_u64 (JNum (PosInt n)) = Some n"
| "as_u64 _ = None"

fun as_str :: "json \<Rightarrow> string option" where
  "as_str (JStr s) = Some s"
| "as_str _ = None"

fun as_array :: "json \<Rightarrow> json list option" where
  "as_array (JArr xs) = Some xs"
| "as_array _ = None"

fun as_object :: "json \<Rightarrow> (string \<times> json) list option" where
  "as_object (JObj m) = Some m"
| "as_object _ = None"

definition json_get :: "json \<Rightarrow> string \<Rightarrow> json option" where
  "json_get v k = (case as_object v of None \<Rightarrow> None | Some m \<Rightarrow> map_of m k)"

text \<open>\<open>Number::from_f64\<close> refuses infinities and NaNs: an exponent field of all ones.\<close>

definition f64_is_finite :: "64 word \<Rightarrow> bool" where
  "f64_is_finite w \<longleftrightarrow> drop_bit 52 w AND 0x7FF \<noteq> 0x7FF"

end
