(* ===== verification/Manifest.thy ===== *)
theory Manifest
  imports Scope Taxonomy Json
begin

text \<open>
  \<open>crates/asmodeus-dsl/src/manifest.rs\<close> and \<open>execution.rs\<close>: the scenario manifest, its
  validation against INV-0 and the budgets, the fidelity it may claim, and the bounded execution
  plan compiled from it. The action parameters are a \<open>HashMap\<close> in the source: here a list of
  pairs in the map's iteration order (which the error message may depend on), looked up with
  \<open>map_of\<close>.
\<close>

section \<open>The manifest\<close>

definition API_VERSION_V1ALPHA1 :: string where
  "API_VERSION_V1ALPHA1 = ''asmodeus.io/v1alpha1''"

definition API_VERSION_V1ALPHA2 :: string where
  "API_VERSION_V1ALPHA2 = ''asmodeus.io/v1alpha2''"

definition SUPPORTED_API_VERSIONS :: "string list" where
  "SUPPORTED_API_VERSIONS = [API_VERSION_V1ALPHA1, API_VERSION_V1ALPHA2]"

datatype manifest_kind = AttackScenario | ChaosExperiment

record manifest_metadata =
  md_id :: string
  md_name :: string
  md_category :: category
  md_mitre_technique :: "string option"
  md_mitre_tactic :: "string option"
  md_fidelity :: "string option"
  md_mitre_techniques :: "technique_ref list option"
  md_severity :: string
  md_description :: "string option"

record target_scope =
  ts_target_type :: string
  ts_selector :: "(string \<times> string) list option"
  ts_target_path :: "string option"
  ts_target_cidr :: "string option"

record safety_spec =
  sf_max_duration_sec :: nat
  sf_cpu_limit_percent :: nat
  sf_canary_directory_only :: "string option"
  sf_circuit_breaker :: bool

definition default_safety :: safety_spec where
  "default_safety = \<lparr>sf_max_duration_sec = 60, sf_cpu_limit_percent = 25,
     sf_canary_directory_only = None, sf_circuit_breaker = True\<rparr>"

record action_spec =
  ac_nature :: action_nature
  ac_type :: string
  ac_parameters :: "(string \<times> json) list"

record expected_outcome =
  eo_detector :: string
  eo_expected_mttd_max_ms :: "nat option"
  eo_expected_containment :: "string option"

record manifest_spec =
  sp_author :: "string option"
  sp_target_scope :: "target_scope option"
  sp_safety :: safety_spec
  sp_action :: action_spec
  sp_expected_outcome :: expected_outcome

record scenario_manifest =
  mf_api_version :: string
  mf_kind :: manifest_kind
  mf_metadata :: manifest_metadata
  mf_spec :: manifest_spec

definition is_legacy :: "scenario_manifest \<Rightarrow> bool" where
  "is_legacy m \<longleftrightarrow> mf_api_version m = API_VERSION_V1ALPHA1"

abbreviation mf_action_type :: "scenario_manifest \<Rightarrow> string" where
  "mf_action_type m \<equiv> ac_type (sp_action (mf_spec m))"

definition implemented_fidelity :: "string \<Rightarrow> fidelity" where
  "implemented_fidelity ty =
     (if ty = ''synthetic_canary_encrypt'' \<or> ty = ''latency_spike'' then Behavioral else MarkerOnly)"

definition effective_fidelity :: "scenario_manifest \<Rightarrow> fidelity" where
  "effective_fidelity m =
     (if is_legacy m then Unspecified
      else (let declared = (case Option.bind (md_fidelity (mf_metadata m)) fidelity_parse of
                              None \<Rightarrow> Unspecified | Some f \<Rightarrow> f)
            in min declared (implemented_fidelity (mf_action_type m))))"

definition primary_technique :: "scenario_manifest \<Rightarrow> mitre_technique option" where
  "primary_technique m =
     (let first_ref = Option.bind (md_mitre_techniques (mf_metadata m))
            (\<lambda>refs. case refs of [] \<Rightarrow> None | r # _ \<Rightarrow> Some (tr_technique_id r));
          tid = (case first_ref of None \<Rightarrow> md_mitre_technique (mf_metadata m) | Some i \<Rightarrow> Some i)
      in Option.bind tid lookup_technique)"

definition technique_fidelity :: "scenario_manifest \<Rightarrow> string \<Rightarrow> fidelity \<Rightarrow> fidelity" where
  "technique_fidelity m tid ceiling =
     (if mf_action_type m = ''synthetic_canary_encrypt'' \<and> eq_ignore_ascii_case tid ''T1486''
      then ceiling else min ceiling MarkerOnly)"

definition resolved_technique_refs :: "scenario_manifest \<Rightarrow> technique_ref list" where
  "resolved_technique_refs m =
     (let ceiling = effective_fidelity m in
      case md_mitre_techniques (mf_metadata m) of
        Some refs \<Rightarrow>
          map (\<lambda>r. \<lparr>tr_technique_id = tr_technique_id r,
                     tr_fidelity = min (tr_fidelity r) (technique_fidelity m (tr_technique_id r) ceiling)\<rparr>) refs
      | None \<Rightarrow>
          (case md_mitre_technique (mf_metadata m) of
             Some tid \<Rightarrow> [\<lparr>tr_technique_id = tid, tr_fidelity = technique_fidelity m tid ceiling\<rparr>]
           | None \<Rightarrow> []))"

datatype manifest_error =
    InvalidApiVersion string
  | ManifestNotSynthetic
  | InvalidCanaryPath string
  | InvalidNetworkTarget string
  | CpuLimitExceeded nat
  | DurationLimitExceeded nat
  | UnknownMitreTechnique string
  | InvalidFidelity string
  | InvalidMitreMapping
  | BudgetLimitExceeded string
  | ParseError string

section \<open>The execution plan\<close>

datatype action = SyntheticCanaryEncrypt | K8sEscapeProbe | C2Beacon | CredentialCanary
  | LogTamperCanary | PersistenceCanary | ExfiltrationCanary | WatchdogProbe | LatencySpike

record execution_plan =
  pl_action :: action
  pl_target_dir :: string
  pl_file_count :: nat
  pl_chunk_size_kb :: nat
  pl_io_rate_per_sec :: nat
  pl_duration_ms :: nat
  pl_max_duration_sec :: nat
  pl_cpu_limit_percent :: nat
  pl_target_cidr :: string
  pl_iface :: string
  pl_latency_ms :: nat
  pl_jitter_ms :: nat
  pl_loss_percent :: nat

definition action_for_scenario :: "string \<Rightarrow> string" where
  "action_for_scenario sid =
     (if sid = ''RANSOMWARE_CANARY_SPIKE'' then ''synthetic_canary_encrypt''
      else if sid = ''K8S_ESCAPE_SIMULATION'' then ''k8s_escape_probe''
      else if sid = ''C2_BEACONING_SIMULATION'' then ''c2_beacon''
      else if sid = ''CREDENTIAL_ACCESS_CANARY'' then ''credential_canary''
      else if sid = ''LOG_TAMPER_CANARY'' then ''log_tamper_canary''
      else if sid = ''PERSISTENCE_CRON_CANARY'' then ''persistence_canary''
      else if sid = ''DATA_EXFILTRATION_CANARY'' then ''exfiltration_canary''
      else if sid = ''DEFENSE_IMPAIRMENT_CANARY'' \<or> sid = ''AGENT_CRASH_ENDPOINT'' then ''watchdog_probe''
      else if sid = ''LATENCY_SPIKE_VM'' \<or> sid = ''DNS_RPZ_SINKHOLE_DROP'' then ''latency_spike''
      else ''unsupported'')"

text \<open>The wire names of the actions (\<open>rename_all = "snake_case"\<close>).\<close>

fun action_name :: "action \<Rightarrow> string" where
  "action_name SyntheticCanaryEncrypt = ''synthetic_canary_encrypt''"
| "action_name K8sEscapeProbe = ''k8s_escape_probe''"
| "action_name C2Beacon = ''c2_beacon''"
| "action_name CredentialCanary = ''credential_canary''"
| "action_name LogTamperCanary = ''log_tamper_canary''"
| "action_name PersistenceCanary = ''persistence_canary''"
| "action_name ExfiltrationCanary = ''exfiltration_canary''"
| "action_name WatchdogProbe = ''watchdog_probe''"
| "action_name LatencySpike = ''latency_spike''"

definition all_actions :: "action list" where
  "all_actions = [SyntheticCanaryEncrypt, K8sEscapeProbe, C2Beacon, CredentialCanary,
     LogTamperCanary, PersistenceCanary, ExfiltrationCanary, WatchdogProbe, LatencySpike]"

definition action_from_name :: "string \<Rightarrow> action option" where
  "action_from_name s = find (\<lambda>a. action_name a = s) all_actions"

definition parameter_allowed :: "action \<Rightarrow> string \<Rightarrow> bool" where
  "parameter_allowed act name \<longleftrightarrow>
     name = ''duration_ms'' \<or>
     (case act of
        SyntheticCanaryEncrypt \<Rightarrow>
          name \<in> set [''file_count'', ''chunk_size_kb'', ''io_rate_per_sec'']
      | C2Beacon \<Rightarrow> name = ''file_count''
      | ExfiltrationCanary \<Rightarrow> name = ''chunk_size_kb''
      | LatencySpike \<Rightarrow>
          name \<in> set [''latency_ms'', ''jitter_ms'', ''loss_percent'', ''iface'']
      | _ \<Rightarrow> False)"

abbreviation invalid :: "string \<Rightarrow> manifest_error" where
  "invalid \<equiv> BudgetLimitExceeded"

text \<open>The closure \<open>number\<close>: a bounded integer parameter with a default.\<close>

definition number ::
  "(string \<times> json) list \<Rightarrow> string \<Rightarrow> nat \<Rightarrow> nat \<Rightarrow> nat \<Rightarrow> manifest_error + nat" where
  "number parameters name dflt lo hi =
     (case map_of parameters name of
        None \<Rightarrow> Inr dflt
      | Some v \<Rightarrow>
          (case as_u64 v of
             Some n \<Rightarrow>
               (if n \<ge> lo \<and> n \<le> hi then Inr n
                else Inl (invalid (name @ '' must be an integer in '' @ show_nat lo @ ''..='' @ show_nat hi)))
           | None \<Rightarrow> Inl (invalid (name @ '' must be an integer in '' @ show_nat lo @ ''..='' @ show_nat hi))))"

text \<open>\<open>std::path\<close>: the components of a Unix path, and the component-wise \<open>starts_with\<close>.\<close>

definition path_components :: "string \<Rightarrow> string list" where
  "path_components s =
     (let cs = split_on CHR ''/'' s in
      (if starts_with s ''/'' then [''/''] else if hd cs = ''.'' then [''.''] else [])
      @ filter (\<lambda>c. c \<noteq> [] \<and> c \<noteq> ''.'') cs)"

definition path_starts_with :: "string \<Rightarrow> string \<Rightarrow> bool" where
  "path_starts_with p base \<longleftrightarrow> prefix (path_components base) (path_components p)"

definition plan_target_dir :: "scenario_manifest \<Rightarrow> string" where
  "plan_target_dir m =
     (case Option.bind (sp_target_scope (mf_spec m)) ts_target_path of
        Some p \<Rightarrow> p
      | None \<Rightarrow> (case sf_canary_directory_only (sp_safety (mf_spec m)) of
                   Some d \<Rightarrow> d | None \<Rightarrow> ''/tmp/asmodeus-canary''))"

definition plan_iface :: "(string \<times> json) list \<Rightarrow> manifest_error + string" where
  "plan_iface parameters =
     (case map_of parameters ''iface'' of
        Some (JStr s) \<Rightarrow>
          (if s \<noteq> [] \<and> length s \<le> 15 then Inr s
           else Inl (invalid ''iface must be a nonempty string of at most 15 bytes''))
      | Some _ \<Rightarrow> Inl (invalid ''iface must be a nonempty string of at most 15 bytes'')
      | None \<Rightarrow> Inr ''lo'')"

definition from_manifest :: "scenario_manifest \<Rightarrow> manifest_error + execution_plan" where
  "from_manifest m =
    (let parameters = ac_parameters (sp_action (mf_spec m));
         safety = sp_safety (mf_spec m);
         scope = sp_target_scope (mf_spec m) in
     and_then (ok_or (invalid (''unsupported action type: '' @ mf_action_type m))
                (action_from_name (mf_action_type m))) (\<lambda>act.
     and_then (case find (\<lambda>name. \<not> parameter_allowed act name) (map fst parameters) of
                 None \<Rightarrow> Inr ()
               | Some name \<Rightarrow> Inl (invalid (''unsupported parameter for this action: '' @ name))) (\<lambda>_.
     and_then (reject_if (sf_max_duration_sec safety = 0)
                (invalid ''max_duration_sec must be positive'')) (\<lambda>_.
     and_then (reject_if (sf_cpu_limit_percent safety = 0)
                (invalid ''cpu_limit_percent must be positive'')) (\<lambda>_.
     and_then (reject_if (case Option.bind scope ts_selector of None \<Rightarrow> False | Some s \<Rightarrow> s \<noteq> [])
                (invalid ''target_scope.selector is unsupported; select a registered runner by ID/tag'')) (\<lambda>_.
     and_then (reject_if (\<not> sf_circuit_breaker safety)
                (invalid ''disabling the control-channel lease is unsupported'')) (\<lambda>_.
     let target_dir = plan_target_dir m in
     and_then (reject_if (case sf_canary_directory_only safety of
                            None \<Rightarrow> False | Some d \<Rightarrow> \<not> path_starts_with target_dir d)
                (invalid ''target_path must be inside canary_directory_only'')) (\<lambda>_.
     and_then (number parameters ''file_count'' 20 1 (if act = C2Beacon then 100 else 200)) (\<lambda>file_count.
     and_then (number parameters ''chunk_size_kb'' 64 1 256) (\<lambda>chunk_size_kb.
     and_then (reject_if (file_count * chunk_size_kb > 20 * 1024)
                (invalid ''total canary data exceeds 20 MiB'')) (\<lambda>_.
     and_then (plan_iface parameters) (\<lambda>iface.
     and_then (number parameters ''duration_ms'' 0 0 120000) (\<lambda>duration_ms.
     and_then (reject_if (duration_ms > sat_mul32 (sf_max_duration_sec safety) 1000)
                (invalid ''duration_ms exceeds max_duration_sec'')) (\<lambda>_.
     let target_cidr = (case Option.bind scope ts_target_cidr of Some c \<Rightarrow> c | None \<Rightarrow> ''127.0.0.1/32'') in
     and_then (reject_if (act \<noteq> LatencySpike \<and> Option.bind scope ts_target_cidr \<noteq> None)
                (invalid ''target_cidr is supported only by latency_spike'')) (\<lambda>_.
     and_then (number parameters ''io_rate_per_sec'' 0 1 1000) (\<lambda>io_rate_per_sec.
     and_then (number parameters ''latency_ms'' 100 0 5000) (\<lambda>latency_ms.
     and_then (number parameters ''jitter_ms'' 0 0 1000) (\<lambda>jitter_ms.
     and_then (number parameters ''loss_percent'' 0 0 50) (\<lambda>loss_percent.
     Inr \<lparr>pl_action = act, pl_target_dir = target_dir, pl_file_count = file_count,
          pl_chunk_size_kb = chunk_size_kb, pl_io_rate_per_sec = io_rate_per_sec,
          pl_duration_ms = duration_ms, pl_max_duration_sec = sf_max_duration_sec safety,
          pl_cpu_limit_percent = sf_cpu_limit_percent safety, pl_target_cidr = target_cidr,
          pl_iface = iface, pl_latency_ms = latency_ms, pl_jitter_ms = jitter_ms,
          pl_loss_percent = loss_percent\<rparr>)))))))))))))))))))"

section \<open>Validation\<close>

definition unknown_technique :: "string \<Rightarrow> manifest_error + unit" where
  "unknown_technique tid = reject_if (lookup_technique tid = None) (UnknownMitreTechnique tid)"

fun check_techniques :: "technique_ref list \<Rightarrow> manifest_error + unit" where
  "check_techniques [] = Inr ()"
| "check_techniques (r # rs) =
     and_then (unknown_technique (tr_technique_id r)) (\<lambda>_. check_techniques rs)"

definition check_primary :: "manifest_metadata \<Rightarrow> manifest_error + unit" where
  "check_primary md =
     (case (md_mitre_technique md, md_mitre_techniques md) of
        (Some primary, Some refs) \<Rightarrow>
          reject_if (\<not> (case refs of [] \<Rightarrow> False | r # _ \<Rightarrow> eq_ignore_ascii_case (tr_technique_id r) primary))
            InvalidMitreMapping
      | _ \<Rightarrow> Inr ())"

definition check_opt :: "'a option \<Rightarrow> ('a \<Rightarrow> manifest_error + unit) \<Rightarrow> manifest_error + unit" where
  "check_opt x f = (case x of None \<Rightarrow> Inr () | Some v \<Rightarrow> f v)"

definition check_path :: "string \<Rightarrow> manifest_error + unit" where
  "check_path p = reject_if (\<not> path_in_scope p) (InvalidCanaryPath p)"

definition check_cidr :: "string \<Rightarrow> manifest_error + unit" where
  "check_cidr c = reject_if (\<not> net_target_in_scope c) (InvalidNetworkTarget c)"

definition validate_manifest :: "scenario_manifest \<Rightarrow> manifest_error + unit" where
  "validate_manifest m =
    (let md = mf_metadata m; safety = sp_safety (mf_spec m); scope = sp_target_scope (mf_spec m) in
     and_then (reject_if (mf_api_version m \<notin> set SUPPORTED_API_VERSIONS)
                (InvalidApiVersion (mf_api_version m))) (\<lambda>_.
     and_then (reject_if (\<not> is_permitted (ac_nature (sp_action (mf_spec m)))) ManifestNotSynthetic) (\<lambda>_.
     and_then (reject_if (sf_max_duration_sec safety > 300)
                (DurationLimitExceeded (sf_max_duration_sec safety))) (\<lambda>_.
     and_then (reject_if (sf_cpu_limit_percent safety > 85)
                (CpuLimitExceeded (sf_cpu_limit_percent safety))) (\<lambda>_.
     and_then (check_opt (sf_canary_directory_only safety) check_path) (\<lambda>_.
     and_then (check_opt (Option.bind scope ts_target_path) check_path) (\<lambda>_.
     and_then (check_opt (Option.bind scope ts_target_cidr) check_cidr) (\<lambda>_.
     and_then (check_opt (md_mitre_technique md) unknown_technique) (\<lambda>_.
     and_then (check_opt (md_mitre_techniques md) check_techniques) (\<lambda>_.
     and_then (check_primary md) (\<lambda>_.
     and_then (check_opt (md_fidelity md)
                (\<lambda>f. reject_if (fidelity_parse f = None) (InvalidFidelity f))) (\<lambda>_.
     and_then (from_manifest m) (\<lambda>_. Inr ())))))))))))))"

end
