(* ===== verification/Manifest_Safety.thy ===== *)
theory Manifest_Safety
  imports Manifest
begin

text \<open>
  What validation guarantees of a manifest: the bounds of the compiled plan, INV-0 and the scope of
  its targets, and the ceiling of the coverage its technique references may claim. The first lemmas
  turn the validators into conjunctions; \<open>example_manifest\<close> is a manifest that passes.
\<close>

section \<open>Bounds of an accepted plan\<close>

lemma number_Inr:
  "number ps name d lo hi = Inr n \<longleftrightarrow>
     (case map_of ps name of None \<Rightarrow> n = d
      | Some v \<Rightarrow> as_u64 v = Some n \<and> lo \<le> n \<and> n \<le> hi)"
  by (auto simp: number_def split: option.splits)

lemma number_bounds:
  "number ps name d lo hi = Inr n \<Longrightarrow> d \<le> hi \<Longrightarrow> n \<le> hi"
  by (auto simp: number_Inr split: option.splits)

lemma number_lower:
  "number ps name d lo hi = Inr n \<Longrightarrow> lo \<le> d \<Longrightarrow> lo \<le> n"
  by (auto simp: number_Inr split: option.splits)

lemma check_opt_Inr [simp]: "check_opt x f = Inr u \<longleftrightarrow> (\<forall>v. x = Some v \<longrightarrow> f v = Inr ())"
  by (cases x) (simp_all add: check_opt_def)

lemma check_techniques_Inr [simp]:
  "check_techniques rs = Inr u \<longleftrightarrow> (\<forall>r \<in> set rs. is_known_id (tr_technique_id r))"
  by (induction rs) (auto simp: unknown_technique_def is_known_id_def)

lemma unknown_technique_Inr [simp]: "unknown_technique t = Inr u \<longleftrightarrow> is_known_id t"
  by (simp add: unknown_technique_def is_known_id_def)

lemma check_path_Inr [simp]: "check_path p = Inr u \<longleftrightarrow> path_in_scope p"
  by (simp add: check_path_def)

lemma check_cidr_Inr [simp]: "check_cidr c = Inr u \<longleftrightarrow> net_target_in_scope c"
  by (simp add: check_cidr_def)

lemma action_from_name_Some: "action_from_name s = Some a \<longleftrightarrow> s = action_name a"
proof
  assume "action_from_name s = Some a"
  then show "s = action_name a"
    unfolding action_from_name_def by (auto dest: find_SomeD)
next
  assume "s = action_name a"
  then show "action_from_name s = Some a"
    by (cases a) (simp_all add: action_from_name_def all_actions_def)
qed

lemma from_manifest_Inr:
  "from_manifest m = Inr p \<longleftrightarrow>
    (let ps = ac_parameters (sp_action (mf_spec m)); safety = sp_safety (mf_spec m);
         scope = sp_target_scope (mf_spec m) in
     mf_action_type m = action_name (pl_action p)
     \<and> (\<forall>name \<in> fst ` set ps. parameter_allowed (pl_action p) name)
     \<and> 0 < sf_max_duration_sec safety \<and> 0 < sf_cpu_limit_percent safety
     \<and> (\<forall>s. Option.bind scope ts_selector = Some s \<longrightarrow> s = [])
     \<and> sf_circuit_breaker safety
     \<and> pl_target_dir p = plan_target_dir m
     \<and> (\<forall>d. sf_canary_directory_only safety = Some d \<longrightarrow> path_starts_with (plan_target_dir m) d)
     \<and> number ps ''file_count'' 20 1 (if pl_action p = C2Beacon then 100 else 200) = Inr (pl_file_count p)
     \<and> number ps ''chunk_size_kb'' 64 1 256 = Inr (pl_chunk_size_kb p)
     \<and> pl_file_count p * pl_chunk_size_kb p \<le> 20480
     \<and> plan_iface ps = Inr (pl_iface p)
     \<and> number ps ''duration_ms'' 0 0 120000 = Inr (pl_duration_ms p)
     \<and> pl_duration_ms p \<le> sat_mul32 (sf_max_duration_sec safety) 1000
     \<and> pl_target_cidr p = (case Option.bind scope ts_target_cidr of Some c \<Rightarrow> c | None \<Rightarrow> ''127.0.0.1/32'')
     \<and> (pl_action p = LatencySpike \<or> Option.bind scope ts_target_cidr = None)
     \<and> number ps ''io_rate_per_sec'' 0 1 1000 = Inr (pl_io_rate_per_sec p)
     \<and> number ps ''latency_ms'' 100 0 5000 = Inr (pl_latency_ms p)
     \<and> number ps ''jitter_ms'' 0 0 1000 = Inr (pl_jitter_ms p)
     \<and> number ps ''loss_percent'' 0 0 50 = Inr (pl_loss_percent p)
     \<and> pl_max_duration_sec p = sf_max_duration_sec safety
     \<and> pl_cpu_limit_percent p = sf_cpu_limit_percent safety)"
proof -
  have names: "(case find (\<lambda>name. \<not> parameter_allowed a name) xs of
        None \<Rightarrow> Inr () | Some name \<Rightarrow> Inl (f name)) = Inr u
      \<longleftrightarrow> (\<forall>name \<in> set xs. parameter_allowed a name)" for a xs f u
    by (induction xs) auto
  show ?thesis
    unfolding from_manifest_def Let_def and_then_Inr ok_or_Inr reject_if_Inr names action_from_name_Some
    by (cases p) (auto simp: not_less split: option.splits)
qed

lemma plan_iface_Inr:
  "plan_iface ps = Inr i \<Longrightarrow> 0 < length i \<and> length i \<le> 15"
  by (auto simp: plan_iface_def split: option.splits json.splits if_splits)

text \<open>
  Every execution plan the compiler produces stays inside the blast-radius budget: at most 200
  files (100 beacon events) of at most 256 KiB and 20 MiB in total, at most 1,000 operations per
  second, a duration of at most two minutes that fits the declared limit, an interface name the
  kernel accepts, latency, jitter and loss inside their ranges (so the narrowing of the loss to a
  byte is exact); an action that is not a network action keeps the loopback target.
\<close>
theorem from_manifest_bounds:
  assumes "from_manifest m = Inr p"
  shows "1 \<le> pl_file_count p \<and> pl_file_count p \<le> (if pl_action p = C2Beacon then 100 else 200)
    \<and> 1 \<le> pl_chunk_size_kb p \<and> pl_chunk_size_kb p \<le> 256
    \<and> pl_file_count p * pl_chunk_size_kb p * 1024 \<le> 20 * 1024 * 1024
    \<and> pl_io_rate_per_sec p \<le> 1000
    \<and> pl_duration_ms p \<le> 120000 \<and> pl_duration_ms p \<le> 1000 * pl_max_duration_sec p
    \<and> 0 < pl_max_duration_sec p \<and> 0 < pl_cpu_limit_percent p
    \<and> 0 < length (pl_iface p) \<and> length (pl_iface p) \<le> 15
    \<and> pl_latency_ms p \<le> 5000 \<and> pl_jitter_ms p \<le> 1000 \<and> pl_loss_percent p \<le> 50
    \<and> (pl_action p \<noteq> LatencySpike \<longrightarrow> pl_target_cidr p = ''127.0.0.1/32'')"
  using assms
  by (auto simp: from_manifest_Inr Let_def sat_mul32_def mult.commute
      dest: number_bounds number_lower plan_iface_Inr split: if_splits)

definition example_manifest :: scenario_manifest where
  "example_manifest =
     \<lparr>mf_api_version = ''asmodeus.io/v1alpha2'', mf_kind = AttackScenario,
      mf_metadata = \<lparr>md_id = ''S'', md_name = ''S'', md_category = CatRedTeam,
        md_mitre_technique = Some ''T1486'', md_mitre_tactic = None, md_fidelity = Some ''behavioral'',
        md_mitre_techniques = None, md_severity = ''medium'', md_description = None\<rparr>,
      mf_spec = \<lparr>sp_author = None,
        sp_target_scope = Some \<lparr>ts_target_type = [], ts_selector = None,
          ts_target_path = Some ''/tmp/asmodeus-canary/run'', ts_target_cidr = None\<rparr>,
        sp_safety = default_safety\<lparr>sf_canary_directory_only := Some ''/tmp/asmodeus-canary/''\<rparr>,
        sp_action = \<lparr>ac_nature = Synthetic, ac_type = ''synthetic_canary_encrypt'',
          ac_parameters = [(''file_count'', JNum (PosInt 12)), (''duration_ms'', JNum (PosInt 5000))]\<rparr>,
        sp_expected_outcome = \<lparr>eo_detector = [], eo_expected_mttd_max_ms = None,
          eo_expected_containment = None\<rparr>\<rparr>\<rparr>"

lemma example_plan:
  "from_manifest example_manifest =
     Inr \<lparr>pl_action = SyntheticCanaryEncrypt, pl_target_dir = ''/tmp/asmodeus-canary/run'',
       pl_file_count = 12, pl_chunk_size_kb = 64, pl_io_rate_per_sec = 0, pl_duration_ms = 5000,
       pl_max_duration_sec = 60, pl_cpu_limit_percent = 25, pl_target_cidr = ''127.0.0.1/32'',
       pl_iface = ''lo'', pl_latency_ms = 100, pl_jitter_ms = 0, pl_loss_percent = 0\<rparr>"
  by (simp add: from_manifest_Inr Let_def example_manifest_def default_safety_def plan_target_dir_def
      path_starts_with_def path_components_def starts_with_def number_Inr plan_iface_def
      parameter_allowed_def sat_mul32_def)

theorem from_manifest_bounds_witness:
  "pl_file_count (projr (from_manifest example_manifest)) \<le> 200"
  using from_manifest_bounds [OF example_plan] by (simp add: example_plan)

section \<open>INV-0\<close>

lemma default_dir_in_scope: "path_in_scope ''/tmp/asmodeus-canary''"
  by (simp add: path_in_scope_def trim_end_slash_def)

lemma plan_dir_in_scope:
  assumes "\<And>d. sf_canary_directory_only (sp_safety (mf_spec m)) = Some d \<Longrightarrow> path_in_scope d"
    and "\<And>p. Option.bind (sp_target_scope (mf_spec m)) ts_target_path = Some p \<Longrightarrow> path_in_scope p"
  shows "path_in_scope (plan_target_dir m)"
  using assms by (auto simp: plan_target_dir_def default_dir_in_scope split: option.splits)

lemma loopback_in_scope: "net_target_in_scope ''127.0.0.1/32''"
  by (simp add: net_target_in_scope_def parse_ipv4_cidr_def from_str_radix_def to_digit_def byte_def
      prefix_mask_def from_be_bytes_def NET_TEST_BLOCKS_def push_bit_eq_mult)

text \<open>A path without parent components resolves to its named components.\<close>

lemma resolve_named:
  "''..'' \<notin> set cs \<Longrightarrow> fold resolve_step cs st = rev (filter (\<lambda>c. c \<noteq> [] \<and> c \<noteq> ''.'') cs) @ st"
  by (induction cs arbitrary: st) (auto simp: resolve_step.simps)

lemma resolve_path_named:
  "''..'' \<notin> set (split_on CHR ''/'' p) \<Longrightarrow>
     resolve_path p = filter (\<lambda>c. c \<noteq> [] \<and> c \<noteq> ''.'') (split_on CHR ''/'' p)"
  by (simp add: resolve_path_def resolve_named)

lemma in_scope_absolute: "path_in_scope p \<Longrightarrow> starts_with p ''/''"
proof (erule in_scope_cases)
  have "list_all (\<lambda>q. starts_with q ''/'') canary_roots"
    by (simp add: canary_roots_def starts_with_def)
  then have root: "q \<in> set canary_roots \<Longrightarrow> starts_with q ''/''" for q by (simp add: list_all_iff)
  then show "p \<in> set canary_roots \<Longrightarrow> starts_with p ''/''" .
  show "q \<in> set canary_roots \<Longrightarrow> p = q @ CHR ''/'' # r \<Longrightarrow> starts_with p ''/''" for q r
    using root [of q] by (auto simp: starts_with_iff)
qed

lemma path_starts_with_resolve:
  assumes "path_in_scope p" and "path_in_scope d" and "path_starts_with p d"
  shows "prefix (resolve_path d) (resolve_path p)"
proof -
  have "path_components x = ''/'' # resolve_path x" if "path_in_scope x" for x
    using that in_scope_absolute [OF that]
    by (simp add: path_components_def Let_def resolve_path_named path_in_scope_iff)
  with assms show ?thesis by (simp add: path_starts_with_def)
qed

text \<open>
  C1: A manifest that validates satisfies INV-0 and compiles to a plan that does: the action is
  synthetic, it runs at most 300 s under a CPU limit of at most 85 %, its directory is inside the
  canary sandbox and, resolved, below the directory the manifest itself confines it to, its network
  target is inside the reserved test blocks, and every technique it references resolves in the
  pinned taxonomy.
\<close>
theorem validated_manifest_inv0:
  assumes "validate_manifest m = Inr ()"
  shows "ac_nature (sp_action (mf_spec m)) = Synthetic
    \<and> (\<exists>p. from_manifest m = Inr p
         \<and> 0 < pl_max_duration_sec p \<and> pl_max_duration_sec p \<le> 300
         \<and> 0 < pl_cpu_limit_percent p \<and> pl_cpu_limit_percent p \<le> 85
         \<and> path_in_scope (pl_target_dir p) \<and> net_target_in_scope (pl_target_cidr p)
         \<and> (\<forall>d. sf_canary_directory_only (sp_safety (mf_spec m)) = Some d \<longrightarrow>
              prefix (resolve_path d) (resolve_path (pl_target_dir p))))
    \<and> (\<forall>r \<in> set (resolved_technique_refs m). is_known_id (tr_technique_id r))"
proof -
  from assms obtain p where p: "from_manifest m = Inr p"
    by (auto simp: validate_manifest_def Let_def)
  note v = assms [unfolded validate_manifest_def Let_def, simplified]
  have dir: "path_in_scope (pl_target_dir p)"
    using p v by (simp add: from_manifest_Inr Let_def plan_dir_in_scope)
  have cidr: "net_target_in_scope (pl_target_cidr p)"
    using p v by (simp add: from_manifest_Inr Let_def loopback_in_scope split: option.splits)
  have below: "prefix (resolve_path d) (resolve_path (pl_target_dir p))"
    if "sf_canary_directory_only (sp_safety (mf_spec m)) = Some d" for d
    using p v that dir by (intro path_starts_with_resolve) (simp_all add: from_manifest_Inr Let_def)
  have refs: "\<forall>r \<in> set (resolved_technique_refs m). is_known_id (tr_technique_id r)"
    using v by (auto simp: resolved_technique_refs_def Let_def split: option.splits)
  from p v have "0 < pl_max_duration_sec p \<and> pl_max_duration_sec p \<le> 300
      \<and> 0 < pl_cpu_limit_percent p \<and> pl_cpu_limit_percent p \<le> 85"
    by (simp add: from_manifest_Inr Let_def not_less)
  with v p dir cidr below refs show ?thesis by (auto simp: is_permitted_def)
qed

lemma example_validates: "validate_manifest example_manifest = Inr ()"
proof -
  have "path_in_scope ''/tmp/asmodeus-canary/run''" "path_in_scope ''/tmp/asmodeus-canary/''"
    by (simp_all add: path_in_scope_def trim_end_slash_def CANARY_PREFIXES_def starts_with_def)
  moreover have "is_known_id ''T1486''"
    using lookup_member [of T1486_DATA_ENCRYPTED_FOR_IMPACT]
    by (simp add: is_known_id_def ALL_DEFS_def T1486_DATA_ENCRYPTED_FOR_IMPACT_def)
  moreover have "fidelity_parse ''behavioral'' = Some Behavioral"
    by code_simp
  ultimately show ?thesis
    by (simp add: validate_manifest_def Let_def example_plan)
      (simp add: example_manifest_def default_safety_def is_permitted_def check_primary_def
        SUPPORTED_API_VERSIONS_def API_VERSION_V1ALPHA2_def)
qed

theorem validated_manifest_inv0_witness:
  "ac_nature (sp_action (mf_spec example_manifest)) = Synthetic"
  using validated_manifest_inv0 [OF example_validates] by blast

section \<open>Fidelity claims\<close>

lemma behavioral_le [simp]: "Behavioral \<le> f \<longleftrightarrow> f = Behavioral"
  by (cases f) (simp_all add: less_eq_fidelity_def)

lemma effective_behavioral:
  assumes "effective_fidelity m = Behavioral"
  shows "Option.bind (md_fidelity (mf_metadata m)) fidelity_parse = Some Behavioral"
proof -
  let ?d = "case Option.bind (md_fidelity (mf_metadata m)) fidelity_parse of None \<Rightarrow> Unspecified | Some f \<Rightarrow> f"
  have "\<not> is_legacy m" using assms by (auto simp: effective_fidelity_def)
  with assms have "Behavioral \<le> min ?d (implemented_fidelity (mf_action_type m))"
    by (simp add: effective_fidelity_def Let_def)
  then have "?d = Behavioral" by simp
  then show ?thesis by (simp split: option.splits)
qed

lemma technique_fidelity_le: "technique_fidelity m t c \<le> c"
  by (simp add: technique_fidelity_def)

lemma resolved_ref_cases:
  assumes "r \<in> set (resolved_technique_refs m)"
  shows "tr_fidelity r \<le> technique_fidelity m (tr_technique_id r) (effective_fidelity m)"
  using assms by (auto simp: resolved_technique_refs_def Let_def split: option.splits)

text \<open>
  C39: Coverage is never promoted: a technique reference claims behavioural coverage only when the
  manifest is of the current schema, declares behavioural fidelity itself, runs the one action that
  implements it and the technique is T1486; every reference of a legacy manifest stays at the lowest
  trust whatever it declares, and no reference exceeds the manifest's own level.
\<close>
theorem coverage_never_promoted:
  assumes "r \<in> set (resolved_technique_refs m)"
  shows "tr_fidelity r \<le> effective_fidelity m
    \<and> (is_legacy m \<longrightarrow> tr_fidelity r = Unspecified)
    \<and> (permits_prevention_claim (tr_fidelity r) \<longrightarrow>
         \<not> is_legacy m
         \<and> Option.bind (md_fidelity (mf_metadata m)) fidelity_parse = Some Behavioral
         \<and> mf_action_type m = ''synthetic_canary_encrypt''
         \<and> eq_ignore_ascii_case (tr_technique_id r) ''T1486'')"
proof -
  note le = resolved_ref_cases [OF assms]
  have ceil: "tr_fidelity r \<le> effective_fidelity m"
    using le technique_fidelity_le order_trans by blast
  have legacy: "is_legacy m \<Longrightarrow> tr_fidelity r = Unspecified"
    using ceil by (simp add: effective_fidelity_def)
  have "\<not> tr_fidelity r \<le> MarkerOnly" if "permits_prevention_claim (tr_fidelity r)"
    using that by (simp add: permits_prevention_claim_def not_behavioral)
  then have "permits_prevention_claim (tr_fidelity r) \<Longrightarrow>
      mf_action_type m = ''synthetic_canary_encrypt'' \<and> eq_ignore_ascii_case (tr_technique_id r) ''T1486''"
    using le by (auto simp: technique_fidelity_def split: if_splits)
  moreover have "Option.bind (md_fidelity (mf_metadata m)) fidelity_parse = Some Behavioral"
    if "permits_prevention_claim (tr_fidelity r)"
  proof -
    have "tr_fidelity r = Behavioral" using that by (simp add: permits_prevention_claim_def)
    then have "effective_fidelity m = Behavioral"
      using ceil by (cases "effective_fidelity m") (simp_all add: less_eq_fidelity_def)
    then show ?thesis by (rule effective_behavioral)
  qed
  moreover have "permits_prevention_claim (tr_fidelity r) \<Longrightarrow> \<not> is_legacy m"
    using legacy by (auto simp: permits_prevention_claim_def)
  ultimately show ?thesis using ceil legacy by blast
qed

theorem coverage_never_promoted_witness:
  "tr_fidelity (hd (resolved_technique_refs example_manifest)) \<le> effective_fidelity example_manifest"
proof -
  have "hd (resolved_technique_refs example_manifest) \<in> set (resolved_technique_refs example_manifest)"
    by (simp add: resolved_technique_refs_def example_manifest_def Let_def)
  from coverage_never_promoted [OF this] show ?thesis by blast
qed

end
