(* ===== verification/Crypto.thy ===== *)
theory Crypto
  imports Interfaces
begin

text \<open>
  \<open>crates/asmodeus-crypto\<close> and the hexadecimal helpers around it (\<open>telemetry/src/audit.rs\<close>,
  \<open>control-plane/src/state.rs\<close>). The Ed25519 primitives belong to the crate \<open>ed25519_compact\<close>, which
  is not part of the repository: they are the fields of a record \<open>ed25519\<close> that every definition
  takes as an argument. \<open>ed_correct\<close> states what the code relies on, that a signature made with a
  well-formed key verifies under its public key.
\<close>

type_synonym bytes = string

section \<open>Signatures\<close>

record ed25519 =
  ed_sk_ok :: "bytes \<Rightarrow> bool"
  ed_pk_ok :: "bytes \<Rightarrow> bool"
  ed_sig_ok :: "bytes \<Rightarrow> bool"
  ed_sign :: "bytes \<Rightarrow> bytes \<Rightarrow> bytes"
  ed_public :: "bytes \<Rightarrow> bytes"
  ed_check :: "bytes \<Rightarrow> bytes \<Rightarrow> bytes \<Rightarrow> bool"

definition ed_correct :: "ed25519 \<Rightarrow> bool" where
  "ed_correct E \<longleftrightarrow> (\<forall>k m. ed_sk_ok E k \<longrightarrow>
     ed_pk_ok E (ed_public E k) \<and> ed_sig_ok E (ed_sign E m k) \<and> ed_sign E m k \<noteq> []
     \<and> ed_check E m (ed_sign E m k) (ed_public E k))"

datatype sign_error = BadSecretKey

datatype verify_error = BadPublicKey | BadSignature | Mismatch

definition sign_message :: "ed25519 \<Rightarrow> bytes \<Rightarrow> bytes \<Rightarrow> sign_error + bytes" where
  "sign_message E message secret_key =
     (if ed_sk_ok E secret_key then Inr (ed_sign E message secret_key) else Inl BadSecretKey)"

definition public_key_from_secret_key :: "ed25519 \<Rightarrow> bytes \<Rightarrow> sign_error + bytes" where
  "public_key_from_secret_key E secret_key =
     (if ed_sk_ok E secret_key then Inr (ed_public E secret_key) else Inl BadSecretKey)"

definition verify_signed_manifest :: "ed25519 \<Rightarrow> bytes \<Rightarrow> bytes \<Rightarrow> bytes \<Rightarrow> verify_error + unit" where
  "verify_signed_manifest E manifest signature public_key =
     (if \<not> ed_pk_ok E public_key then Inl BadPublicKey
      else if \<not> ed_sig_ok E signature then Inl BadSignature
      else if ed_check E manifest signature public_key then Inr () else Inl Mismatch)"

definition is_valid :: "ed25519 \<Rightarrow> bytes \<Rightarrow> bytes \<Rightarrow> bytes \<Rightarrow> bool" where
  "is_valid E manifest signature public_key \<longleftrightarrow>
     is_ok (verify_signed_manifest E manifest signature public_key)"

lemma is_valid_iff:
  "is_valid E m s p \<longleftrightarrow> ed_pk_ok E p \<and> ed_sig_ok E s \<and> ed_check E m s p"
  by (simp add: is_valid_def verify_signed_manifest_def)

lemma sign_verifies:
  assumes "ed_correct E" and "sign_message E m k = Inr s" and "public_key_from_secret_key E k = Inr p"
  shows "is_valid E m s p \<and> s \<noteq> []"
  using assms
  by (auto simp: sign_message_def public_key_from_secret_key_def is_valid_iff ed_correct_def split: if_splits)

text \<open>A transparent instance that satisfies the law; the witnesses run on it.\<close>

definition toy_ed25519 :: ed25519 where
  "toy_ed25519 = \<lparr>ed_sk_ok = (\<lambda>k. k \<noteq> []), ed_pk_ok = (\<lambda>p. p \<noteq> []), ed_sig_ok = (\<lambda>s. s \<noteq> []),
     ed_sign = (\<lambda>m k. k @ m), ed_public = (\<lambda>k. k), ed_check = (\<lambda>m s p. s = p @ m)\<rparr>"

lemma toy_correct: "ed_correct toy_ed25519"
  by (simp add: ed_correct_def toy_ed25519_def)

section \<open>Hexadecimal\<close>

definition to_hex :: "bytes \<Rightarrow> string" where
  "to_hex b = concat (map (\<lambda>c. show_hex2 (byte c)) b)"

fun hex_pairs :: "string \<Rightarrow> bytes option" where
  "hex_pairs (a # b # r) =
     (case from_str_radix 16 u8_max [a, b] of
        None \<Rightarrow> None
      | Some n \<Rightarrow> (case hex_pairs r of None \<Rightarrow> None | Some bs \<Rightarrow> Some (chr n # bs)))"
| "hex_pairs _ = Some []"

definition from_hex :: "string \<Rightarrow> bytes option" where
  "from_hex hex_str =
     (if \<not> is_ascii hex_str \<or> length hex_str mod 2 \<noteq> 0 then None else hex_pairs hex_str)"

definition read_hex_key :: "nat \<Rightarrow> string option \<Rightarrow> string + bytes" where
  "read_hex_key n file =
     (case file of
        None \<Rightarrow> Inl ''io error''
      | Some text \<Rightarrow>
          (let hex = trim text in
           if \<not> is_ascii hex \<or> length hex \<noteq> n * 2 then Inl ''invalid key length or encoding''
           else (case hex_pairs hex of None \<Rightarrow> Inl ''invalid key encoding'' | Some k \<Rightarrow> Inr k)))"

lemma hex_digit_byte: "d < 16 \<Longrightarrow> byte (hex_digit d) = (if d < 10 then 48 + d else 87 + d)"
  by (simp add: hex_digit_def)

lemma hex_digit_ascii: "d < 16 \<Longrightarrow> byte (hex_digit d) < 128 \<and> hex_digit d \<noteq> CHR ''+''"
proof -
  assume d: "d < 16"
  have "to_digit 16 (CHR ''+'') = None" by (simp add: to_digit_def byte_def)
  with to_digit_hex [OF d] have "hex_digit d \<noteq> CHR ''+''" by auto
  with hex_digit_byte [OF d] d show ?thesis by auto
qed

lemma from_radix_hex2:
  assumes "n < 256"
  shows "from_str_radix 16 u8_max (show_hex2 n) = Some n"
proof -
  have d: "n div 16 < 16" "n mod 16 < 16" using assms by auto
  have "hex_digit (n div 16) \<noteq> CHR ''+''" using hex_digit_ascii d by blast
  with d assms show ?thesis
    by (simp add: from_str_radix_def show_hex2_def)
qed

lemma hex_pairs_to_hex: "hex_pairs (to_hex b) = Some b"
proof (induction b)
  case Nil
  then show ?case by (simp add: to_hex_def)
next
  case (Cons c b)
  have "from_str_radix 16 u8_max (show_hex2 (byte c)) = Some (byte c)" by (rule from_radix_hex2) simp
  with Cons show ?case by (simp add: to_hex_def show_hex2_def)
qed

lemma to_hex_ascii: "is_ascii (to_hex b)"
  by (induction b)
    (use hex_digit_ascii in \<open>auto simp: is_ascii_def to_hex_def show_hex2_def less_mult_imp_div_less\<close>)

lemma length_to_hex: "length (to_hex b) = 2 * length b"
  by (induction b) (simp_all add: to_hex_def show_hex2_def)

lemma to_hex_Nil [simp]: "to_hex b = [] \<longleftrightarrow> b = []"
  using length_to_hex [of b] by auto

lemma from_hex_to_hex: "from_hex (to_hex b) = Some b"
  by (simp add: from_hex_def to_hex_ascii length_to_hex hex_pairs_to_hex)

lemma to_hex_visible: "c \<in> set (to_hex b) \<Longrightarrow> 47 < byte c \<and> byte c < 128"
proof (induction b)
  case Nil
  then show ?case by (simp add: to_hex_def)
next
  case (Cons x b)
  have "byte x div 16 < 16" "byte x mod 16 < 16"
    by (simp_all add: less_mult_imp_div_less)
  with Cons show ?case by (auto simp: to_hex_def show_hex2_def hex_digit_byte)
qed

lemma trim_to_hex: "trim (to_hex b @ [LF]) = to_hex b"
proof (cases b)
  case Nil
  then show ?thesis
    by (simp add: to_hex_def trim_def trim_start.simps ws_len_def byte_def)
next
  case (Cons x r)
  then have "length (to_hex b) \<ge> 2" by (simp add: length_to_hex)
  then obtain a s z where abz: "to_hex b = a # s @ [z]"
    by (metis One_nat_def Suc_1 Suc_le_length_iff append_butlast_last_id length_0_conv not_less_eq_eq
        list.size(3) zero_le)
  have "47 < byte a" "byte a < 128" "47 < byte z" "byte z < 128"
    using to_hex_visible [of a b] to_hex_visible [of z b] by (auto simp: abz)
  then have "trim_start (a # s @ [z, LF]) = a # s @ [z, LF]" "trim (a # s @ [z]) = a # s @ [z]"
    by (auto intro!: trim_start_visible trim_framed)
  then show ?thesis
    using trim_end_lf [of "a # s @ [z]"] trim_start_visible [of a "s @ [z]"] \<open>47 < byte a\<close> \<open>byte a < 128\<close>
    by (simp add: abz trim_def)
qed

lemma from_hex_accepts_sign: "from_hex ''+f'' = Some [chr 15]" "from_hex ''0f'' = Some [chr 15]"
  by (simp_all add: from_hex_def is_ascii_def from_str_radix_def to_digit_def byte_def)

text \<open>
  Hexadecimal encoding loses nothing: decoding the encoding of any byte string returns it, and a
  key file that holds the encoding of a key and a line feed is read back as that key, at the
  length the caller asks for and at no other. The decoder is laxer than the encoder: the radix parser
  takes a plus sign in front of a digit, so \<open>+f\<close> and \<open>0f\<close> are the same byte.
\<close>
theorem hex_roundtrip:
  "from_hex (to_hex b) = Some b
   \<and> read_hex_key n (Some (to_hex b @ [LF])) =
       (if n = length b then Inr b else Inl ''invalid key length or encoding'')
   \<and> from_hex ''+f'' = from_hex ''0f''"
  using from_hex_accepts_sign
  by (simp add: from_hex_to_hex to_hex_ascii length_to_hex hex_pairs_to_hex read_hex_key_def trim_to_hex)

end
