(* ===== verification/Catalog.thy ===== *)
theory Catalog
  imports Manifest_Safety Crypto "HOL-Library.AList"
begin

text \<open>
  \<open>crates/asmodeus-control-plane/src/catalog.rs\<close> and \<open>scenario_profile.rs\<close>, with
  \<open>synthetic_manifest\<close> of \<open>crates/asmodeus-dsl/src/execution.rs\<close>: the pinned fidelity profiles, the
  built-in scenarios, and the catalog that signs them and the manifests of a directory. The text of
  a manifest and its parser (serde_json and the YAML reader), the key pair and the directory are
  arguments. The catalog's map is the function from identifiers to entries.
\<close>

section \<open>Profiles\<close>

definition em_dash :: string where
  "em_dash = map chr [226, 128, 148]"

datatype platform = PfLinux | PfWindows | PfMacos | PfContainers | PfKubernetes | PfNetwork

record profile_def =
  pr_scenario_id :: string
  pr_fidelity :: fidelity
  pr_techniques :: "string list"
  pr_legacy_technique :: "string option"
  pr_procedure_id :: string
  pr_procedure_revision :: nat
  pr_platforms :: "platform list"
  pr_preconditions :: string
  pr_safety_scope :: string
  pr_expected_observables :: "string list"
  pr_limitations :: string

record scenario_profile =
  pf_procedure_id :: string
  pf_procedure_revision :: nat
  pf_platforms :: "platform list"
  pf_preconditions :: string
  pf_safety_scope :: string
  pf_expected_observables :: "string list"
  pf_limitations :: string
  pf_legacy_technique :: "string option"

definition profile_technique_refs :: "profile_def \<Rightarrow> technique_ref list" where
  "profile_technique_refs p =
     map (\<lambda>i. \<lparr>tr_technique_id = i, tr_fidelity = pr_fidelity p\<rparr>) (pr_techniques p)"

definition to_profile :: "profile_def \<Rightarrow> scenario_profile" where
  "to_profile p = \<lparr>pf_procedure_id = pr_procedure_id p, pf_procedure_revision = pr_procedure_revision p,
     pf_platforms = pr_platforms p, pf_preconditions = pr_preconditions p,
     pf_safety_scope = pr_safety_scope p, pf_expected_observables = pr_expected_observables p,
     pf_limitations = pr_limitations p, pf_legacy_technique = pr_legacy_technique p\<rparr>"

definition CANARY_FS_SCOPE :: string where
  "CANARY_FS_SCOPE = ''canary filesystem sandbox (/tmp/asmodeus-canary, /var/tmp/asmodeus-canary)''"

definition TEST_NET_SCOPE :: string where
  "TEST_NET_SCOPE = ''reserved test nets only (loopback + RFC 5737 TEST-NET-1/2/3)''"

definition PROFILES :: "profile_def list" where
  "PROFILES =
    [\<lparr>pr_scenario_id = ''RANSOMWARE_CANARY_SPIKE'', pr_fidelity = Behavioral,
      pr_techniques = [''T1486''],
      pr_legacy_technique = Some ''T1486'', pr_procedure_id = ''ASMOD-PROC-0001'',
      pr_procedure_revision = 1, pr_platforms = [PfLinux],
      pr_preconditions = ''writable canary directory seeded with synthetic documents'',
      pr_safety_scope = CANARY_FS_SCOPE,
      pr_expected_observables = [''burst of file-modification events on canary documents'',
        ''entropy/size change on canary files from reversible XOR''],
      pr_limitations = ''reversible XOR over synthetic canary documents only; not real encryption and not destructive '' @ em_dash @ '' proves encryption-spike detection, not ransomware impact''\<rparr>,
     \<lparr>pr_scenario_id = ''K8S_ESCAPE_SIMULATION'', pr_fidelity = MarkerOnly,
      pr_techniques = [''T1611''],
      pr_legacy_technique = Some ''T1611'', pr_procedure_id = ''ASMOD-PROC-0002'',
      pr_procedure_revision = 1, pr_platforms = [PfContainers, PfKubernetes, PfLinux],
      pr_preconditions = ''writable canary directory'',
      pr_safety_scope = CANARY_FS_SCOPE,
      pr_expected_observables = [''creation of docker.sock.probe marker in canary scope'',
        ''creation of k8s_ns_escape.canary marker in canary scope''],
      pr_limitations = ''writes escape-probe marker files only; does NOT perform a real container escape or gain host access '' @ em_dash @ '' not behavioural or prevention coverage of T1611''\<rparr>,
     \<lparr>pr_scenario_id = ''C2_BEACONING_SIMULATION'', pr_fidelity = MarkerOnly,
      pr_techniques = [''T1071'', ''T1071.001'', ''T1071.004'', ''T1568''],
      pr_legacy_technique = Some ''T1071'', pr_procedure_id = ''ASMOD-PROC-0003'',
      pr_procedure_revision = 1, pr_platforms = [PfNetwork, PfLinux],
      pr_preconditions = ''writable canary directory'',
      pr_safety_scope = CANARY_FS_SCOPE,
      pr_expected_observables = [''beacon-event records written to a canary log with jitter''],
      pr_limitations = ''records synthetic beacon events to a canary log; performs NO real network egress or DNS resolution '' @ em_dash @ '' not behavioural coverage of C2 or dynamic resolution''\<rparr>,
     \<lparr>pr_scenario_id = ''CREDENTIAL_ACCESS_CANARY'', pr_fidelity = MarkerOnly,
      pr_techniques = [''T1003''],
      pr_legacy_technique = Some ''T1003'', pr_procedure_id = ''ASMOD-PROC-0004'',
      pr_procedure_revision = 1, pr_platforms = [PfLinux],
      pr_preconditions = ''writable canary directory'',
      pr_safety_scope = CANARY_FS_SCOPE,
      pr_expected_observables = [''creation of honeytoken_credentials.json decoy in canary scope'',
        ''a single read-back of the decoy honeytoken''],
      pr_limitations = ''accesses a synthetic honeytoken decoy only; touches NO real credential store, memory or process '' @ em_dash @ '' not behavioural or prevention coverage of T1003''\<rparr>,
     \<lparr>pr_scenario_id = ''LOG_TAMPER_CANARY'', pr_fidelity = MarkerOnly,
      pr_techniques = [''T1070''],
      pr_legacy_technique = Some ''T1070'', pr_procedure_id = ''ASMOD-PROC-0005'',
      pr_procedure_revision = 1, pr_platforms = [PfLinux],
      pr_preconditions = ''writable canary directory'',
      pr_safety_scope = CANARY_FS_SCOPE,
      pr_expected_observables = [''creation then truncation of a synthetic canary audit log''],
      pr_limitations = ''creates and truncates its own synthetic canary log; removes NO real indicators or production logs '' @ em_dash @ '' not behavioural coverage of T1070''\<rparr>,
     \<lparr>pr_scenario_id = ''PERSISTENCE_CRON_CANARY'', pr_fidelity = MarkerOnly,
      pr_techniques = [''T1053''],
      pr_legacy_technique = Some ''T1053'', pr_procedure_id = ''ASMOD-PROC-0006'',
      pr_procedure_revision = 1, pr_platforms = [PfLinux],
      pr_preconditions = ''writable canary directory'',
      pr_safety_scope = CANARY_FS_SCOPE,
      pr_expected_observables = [''creation of a decoy cron-job file in canary scope''],
      pr_limitations = ''writes a decoy cron file inside the canary directory; installs NO real scheduled task and no system scheduler is modified '' @ em_dash @ '' not behavioural coverage of T1053''\<rparr>,
     \<lparr>pr_scenario_id = ''DATA_EXFILTRATION_CANARY'', pr_fidelity = MarkerOnly,
      pr_techniques = [''T1041''],
      pr_legacy_technique = Some ''T1041'', pr_procedure_id = ''ASMOD-PROC-0007'',
      pr_procedure_revision = 1, pr_platforms = [PfNetwork, PfLinux],
      pr_preconditions = ''writable canary directory'',
      pr_safety_scope = CANARY_FS_SCOPE,
      pr_expected_observables = [''a synthetic staging blob written in canary scope''],
      pr_limitations = ''stages a synthetic filler blob in the canary directory; NO data leaves the host and no real channel is used '' @ em_dash @ '' not behavioural coverage of T1041''\<rparr>,
     \<lparr>pr_scenario_id = ''DEFENSE_IMPAIRMENT_CANARY'', pr_fidelity = MarkerOnly,
      pr_techniques = [''T1562'', ''T1562.001''],
      pr_legacy_technique = Some ''T1562'', pr_procedure_id = ''ASMOD-PROC-0008'',
      pr_procedure_revision = 1, pr_platforms = [PfLinux],
      pr_preconditions = ''writable canary directory'',
      pr_safety_scope = CANARY_FS_SCOPE,
      pr_expected_observables = [''a watchdog_recovery.pulse marker written in canary scope''],
      pr_limitations = ''writes a benign watchdog pulse marker; disables or modifies NO real security tool '' @ em_dash @ '' not behavioural or prevention coverage of T1562''\<rparr>,
     \<lparr>pr_scenario_id = ''LATENCY_SPIKE_VM'', pr_fidelity = Behavioral,
      pr_techniques = [],
      pr_legacy_technique = None, pr_procedure_id = ''ASMOD-CHAOS-0001'',
      pr_procedure_revision = 1, pr_platforms = [PfNetwork],
      pr_preconditions = ''a test interface bound to a reserved test net'',
      pr_safety_scope = TEST_NET_SCOPE,
      pr_expected_observables = [''added latency/jitter and packet loss on the reserved test segment''],
      pr_limitations = ''infrastructure-chaos resilience test on reserved test nets; maps to NO ATT&CK technique and contributes no technique coverage''\<rparr>,
     \<lparr>pr_scenario_id = ''AGENT_CRASH_ENDPOINT'', pr_fidelity = MarkerOnly,
      pr_techniques = [''T1562''],
      pr_legacy_technique = Some ''T1562'', pr_procedure_id = ''ASMOD-CHAOS-0002'',
      pr_procedure_revision = 1, pr_platforms = [PfLinux],
      pr_preconditions = ''writable canary directory'',
      pr_safety_scope = CANARY_FS_SCOPE,
      pr_expected_observables = [''a watchdog_recovery.pulse marker written in canary scope''],
      pr_limitations = ''writes a benign recovery pulse marker to test the endpoint watchdog window; disables NO real tool '' @ em_dash @ '' not behavioural or prevention coverage of T1562''\<rparr>,
     \<lparr>pr_scenario_id = ''DNS_RPZ_SINKHOLE_DROP'', pr_fidelity = Behavioral,
      pr_techniques = [],
      pr_legacy_technique = None, pr_procedure_id = ''ASMOD-CHAOS-0003'',
      pr_procedure_revision = 1, pr_platforms = [PfNetwork],
      pr_preconditions = ''a test interface bound to loopback'',
      pr_safety_scope = TEST_NET_SCOPE,
      pr_expected_observables = [''simulated DNS RPZ resolver outage on the loopback test segment''],
      pr_limitations = ''infrastructure-chaos resilience test on reserved test nets; maps to NO ATT&CK technique and contributes no technique coverage''\<rparr>]"

definition profile_for :: "string \<Rightarrow> profile_def option" where
  "profile_for scenario_id = find (\<lambda>p. pr_scenario_id p = scenario_id) PROFILES"

section \<open>Built-in scenarios\<close>

text \<open>\<open>synthetic_manifest\<close>: the built-in manifest of an identifier, in the order of its parameters.\<close>

definition synthetic_manifest :: "string \<Rightarrow> string \<Rightarrow> nat \<Rightarrow> nat \<Rightarrow> scenario_manifest" where
  "synthetic_manifest sid target file_count chunk_size_kb =
     (let act = action_for_scenario sid in
      \<lparr>mf_api_version = API_VERSION_V1ALPHA1, mf_kind = AttackScenario,
       mf_metadata = \<lparr>md_id = sid, md_name = sid, md_category = CatRedTeam, md_mitre_technique = None,
         md_mitre_tactic = None, md_fidelity = None, md_mitre_techniques = None, md_severity = ''medium'',
         md_description = None\<rparr>,
       mf_spec = \<lparr>sp_author = None,
         sp_target_scope = Some \<lparr>ts_target_type = [], ts_selector = None, ts_target_path = Some target,
           ts_target_cidr = None\<rparr>,
         sp_safety = default_safety,
         sp_action = \<lparr>ac_nature = Synthetic, ac_type = act, ac_parameters =
           (if act = ''synthetic_canary_encrypt'' \<or> act = ''c2_beacon''
            then [(''file_count'', JNum (PosInt file_count))] else [])
           @ (if act = ''synthetic_canary_encrypt'' \<or> act = ''exfiltration_canary''
            then [(''chunk_size_kb'', JNum (PosInt chunk_size_kb))] else [])\<rparr>,
         sp_expected_outcome = \<lparr>eo_detector = [], eo_expected_mttd_max_ms = None,
           eo_expected_containment = None\<rparr>\<rparr>\<rparr>)"

record builtin =
  bi_id :: string
  bi_name :: string
  bi_category :: category
  bi_target_path :: string
  bi_detector :: string
  bi_mitre :: "mitre_technique option"
  bi_severity :: string
  bi_description :: string
  bi_mttd :: nat
  bi_mttr :: nat

definition BUILTINS :: "builtin list" where
  "BUILTINS =
    [\<lparr>bi_id = ''RANSOMWARE_CANARY_SPIKE'', bi_name = ''Ransomware Canary Encryption Spike'',
      bi_category = CatRedTeam, bi_target_path = ''/tmp/asmodeus-canary/'', bi_detector = ''ferrum_ebpf_kernel_probe'',
      bi_mitre = Some T1486_DATA_ENCRYPTED_FOR_IMPACT, bi_severity = ''high'',
      bi_description = ''Mass file encryption spike with reversible XOR on synthetic canary docs'',
      bi_mttd = 142, bi_mttr = 280\<rparr>,
     \<lparr>bi_id = ''K8S_ESCAPE_SIMULATION'', bi_name = ''K8s Container Escape Simulation'',
      bi_category = CatRedTeam, bi_target_path = ''/tmp/asmodeus-canary/'', bi_detector = ''ferrum_admission_controller'',
      bi_mitre = Some T1611_ESCAPE_TO_HOST, bi_severity = ''critical'',
      bi_description = ''Container escape probe targeting simulated hostPath and container sockets'',
      bi_mttd = 95, bi_mttr = 210\<rparr>,
     \<lparr>bi_id = ''C2_BEACONING_SIMULATION'', bi_name = ''C2 Beaconing & Dynamic Resolution Simulation'',
      bi_category = CatRedTeam, bi_target_path = ''/tmp/asmodeus-canary/'', bi_detector = ''bsdm_proxy_dns_sinkhole'',
      bi_mitre = Some T1071_APPLICATION_LAYER_PROTOCOL, bi_severity = ''high'',
      bi_description = ''Periodic synthetic HTTP/DNS beaconing with jitter to test domains'',
      bi_mttd = 110, bi_mttr = 230\<rparr>,
     \<lparr>bi_id = ''CREDENTIAL_ACCESS_CANARY'', bi_name = ''Credential Access Honeytoken Canary'',
      bi_category = CatRedTeam, bi_target_path = ''/tmp/asmodeus-canary/'', bi_detector = ''lariska_honeytoken_sentinel'',
      bi_mitre = Some T1003_OS_CREDENTIAL_DUMPING, bi_severity = ''high'',
      bi_description = ''Decoy honeytoken credentials access probe within canary scope'',
      bi_mttd = 85, bi_mttr = 170\<rparr>,
     \<lparr>bi_id = ''LOG_TAMPER_CANARY'', bi_name = ''Indicator Removal & Log Tamper Canary'',
      bi_category = CatRedTeam, bi_target_path = ''/tmp/asmodeus-canary/'', bi_detector = ''ferrum_audit_log_watcher'',
      bi_mitre = Some T1070_INDICATOR_REMOVAL, bi_severity = ''medium'',
      bi_description = ''Synthetic log truncation and indicator deletion in canary directory'',
      bi_mttd = 75, bi_mttr = 160\<rparr>,
     \<lparr>bi_id = ''PERSISTENCE_CRON_CANARY'', bi_name = ''Persistence Scheduled Task Canary'',
      bi_category = CatRedTeam, bi_target_path = ''/tmp/asmodeus-canary/'', bi_detector = ''lariska_persistence_guard'',
      bi_mitre = Some T1053_SCHEDULED_TASK_JOB, bi_severity = ''medium'',
      bi_description = ''Decoy scheduled task installation in synthetic canary directory'',
      bi_mttd = 120, bi_mttr = 250\<rparr>,
     \<lparr>bi_id = ''DATA_EXFILTRATION_CANARY'', bi_name = ''Data Exfiltration Over C2 Canary'',
      bi_category = CatRedTeam, bi_target_path = ''/tmp/asmodeus-canary/'', bi_detector = ''bsdm_proxy_swg_monitor'',
      bi_mitre = Some T1041_EXFILTRATION_OVER_C2, bi_severity = ''high'',
      bi_description = ''Synthetic staged data exfiltration probe via loopback test channel'',
      bi_mttd = 130, bi_mttr = 290\<rparr>,
     \<lparr>bi_id = ''DEFENSE_IMPAIRMENT_CANARY'', bi_name = ''Defense Impairment & Tool Disable Canary'',
      bi_category = CatRedTeam, bi_target_path = ''/tmp/asmodeus-canary/'', bi_detector = ''lariska_watchdog'',
      bi_mitre = Some T1562_IMPAIR_DEFENSES, bi_severity = ''high'',
      bi_description = ''Benign signal interruption probe testing endpoint agent watchdog'',
      bi_mttd = 50, bi_mttr = 140\<rparr>,
     \<lparr>bi_id = ''LATENCY_SPIKE_VM'', bi_name = ''Scanner Drift & Network Latency Chaos'',
      bi_category = CatChaos, bi_target_path = ''/tmp/asmodeus-canary/'', bi_detector = ''apex_gateway_failover'',
      bi_mitre = None, bi_severity = ''high'',
      bi_description = ''Synthetic network latency and packet loss on test RFC 5737 / loopback segment'',
      bi_mttd = 60, bi_mttr = 180\<rparr>,
     \<lparr>bi_id = ''AGENT_CRASH_ENDPOINT'', bi_name = ''Endpoint Agent Crash Chaos'',
      bi_category = CatChaos, bi_target_path = ''/tmp/asmodeus-canary/'', bi_detector = ''lariska_watchdog'',
      bi_mitre = Some T1562_IMPAIR_DEFENSES, bi_severity = ''critical'',
      bi_description = ''Unscheduled agent termination test to verify 5s recovery window'',
      bi_mttd = 40, bi_mttr = 120\<rparr>,
     \<lparr>bi_id = ''DNS_RPZ_SINKHOLE_DROP'', bi_name = ''DNS RPZ Resolver Outage Chaos'',
      bi_category = CatChaos, bi_target_path = ''/tmp/asmodeus-canary/'', bi_detector = ''bsdm_proxy_failover'',
      bi_mitre = None, bi_severity = ''high'',
      bi_description = ''Primary DNS RPZ sinkhole outage simulation to verify DoH fail-closed'',
      bi_mttd = 45, bi_mttr = 130\<rparr>]"

definition builtin_manifest :: "builtin \<Rightarrow> scenario_manifest" where
  "builtin_manifest b =
     (let m = synthetic_manifest (bi_id b) (bi_target_path b) 20 64 in
      m\<lparr>mf_metadata := (mf_metadata m)\<lparr>md_name := bi_name b, md_category := bi_category b,
            md_mitre_technique := map_option mt_id (bi_mitre b),
            md_mitre_tactic := map_option mt_tactic (bi_mitre b),
            md_severity := bi_severity b, md_description := Some (bi_description b)\<rparr>,
        mf_spec := (mf_spec m)\<lparr>sp_expected_outcome := (sp_expected_outcome (mf_spec m))
            \<lparr>eo_detector := bi_detector b, eo_expected_mttd_max_ms := Some (bi_mttd b)\<rparr>\<rparr>\<rparr>)"

section \<open>Entries\<close>

record scenario_entry =
  se_id :: string
  se_name :: string
  se_category :: category
  se_target_path :: string
  se_detector :: string
  se_mitre :: "mitre_technique option"
  se_fidelity :: fidelity
  se_technique_refs :: "technique_ref list"
  se_profile :: "scenario_profile option"
  se_severity :: string
  se_description :: string
  se_manifest :: bytes
  se_signature :: bytes
  se_sim_mttd_ms :: nat
  se_sim_mttr_ms :: nat

definition claims_behavioral_coverage :: "scenario_entry \<Rightarrow> bool" where
  "claims_behavioral_coverage e \<longleftrightarrow>
     (if se_technique_refs e = [] then claims_behavioral (se_fidelity e)
      else list_ex (\<lambda>r. claims_behavioral (tr_fidelity r)) (se_technique_refs e))"

text \<open>The manifest text: serde_json's writer, the UTF-8 check and the parser of the DSL.\<close>

record manifest_lib =
  ml_to_vec :: "scenario_manifest \<Rightarrow> bytes"
  ml_utf8 :: "bytes \<Rightarrow> bool"
  ml_parse :: "string \<Rightarrow> manifest_error + scenario_manifest"

text \<open>What the code relies on: each built-in manifest, written by serde_json, is UTF-8 and parses back to itself.\<close>

definition manifest_lib_ok :: "manifest_lib \<Rightarrow> bool" where
  "manifest_lib_ok L \<longleftrightarrow> (\<forall>b \<in> set BUILTINS.
     ml_utf8 L (ml_to_vec L (builtin_manifest b)) \<and> ml_parse L (ml_to_vec L (builtin_manifest b)) = Inr (builtin_manifest b))"

definition parse_and_validate :: "manifest_lib \<Rightarrow> string \<Rightarrow> manifest_error + scenario_manifest" where
  "parse_and_validate L raw = and_then (ml_parse L raw) (\<lambda>m. and_then (validate_manifest m) (\<lambda>_. Inr m))"

definition quoted :: "string \<Rightarrow> string" where
  "quoted s = [chr 39] @ s @ [chr 39]"

fun manifest_error_text :: "manifest_error \<Rightarrow> string" where
  "manifest_error_text (InvalidApiVersion v) = ''unsupported apiVersion '' @ quoted v @ '', expected one of ''
     @ quoted ''asmodeus.io/v1alpha1'' @ '', '' @ quoted ''asmodeus.io/v1alpha2''"
| "manifest_error_text ManifestNotSynthetic = ''INV-0 violation: action nature must be '' @ quoted ''synthetic''"
| "manifest_error_text (InvalidCanaryPath p) = ''canary path '' @ quoted p @ '' is outside permitted canary sandbox''"
| "manifest_error_text (InvalidNetworkTarget c) = ''network target '' @ quoted c @ '' is outside reserved test net blocks''"
| "manifest_error_text (CpuLimitExceeded c) = ''cpu limit '' @ show_nat c @ ''% exceeds safe budget of 85%''"
| "manifest_error_text (DurationLimitExceeded d) = ''max duration '' @ show_nat d @ ''s exceeds maximum limit of 300s''"
| "manifest_error_text (UnknownMitreTechnique t) = ''unknown MITRE technique '' @ quoted t"
| "manifest_error_text InvalidMitreMapping = ''mitre_technique must match the first mitre_techniques entry''"
| "manifest_error_text (InvalidFidelity v) = ''invalid fidelity '' @ quoted v @ '', expected '' @ quoted ''marker_only''
     @ '', '' @ quoted ''behavioral'' @ '' or '' @ quoted ''unspecified''"
| "manifest_error_text (BudgetLimitExceeded msg) = ''resource budget exceeded: '' @ msg"
| "manifest_error_text (ParseError msg) = ''manifest parse error: '' @ msg"

section \<open>The catalog\<close>

record catalog =
  cg_entries :: "(string \<times> scenario_entry) list"
  cg_public_key :: bytes
  cg_secret_key :: "bytes option"

definition cg_get :: "catalog \<Rightarrow> string \<Rightarrow> scenario_entry option" where
  "cg_get c i = map_of (cg_entries c) i"

definition cg_insert :: "scenario_entry \<Rightarrow> catalog \<Rightarrow> catalog" where
  "cg_insert e c = c\<lparr>cg_entries := AList.update (se_id e) e (cg_entries c)\<rparr>"

definition builtin_entry :: "ed25519 \<Rightarrow> manifest_lib \<Rightarrow> bytes \<Rightarrow> builtin \<Rightarrow> scenario_entry" where
  "builtin_entry E L sk b =
     (let manifest = ml_to_vec L (builtin_manifest b) in
      \<lparr>se_id = bi_id b, se_name = bi_name b, se_category = bi_category b, se_target_path = bi_target_path b,
       se_detector = bi_detector b, se_mitre = bi_mitre b,
       se_fidelity = (case profile_for (bi_id b) of Some p \<Rightarrow> pr_fidelity p | None \<Rightarrow> Unspecified),
       se_technique_refs = (case profile_for (bi_id b) of Some p \<Rightarrow> profile_technique_refs p | None \<Rightarrow> []),
       se_profile = map_option to_profile (profile_for (bi_id b)),
       se_severity = bi_severity b, se_description = bi_description b,
       se_manifest = manifest, se_signature = ed_sign E manifest sk,
       se_sim_mttd_ms = bi_mttd b, se_sim_mttr_ms = bi_mttr b\<rparr>)"

definition catalog_seeded :: "ed25519 \<Rightarrow> manifest_lib \<Rightarrow> bytes \<Rightarrow> catalog" where
  "catalog_seeded E L sk =
     fold (\<lambda>b. cg_insert (builtin_entry E L sk b)) BUILTINS
       \<lparr>cg_entries = [], cg_public_key = ed_public E sk, cg_secret_key = Some sk\<rparr>"

text \<open>A directory entry as \<open>read_dir\<close> gives it: an error, or a path with its kind, extension and content.\<close>

datatype dir_entry = DirError string | DirFile bool string "string option"

definition loaded_entry :: "ed25519 \<Rightarrow> bytes option \<Rightarrow> scenario_manifest \<Rightarrow> execution_plan \<Rightarrow> string \<Rightarrow> scenario_entry" where
  "loaded_entry E sk m plan content =
     \<lparr>se_id = md_id (mf_metadata m), se_name = md_name (mf_metadata m), se_category = md_category (mf_metadata m),
      se_target_path = pl_target_dir plan,
      se_detector = eo_detector (sp_expected_outcome (mf_spec m)), se_mitre = primary_technique m,
      se_fidelity = effective_fidelity m, se_technique_refs = resolved_technique_refs m, se_profile = None,
      se_severity = md_severity (mf_metadata m),
      se_description = (case md_description (mf_metadata m) of Some d \<Rightarrow> d | None \<Rightarrow> []),
      se_manifest = content,
      se_signature = (case sk of Some k \<Rightarrow> if ed_sk_ok E k then ed_sign E content k else [] | None \<Rightarrow> []),
      se_sim_mttd_ms = (case eo_expected_mttd_max_ms (sp_expected_outcome (mf_spec m)) of Some n \<Rightarrow> n | None \<Rightarrow> 60),
      se_sim_mttr_ms = 150\<rparr>"

definition manifest_extension :: "string \<Rightarrow> bool" where
  "manifest_extension ext \<longleftrightarrow> to_ascii_lowercase ext \<in> set [''yaml'', ''yml'', ''json'']"

fun load_entries ::
  "ed25519 \<Rightarrow> manifest_lib \<Rightarrow> dir_entry list \<Rightarrow> nat \<Rightarrow> catalog \<Rightarrow> (string + nat) \<times> catalog" where
  "load_entries E L [] count c = (Inr count, c)"
| "load_entries E L (DirError e # ds) count c = (Inl e, c)"
| "load_entries E L (DirFile is_file ext content # ds) count c =
     (if \<not> is_file \<or> \<not> manifest_extension ext then load_entries E L ds count c
      else (case content of
          None \<Rightarrow> load_entries E L ds count c
        | Some text \<Rightarrow>
            (case parse_and_validate L text of
               Inl _ \<Rightarrow> load_entries E L ds count c
             | Inr m \<Rightarrow>
                 (case from_manifest m of
                    Inl e \<Rightarrow> (Inl (manifest_error_text e), c)
                  | Inr plan \<Rightarrow>
                      load_entries E L ds (count + 1)
                        (cg_insert (loaded_entry E (cg_secret_key c) m plan text) c)))))"

definition load_from_dir ::
  "ed25519 \<Rightarrow> manifest_lib \<Rightarrow> dir_entry list option \<Rightarrow> catalog \<Rightarrow> (string + nat) \<times> catalog" where
  "load_from_dir E L dir c = (case dir of None \<Rightarrow> (Inr 0, c) | Some ds \<Rightarrow> load_entries E L ds 0 c)"

text \<open>The operator's key signs the built-in manifests again, each checked at once.\<close>

fun resign_entries ::
  "ed25519 \<Rightarrow> bytes \<Rightarrow> bytes \<Rightarrow> (string \<times> scenario_entry) list \<Rightarrow> string + (string \<times> scenario_entry) list" where
  "resign_entries E key public [] = Inr []"
| "resign_entries E key public ((i, e) # es) =
     (case sign_message E (se_manifest e) key of
        Inl _ \<Rightarrow> Inl ''invalid secret key''
      | Inr s \<Rightarrow>
          (if \<not> is_valid E (se_manifest e) s public then Inl ''inconsistent scenario signing key''
           else and_then (resign_entries E key public es) (\<lambda>es'. Inr ((i, e\<lparr>se_signature := s\<rparr>) # es'))))"

text \<open>
  The environment: the scenario key file's text if its path is set (none when it cannot be read),
  whether a runner endpoint is set, and the scenario directory if its path is set.
\<close>

definition catalog_from_env ::
  "ed25519 \<Rightarrow> manifest_lib \<Rightarrow> bytes \<Rightarrow> string option option \<Rightarrow> bool \<Rightarrow> dir_entry list option option
     \<Rightarrow> string + catalog" where
  "catalog_from_env E L kp_sk key_file runner dir =
     (let c = catalog_seeded E L kp_sk in
      and_then
        (case key_file of
           Some file \<Rightarrow>
             and_then (read_hex_key 64 file) (\<lambda>key.
             (case public_key_from_secret_key E key of
                Inl _ \<Rightarrow> Inl ''invalid secret key''
              | Inr public \<Rightarrow>
                  and_then (resign_entries E key public (cg_entries c)) (\<lambda>es.
                  Inr \<lparr>cg_entries = es, cg_public_key = public, cg_secret_key = Some key\<rparr>)))
         | None \<Rightarrow>
             if runner then Inl ''ASMODEUS_SCENARIO_SIGNING_KEY is required for a configured runner'' else Inr c)
        (\<lambda>c1. case dir of
             None \<Rightarrow> Inr c1
           | Some None \<Rightarrow> Inl ''ASMODEUS_SCENARIOS_DIR must be an existing directory''
           | Some (Some ds) \<Rightarrow>
               (case load_from_dir E L (Some ds) c1 of
                  (Inl e, _) \<Rightarrow> Inl e
                | (Inr _, c2) \<Rightarrow> Inr c2)))"

section \<open>Every entry is trusted and in scope\<close>

text \<open>What is checked of the built-in rows, and what follows for their manifests.\<close>

definition row_ok :: "builtin \<Rightarrow> bool" where
  "row_ok b \<longleftrightarrow> action_from_name (action_for_scenario (bi_id b)) \<noteq> None \<and> bi_target_path b = ''/tmp/asmodeus-canary/''
     \<and> (case bi_mitre b of None \<Rightarrow> True | Some t \<Rightarrow> t \<in> set ALL_DEFS)"

lemma builtin_rows: "\<forall>b \<in> set BUILTINS. row_ok b"
  by (simp add: BUILTINS_def row_ok_def action_for_scenario_def action_from_name_def all_actions_def ALL_DEFS_def)

lemma builtin_simps [simp]:
  "ac_parameters (sp_action (mf_spec (builtin_manifest b))) = ac_parameters (sp_action (mf_spec (synthetic_manifest (bi_id b) (bi_target_path b) 20 64)))"
  "mf_action_type (builtin_manifest b) = action_for_scenario (bi_id b)"
  "sp_safety (mf_spec (builtin_manifest b)) = default_safety"
  "sp_target_scope (mf_spec (builtin_manifest b)) = Some \<lparr>ts_target_type = [], ts_selector = None,
     ts_target_path = Some (bi_target_path b), ts_target_cidr = None\<rparr>"
  "md_id (mf_metadata (builtin_manifest b)) = bi_id b"
  "md_category (mf_metadata (builtin_manifest b)) = bi_category b"
  "md_mitre_technique (mf_metadata (builtin_manifest b)) = map_option mt_id (bi_mitre b)"
  "md_mitre_techniques (mf_metadata (builtin_manifest b)) = None"
  "md_fidelity (mf_metadata (builtin_manifest b)) = None"
  "mf_api_version (builtin_manifest b) = API_VERSION_V1ALPHA1"
  "ac_nature (sp_action (mf_spec (builtin_manifest b))) = Synthetic"
  by (simp_all add: builtin_manifest_def synthetic_manifest_def Let_def)

lemma builtin_plan:
  assumes "row_ok b"
  shows "\<exists>p. from_manifest (builtin_manifest b) = Inr p \<and> pl_target_dir p = bi_target_path b
    \<and> action_for_scenario (bi_id b) = action_name (pl_action p)
    \<and> pl_file_count p = 20 \<and> pl_chunk_size_kb p = 64 \<and> pl_max_duration_sec p = 60"
proof -
  obtain a where a: "action_for_scenario (bi_id b) = action_name a"
    using assms by (auto simp: row_ok_def action_from_name_Some)
  let ?p = "\<lparr>pl_action = a, pl_target_dir = bi_target_path b, pl_file_count = 20, pl_chunk_size_kb = 64,
    pl_io_rate_per_sec = 0, pl_duration_ms = 0, pl_max_duration_sec = 60, pl_cpu_limit_percent = 25,
    pl_target_cidr = ''127.0.0.1/32'', pl_iface = ''lo'', pl_latency_ms = 100, pl_jitter_ms = 0,
    pl_loss_percent = 0\<rparr>"
  have "from_manifest (builtin_manifest b) = Inr ?p"
    by (cases a) (simp_all add: from_manifest_Inr a Let_def default_safety_def plan_target_dir_def number_Inr
        plan_iface_def parameter_allowed_def sat_mul32_def synthetic_manifest_def)
  with a show ?thesis by (intro exI [where x = ?p]) simp
qed

lemma canary_root_in_scope: "path_in_scope ''/tmp/asmodeus-canary/''"
  by (simp add: path_in_scope_def trim_end_slash_def CANARY_PREFIXES_def starts_with_def)

lemma builtin_validates:
  assumes "row_ok b"
  shows "validate_manifest (builtin_manifest b) = Inr ()"
proof -
  have "path_in_scope (bi_target_path b)" using assms canary_root_in_scope by (simp add: row_ok_def)
  moreover have "\<forall>t. bi_mitre b = Some t \<longrightarrow> is_known_id (mt_id t)"
    using assms lookup_member by (auto simp: row_ok_def is_known_id_def)
  ultimately show ?thesis
    using builtin_plan [OF assms]
    by (cases "bi_mitre b") (auto simp: validate_manifest_def Let_def default_safety_def is_permitted_def check_primary_def
        SUPPORTED_API_VERSIONS_def)
qed

text \<open>What holds of every entry, whatever its source.\<close>

definition behavioral_action :: "string \<Rightarrow> bool" where
  "behavioral_action a \<longleftrightarrow> a = ''synthetic_canary_encrypt'' \<or> a = ''latency_spike''"

definition entry_sound :: "ed25519 \<Rightarrow> manifest_lib \<Rightarrow> bytes \<Rightarrow> scenario_entry \<Rightarrow> bool" where
  "entry_sound E L public e \<longleftrightarrow> is_valid E (se_manifest e) (se_signature e) public
     \<and> path_in_scope (se_target_path e)
     \<and> (\<exists>m p. parse_and_validate L (se_manifest e) = Inr m \<and> from_manifest m = Inr p
          \<and> md_id (mf_metadata m) = se_id e \<and> md_category (mf_metadata m) = se_category e
          \<and> pl_target_dir p = se_target_path e
          \<and> (claims_behavioral_coverage e \<longrightarrow> behavioral_action (mf_action_type m)))"

definition catalog_sound :: "ed25519 \<Rightarrow> manifest_lib \<Rightarrow> catalog \<Rightarrow> bool" where
  "catalog_sound E L c \<longleftrightarrow>
     (\<forall>i e. cg_get c i = Some e \<longrightarrow> se_id e = i \<and> entry_sound E L (cg_public_key c) e)"

lemma cg_insert_get:
  "cg_get (cg_insert e c) i = (if i = se_id e then Some e else cg_get c i)"
  by (simp add: cg_get_def cg_insert_def update_conv')

lemma cg_insert_sound:
  "catalog_sound E L c \<Longrightarrow> entry_sound E L (cg_public_key c) e \<Longrightarrow> catalog_sound E L (cg_insert e c)"
  by (auto simp: catalog_sound_def cg_insert_get) (auto simp: cg_insert_def)

lemma cg_insert_keys [simp]: "cg_public_key (cg_insert e c) = cg_public_key c" "cg_secret_key (cg_insert e c) = cg_secret_key c"
  by (simp_all add: cg_insert_def)

text \<open>The fidelity a built-in claims is the one of its action.\<close>

lemma profile_claim:
  "claims_behavioral_coverage (builtin_entry E L sk b) \<Longrightarrow>
    \<exists>p. profile_for (bi_id b) = Some p \<and> pr_fidelity p = Behavioral"
  by (cases "profile_for (bi_id b)")
    (auto simp: builtin_entry_def Let_def claims_behavioral_coverage_def profile_technique_refs_def list_ex_iff
        claims_behavioral_def split: if_splits fidelity.splits)

lemma profile_rows:
  "\<forall>p \<in> set PROFILES. pr_fidelity p = Behavioral \<longrightarrow> behavioral_action (action_for_scenario (pr_scenario_id p))"
  by (simp add: PROFILES_def behavioral_action_def action_for_scenario_def)

lemma builtin_fidelity:
  assumes "claims_behavioral_coverage (builtin_entry E L sk b)"
  shows "behavioral_action (action_for_scenario (bi_id b))"
proof -
  from profile_claim [OF assms] obtain p where p: "profile_for (bi_id b) = Some p" "pr_fidelity p = Behavioral"
    by blast
  then have "p \<in> set PROFILES \<and> pr_scenario_id p = bi_id b"
    unfolding profile_for_def by (auto dest: find_SomeD)
  with p profile_rows show ?thesis by auto
qed

lemma validated_dir_in_scope:
  assumes "validate_manifest m = Inr ()" and "from_manifest m = Inr p"
  shows "path_in_scope (pl_target_dir p)"
proof -
  note v = assms(1) [unfolded validate_manifest_def Let_def, simplified]
  show ?thesis using assms(2) v by (simp add: from_manifest_Inr Let_def plan_dir_in_scope)
qed

lemma parse_and_validate_Inr:
  "parse_and_validate L raw = Inr m \<longleftrightarrow> ml_parse L raw = Inr m \<and> validate_manifest m = Inr ()"
  by (auto simp: parse_and_validate_def)

lemma effective_action: "effective_fidelity m = Behavioral \<Longrightarrow> behavioral_action (mf_action_type m)"
  by (auto simp: effective_fidelity_def Let_def implemented_fidelity_def behavioral_action_def min_def split: if_splits)

lemma resolved_claim:
  assumes "r \<in> set (resolved_technique_refs m)" and "tr_fidelity r = Behavioral"
  shows "effective_fidelity m = Behavioral"
  using resolved_ref_cases [OF assms(1)] technique_fidelity_le [of m "tr_technique_id r" "effective_fidelity m"] assms(2)
  by (metis behavioral_le order_trans)

lemma loaded_sound:
  assumes "ed_correct E" and "ed_sk_ok E k" and "parse_and_validate L text = Inr m" and "from_manifest m = Inr p"
  shows "entry_sound E L (ed_public E k) (loaded_entry E (Some k) m p text)"
proof -
  let ?e = "loaded_entry E (Some k) m p text"
  have "is_valid E text (ed_sign E text k) (ed_public E k)"
    using assms(1,2) by (auto simp: is_valid_iff ed_correct_def)
  moreover have "path_in_scope (pl_target_dir p)"
    using assms(3,4) by (auto simp: parse_and_validate_Inr intro: validated_dir_in_scope)
  moreover have "behavioral_action (mf_action_type m)" if "claims_behavioral_coverage ?e"
    using that resolved_claim [of _ m]
    by (intro effective_action)
      (auto simp: claims_behavioral_coverage_def loaded_entry_def list_ex_iff split: if_splits)
  ultimately show ?thesis
    using assms by (auto simp: entry_sound_def loaded_entry_def)
qed

lemma builtin_sound:
  assumes "ed_correct E" and "ed_sk_ok E k" and "manifest_lib_ok L" and b: "b \<in> set BUILTINS"
  shows "entry_sound E L (ed_public E k) (builtin_entry E L k b)"
proof -
  have ok: "row_ok b" using b builtin_rows by blast
  then obtain p where p: "from_manifest (builtin_manifest b) = Inr p" "pl_target_dir p = bi_target_path b"
    using builtin_plan by blast
  have v: "parse_and_validate L (ml_to_vec L (builtin_manifest b)) = Inr (builtin_manifest b)"
    using assms(3) b builtin_validates [OF ok] by (auto simp: parse_and_validate_Inr manifest_lib_ok_def)
  have "path_in_scope (bi_target_path b)" using ok canary_root_in_scope by (simp add: row_ok_def)
  moreover have "is_valid E x (ed_sign E x k) (ed_public E k)" for x
    using assms(1,2) by (auto simp: is_valid_iff ed_correct_def)
  moreover note v p builtin_fidelity [of E L k b]
  ultimately show ?thesis by (auto simp: entry_sound_def builtin_entry_def Let_def)
qed

text \<open>The catalog holds a usable key of its own, and the public half of it.\<close>

definition catalog_keyed :: "ed25519 \<Rightarrow> catalog \<Rightarrow> bool" where
  "catalog_keyed E c \<longleftrightarrow> (\<exists>k. cg_secret_key c = Some k \<and> ed_sk_ok E k \<and> cg_public_key c = ed_public E k)"

lemma fold_insert_sound:
  assumes "\<And>b. b \<in> set bs \<Longrightarrow> entry_sound E L (cg_public_key c) (f b)" and "catalog_sound E L c"
  shows "catalog_sound E L (fold (\<lambda>b. cg_insert (f b)) bs c)
    \<and> cg_public_key (fold (\<lambda>b. cg_insert (f b)) bs c) = cg_public_key c
    \<and> cg_secret_key (fold (\<lambda>b. cg_insert (f b)) bs c) = cg_secret_key c
    \<and> (\<forall>b \<in> set bs. cg_get (fold (\<lambda>b. cg_insert (f b)) bs c) (se_id (f b)) \<noteq> None)
    \<and> (\<forall>i. cg_get c i \<noteq> None \<longrightarrow> cg_get (fold (\<lambda>b. cg_insert (f b)) bs c) i \<noteq> None)"
  using assms
proof (induction bs arbitrary: c)
  case (Cons b bs)
  have "catalog_sound E L (cg_insert (f b) c)" using Cons.prems by (intro cg_insert_sound) auto
  with Cons.IH [of "cg_insert (f b) c"] Cons.prems show ?case by (auto simp: cg_insert_get)
qed simp

lemma seeded_sound:
  assumes "ed_correct E" and "ed_sk_ok E k" and "manifest_lib_ok L"
  shows "catalog_sound E L (catalog_seeded E L k) \<and> catalog_keyed E (catalog_seeded E L k)
    \<and> (\<forall>b \<in> set BUILTINS. cg_get (catalog_seeded E L k) (bi_id b) \<noteq> None)"
proof -
  let ?c = "\<lparr>cg_entries = [], cg_public_key = ed_public E k, cg_secret_key = Some k\<rparr>"
  have "catalog_sound E L ?c" by (simp add: catalog_sound_def cg_get_def)
  moreover have "se_id (builtin_entry E L k b) = bi_id b" for b by (simp add: builtin_entry_def Let_def)
  ultimately show ?thesis
    using fold_insert_sound [of BUILTINS E L ?c "builtin_entry E L k"] builtin_sound [OF assms] assms(2)
    by (simp add: catalog_seeded_def catalog_keyed_def)
qed

text \<open>An entry of the directory ends the loading, changes nothing, or adds one loaded entry.\<close>

lemma load_entries_step:
  assumes "load_entries E L (d # ds) n c = (Inr n', c')"
  shows "load_entries E L ds n c = (Inr n', c')
    \<or> (\<exists>raw m p. parse_and_validate L raw = Inr m \<and> from_manifest m = Inr p
          \<and> load_entries E L ds (n + 1) (cg_insert (loaded_entry E (cg_secret_key c) m p raw) c) = (Inr n', c'))"
  using assms by (cases d) (auto split: if_splits option.splits sum.splits)

lemma load_entries_sound:
  assumes "load_entries E L ds n c = (Inr n', c')" and "ed_correct E"
    and "catalog_sound E L c" and "catalog_keyed E c"
  shows "catalog_sound E L c' \<and> catalog_keyed E c' \<and> (\<forall>i. cg_get c i \<noteq> None \<longrightarrow> cg_get c' i \<noteq> None)"
  using assms
proof (induction ds arbitrary: n c)
  case (Cons d ds)
  from load_entries_step [OF Cons.prems(1)] show ?case
  proof (elim disjE exE conjE)
    assume "load_entries E L ds n c = (Inr n', c')"
    with Cons show ?thesis by blast
  next
    fix raw m p
    let ?e = "loaded_entry E (cg_secret_key c) m p raw"
    assume m: "parse_and_validate L raw = Inr m" "from_manifest m = Inr p"
      and step: "load_entries E L ds (n + 1) (cg_insert ?e c) = (Inr n', c')"
    have "entry_sound E L (cg_public_key c) ?e"
      using loaded_sound [OF Cons.prems(2) _ m] Cons.prems(4) by (auto simp: catalog_keyed_def)
    then have "catalog_sound E L (cg_insert ?e c)" "catalog_keyed E (cg_insert ?e c)"
      using Cons.prems(3,4) by (auto intro: cg_insert_sound simp: catalog_keyed_def)
    with Cons.IH [OF step Cons.prems(2)] show ?thesis by (auto simp: cg_insert_get)
  qed
qed simp

lemma resign_sound:
  "resign_entries E k (ed_public E k) es = Inr es' \<Longrightarrow> ed_sk_ok E k \<Longrightarrow>
    (\<forall>i. map_of es' i = map_option (\<lambda>e. e\<lparr>se_signature := ed_sign E (se_manifest e) k\<rparr>) (map_of es i))
    \<and> (\<forall>i e. map_of es' i = Some e \<longrightarrow> is_valid E (se_manifest e) (se_signature e) (ed_public E k))"
proof (induction es arbitrary: es')
  case (Cons x es)
  obtain i e where x: "x = (i, e)" by (cases x)
  with Cons show ?case by (auto simp: sign_message_def split: sum.splits if_splits)
qed simp

lemma entry_sound_resign:
  assumes "entry_sound E L public e" and "is_valid E (se_manifest e) s public'"
  shows "entry_sound E L public' (e\<lparr>se_signature := s\<rparr>)"
proof -
  have "claims_behavioral_coverage (e\<lparr>se_signature := s\<rparr>) = claims_behavioral_coverage e"
    by (simp add: claims_behavioral_coverage_def)
  with assms show ?thesis by (simp add: entry_sound_def)
qed

lemma resigned_sound:
  assumes r: "resign_entries E k (ed_public E k) (cg_entries c) = Inr es" and k: "ed_sk_ok E k"
    and c: "catalog_sound E L c" and c': "c' = \<lparr>cg_entries = es, cg_public_key = ed_public E k, cg_secret_key = Some k\<rparr>"
  shows "catalog_sound E L c' \<and> catalog_keyed E c' \<and> (\<forall>i. cg_get c i \<noteq> None \<longrightarrow> cg_get c' i \<noteq> None)"
proof -
  let ?f = "\<lambda>e. e\<lparr>se_signature := ed_sign E (se_manifest e) k\<rparr>"
  have get: "cg_get c' i = map_option ?f (cg_get c i)"
    and valid: "cg_get c' i = Some e \<Longrightarrow> is_valid E (se_manifest e) (se_signature e) (ed_public E k)" for i e
    using resign_sound [OF r k] c' by (auto simp: cg_get_def)
  have "se_id e = i \<and> entry_sound E L (ed_public E k) e" if e: "cg_get c' i = Some e" for i e
  proof -
    from e obtain z where z: "cg_get c i = Some z" "e = ?f z" by (auto simp: get)
    with c have "se_id z = i" "entry_sound E L (cg_public_key c) z" by (auto simp: catalog_sound_def)
    with valid [OF e] z show ?thesis by (auto intro: entry_sound_resign)
  qed
  moreover have "\<forall>i. cg_get c i \<noteq> None \<longrightarrow> cg_get c' i \<noteq> None" by (simp add: get)
  moreover have "catalog_keyed E c'" and "cg_public_key c' = ed_public E k" using k c' by (simp_all add: catalog_keyed_def)
  ultimately show ?thesis by (simp add: catalog_sound_def)
qed

text \<open>
  C12: Whatever the environment holds, a catalog that start-up accepts is trusted: every entry, built-in
  or loaded from the directory, is filed under its own identifier, is signed under the catalog's public
  key, and its signed bytes parse to a valid manifest whose plan is the entry's canary directory, inside
  the permitted sandbox; it claims behavioural coverage only if its action implements the behaviour.
  No built-in scenario is ever missing, and a configured runner is refused without an operator key.
\<close>
theorem catalog_trusted:
  assumes "ed_correct E" and "manifest_lib_ok L" and "ed_sk_ok E kp_sk"
    and "catalog_from_env E L kp_sk key_file runner dir = Inr c"
  shows "catalog_sound E L c \<and> (\<forall>b \<in> set BUILTINS. cg_get c (bi_id b) \<noteq> None) \<and> (key_file = None \<longrightarrow> \<not> runner)"
proof -
  let ?s = "catalog_seeded E L kp_sk"
  let ?good = "\<lambda>c. catalog_sound E L c \<and> catalog_keyed E c \<and> (\<forall>b \<in> set BUILTINS. cg_get c (bi_id b) \<noteq> None)"
  have seeded: "?good ?s" using seeded_sound [OF assms(1,3,2)] by blast
  have resigned: "?good \<lparr>cg_entries = es, cg_public_key = ed_public E k, cg_secret_key = Some k\<rparr>"
    if "ed_sk_ok E k" and "resign_entries E k (ed_public E k) (cg_entries ?s) = Inr es" for k es
    using resigned_sound [OF that(2,1) _ refl] seeded by blast
  define keyed where "keyed = (case key_file of
      Some file \<Rightarrow>
        and_then (read_hex_key 64 file) (\<lambda>key.
        (case public_key_from_secret_key E key of
           Inl _ \<Rightarrow> Inl ''invalid secret key''
         | Inr public \<Rightarrow>
             and_then (resign_entries E key public (cg_entries ?s)) (\<lambda>es.
             Inr \<lparr>cg_entries = es, cg_public_key = public, cg_secret_key = Some key\<rparr>)))
    | None \<Rightarrow>
        if runner then Inl ''ASMODEUS_SCENARIO_SIGNING_KEY is required for a configured runner'' else Inr ?s)"
  obtain c1 where c1: "keyed = Inr c1"
    and dir: "(case dir of None \<Rightarrow> Inr c1 | Some None \<Rightarrow> Inl ''ASMODEUS_SCENARIOS_DIR must be an existing directory''
               | Some (Some ds) \<Rightarrow> (case load_from_dir E L (Some ds) c1 of (Inl e, _) \<Rightarrow> Inl e | (Inr _, c2) \<Rightarrow> Inr c2)) = Inr c"
    using assms(4) unfolding catalog_from_env_def Let_def keyed_def [symmetric] and_then_Inr by blast
  have key: "key_file = None \<longrightarrow> \<not> runner" using c1 by (auto simp: keyed_def)
  have good: "?good c1"
  proof (cases key_file)
    case None
    with c1 seeded show ?thesis by (simp add: keyed_def split: if_splits)
  next
    case (Some contents)
    with c1 obtain k es where "ed_sk_ok E k" "resign_entries E k (ed_public E k) (cg_entries ?s) = Inr es"
        "c1 = \<lparr>cg_entries = es, cg_public_key = ed_public E k, cg_secret_key = Some k\<rparr>"
      by (auto simp: keyed_def public_key_from_secret_key_def split: if_splits sum.splits)
    with resigned show ?thesis by blast
  qed
  show ?thesis
  proof (cases dir)
    case None
    with good key dir show ?thesis by auto
  next
    case (Some x)
    with dir obtain ds n where "load_entries E L ds 0 c1 = (Inr n, c)"
      by (auto simp: load_from_dir_def split: option.splits prod.splits sum.splits)
    from load_entries_sound [OF this assms(1)] good key show ?thesis by blast
  qed
qed

text \<open>A writer whose text is the identifier: it reads back the built-in manifests, and only those.\<close>

definition example_lib :: manifest_lib where
  "example_lib = \<lparr>ml_to_vec = (\<lambda>m. md_id (mf_metadata m)), ml_utf8 = (\<lambda>_. True),
     ml_parse = (\<lambda>s. case find (\<lambda>b. bi_id b = s) BUILTINS of Some b \<Rightarrow> Inr (builtin_manifest b) | None \<Rightarrow> Inl (ParseError s))\<rparr>"

lemma builtin_ids_distinct: "distinct (map bi_id BUILTINS)"
  by (simp add: BUILTINS_def)

lemma example_lib_ok: "manifest_lib_ok example_lib"
  using find_distinct [OF builtin_ids_distinct] by (auto simp: manifest_lib_ok_def example_lib_def)

theorem catalog_trusted_witness:
  "\<exists>c. catalog_from_env toy_ed25519 example_lib ''key'' None False None = Inr c \<and> catalog_sound toy_ed25519 example_lib c"
proof -
  have env: "catalog_from_env toy_ed25519 example_lib ''key'' None False None = Inr (catalog_seeded toy_ed25519 example_lib ''key'')"
    by (simp add: catalog_from_env_def Let_def)
  have "ed_sk_ok toy_ed25519 ''key''" by (simp add: toy_ed25519_def)
  from catalog_trusted [OF toy_correct example_lib_ok this env] env show ?thesis by blast
qed

end
