(* ===== verification/Safety.thy ===== *)
theory Safety
  imports Interfaces
begin

text \<open>
  \<open>crates/asmodeus-safety\<close>: the trip thresholds, the circuit breaker that judges one
  observation and the dead-man switch that counts missed heartbeats. The counters are
  \<open>8 word\<close> values as in the source (\<open>u8\<close>, saturating increment); the elapsed time is a
  \<open>64 word\<close>. The dead-man switch is a \<open>step_system\<close> over its two events, and the lemmas say after how many misses it expires.
\<close>

record thresholds =
  cpu_trip_percent :: "8 word"
  heartbeat_miss_limit :: "8 word"
  max_duration_ms :: "64 word"

definition default_thresholds :: thresholds where
  "default_thresholds = \<lparr>cpu_trip_percent = 85, heartbeat_miss_limit = 3, max_duration_ms = 120000\<rparr>"

datatype trip = TripCpu "8 word" | TripTimeout "64 word" | TripHeartbeat "8 word"

definition evaluate :: "thresholds \<Rightarrow> 8 word \<Rightarrow> 64 word \<Rightarrow> 8 word \<Rightarrow> trip option" where
  "evaluate th cpu_percent elapsed_ms heartbeats_missed =
     (if cpu_percent > cpu_trip_percent th then Some (TripCpu cpu_percent)
      else if elapsed_ms > max_duration_ms th then Some (TripTimeout elapsed_ms)
      else if heartbeats_missed \<ge> heartbeat_miss_limit th then Some (TripHeartbeat heartbeats_missed)
      else None)"

definition should_trip :: "8 word \<Rightarrow> 8 word \<Rightarrow> bool" where
  "should_trip cpu_percent heartbeats_missed \<longleftrightarrow>
     evaluate default_thresholds cpu_percent 0 heartbeats_missed \<noteq> None"

record dead_man_switch =
  dms_limit :: "8 word"
  dms_missed :: "8 word"

definition dms_new :: "8 word \<Rightarrow> dead_man_switch" where
  "dms_new limit = \<lparr>dms_limit = limit, dms_missed = 0\<rparr>"

definition dms_default :: dead_man_switch where
  "dms_default = dms_new 3"

definition sat_inc8 :: "8 word \<Rightarrow> 8 word" where
  "sat_inc8 w = (if w = 255 then 255 else w + 1)"

definition record_beat :: "dead_man_switch \<Rightarrow> dead_man_switch" where
  "record_beat d = d\<lparr>dms_missed := 0\<rparr>"

definition miss :: "dead_man_switch \<Rightarrow> dead_man_switch" where
  "miss d = d\<lparr>dms_missed := sat_inc8 (dms_missed d)\<rparr>"

definition is_expired :: "dead_man_switch \<Rightarrow> bool" where
  "is_expired d \<longleftrightarrow> dms_limit d \<le> dms_missed d"

section \<open>The breaker\<close>

lemma evaluate_None_iff:
  "evaluate th c e h = None \<longleftrightarrow>
     c \<le> cpu_trip_percent th \<and> e \<le> max_duration_ms th \<and> h < heartbeat_miss_limit th"
  by (auto simp: evaluate_def)

text \<open>A worse observation never clears a trip.\<close>

lemma evaluate_mono:
  assumes "evaluate th c e h \<noteq> None" and "c \<le> c'" and "e \<le> e'" and "h \<le> h'"
  shows "evaluate th c' e' h' \<noteq> None"
  using assms unfolding evaluate_None_iff by (meson le_less_trans order_trans)

section \<open>The dead-man switch\<close>

datatype beat_event = Beat | Miss

fun dms_step :: "beat_event \<Rightarrow> dead_man_switch \<Rightarrow> dead_man_switch" where
  "dms_step Beat d = record_beat d"
| "dms_step Miss d = miss d"

text \<open>The misses since the last beat, unbounded: what the counter abbreviates.\<close>

fun trailing_misses :: "nat \<Rightarrow> beat_event list \<Rightarrow> nat" where
  "trailing_misses n [] = n"
| "trailing_misses n (Beat # es) = trailing_misses 0 es"
| "trailing_misses n (Miss # es) = trailing_misses (n + 1) es"

lemma unat8_less: "unat (w :: 8 word) < 256"
proof -
  have "unat w < 2 ^ LENGTH(8)" by (rule unsigned_less)
  then show ?thesis by simp
qed

lemma unat_sat_inc8: "unat (sat_inc8 w) = min 255 (unat w + 1)"
proof (cases "w = 255")
  case True
  then show ?thesis by (simp add: sat_inc8_def)
next
  case False
  have "unat w < 256" by (rule unat8_less)
  moreover have "unat w \<noteq> 255"
  proof
    assume "unat w = 255"
    then have "(word_of_nat (unat w) :: 8 word) = word_of_nat 255" by (simp only:)
    with False show False by simp
  qed
  ultimately have "unat w < 255" by simp
  then have "unat (w + 1) = unat w + 1"
    by (simp add: unat_word_ariths)
  with False \<open>unat w < 255\<close> show ?thesis by (simp add: sat_inc8_def)
qed

lemma dms_limit_step [simp]: "dms_limit (dms_step x d) = dms_limit d"
  by (cases x) (simp_all add: record_beat_def miss_def)

interpretation dms: step_system dms_step "\<lambda>d. dms_limit d = l"
  by unfold_locales simp

lemma dms_missed_fold:
  "unat (dms_missed d) = min 255 n \<Longrightarrow>
     unat (dms_missed (fold dms_step es d)) = min 255 (trailing_misses n es)"
  by (induction n es arbitrary: d rule: trailing_misses.induct)
    (simp_all add: record_beat_def miss_def unat_sat_inc8)

lemma dms_expired_after:
  "is_expired (fold dms_step es (dms_new l)) \<longleftrightarrow> unat l \<le> trailing_misses 0 es"
proof -
  let ?d = "fold dms_step es (dms_new l)"
  have "dms_limit ?d = l" by (rule dms.inv_run) (simp add: dms_new_def)
  moreover have "unat (dms_missed ?d) = min 255 (trailing_misses 0 es)"
    by (rule dms_missed_fold) (simp add: dms_new_def)
  moreover have "unat l \<le> 255" using unat8_less [of l] by simp
  ultimately show ?thesis by (auto simp: is_expired_def word_le_nat_alt)
qed

text \<open>
  The dead-man switch of a runner with the default limit is expired after a sequence of beats
  and misses exactly when the last three events or more are misses, whatever came before and
  however long the sequence is (the saturating counter never wraps back under the limit), and an
  expired switch trips the default breaker whatever the load.
\<close>
theorem dead_man_switch_expiry:
  "(is_expired (fold dms_step es dms_default) \<longleftrightarrow> 3 \<le> trailing_misses 0 es)
   \<and> (is_expired (fold dms_step es dms_default) \<longleftrightarrow>
        should_trip 0 (dms_missed (fold dms_step es dms_default)))"
proof
  show "is_expired (fold dms_step es dms_default) \<longleftrightarrow> 3 \<le> trailing_misses 0 es"
    by (simp add: dms_default_def dms_expired_after)
  have "dms_limit (fold dms_step es dms_default) = 3"
    by (rule dms.inv_run) (simp add: dms_default_def dms_new_def)
  then show "is_expired (fold dms_step es dms_default) \<longleftrightarrow>
     should_trip 0 (dms_missed (fold dms_step es dms_default))"
    by (auto simp: is_expired_def should_trip_def evaluate_def default_thresholds_def not_less)
qed

end
