(* ===== verification/Audit_Trail.thy ===== *)
theory Audit_Trail
  imports Crypto
begin

text \<open>
  \<open>crates/asmodeus-telemetry/src/audit.rs\<close>: the audit record with its canonical bytes and
  signature, and the audit trail (append, update in place, lookup, filtered listing, replay of a
  JSON-lines log). The JSON text of a record and of its evidence is serde_json's: an argument
  \<open>audit_codec\<close> of the definitions that use it.
\<close>

section \<open>The record\<close>

record measurements =
  ms_mttd_ms :: nat
  ms_mttr_ms :: nat
  ms_blue_team_detected :: bool

record run_evidence =
  ev_execution_mode :: string
  ev_feedback_received :: bool
  ev_contained :: bool
  ev_cleanup_confirmed :: bool
  ev_failure_reason :: "string option"

record audit_record =
  ar_run_id :: string
  ar_scenario_id :: string
  ar_scenario_name :: string
  ar_category :: string
  ar_mitre_technique :: string
  ar_mitre_tactic :: string
  ar_severity :: string
  ar_tag :: string
  ar_initiator :: string
  ar_runner_id :: string
  ar_status :: string
  ar_measurements :: measurements
  ar_detection_source :: string
  ar_containment_action :: string
  ar_cleanup_status :: string
  ar_timestamp_utc :: string
  ar_signature_hex :: string
  ar_public_key_hex :: string
  ar_evidence :: "run_evidence option"

text \<open>serde_json's text of an evidence value and of a record, and its parser of records.\<close>

record audit_codec =
  jc_evidence :: "run_evidence \<Rightarrow> string"
  jc_record :: "audit_record \<Rightarrow> string"
  jc_parse :: "string \<Rightarrow> audit_record option"

text \<open>
  What the code relies on: the text of a record is one line, an object, and parses back to the
  record; distinct evidence values have distinct texts.
\<close>

definition codec_ok :: "audit_codec \<Rightarrow> bool" where
  "codec_ok J \<longleftrightarrow>
     inj (jc_evidence J)
     \<and> (\<forall>r. jc_parse J (jc_record J r) = Some r \<and> LF \<notin> set (jc_record J r)
          \<and> (\<exists>s. jc_record J r = CHR ''{'' # s @ [CHR ''}'']))"

definition show_bool :: "bool \<Rightarrow> string" where
  "show_bool b = (if b then ''true'' else ''false'')"

definition canonical_field :: "string \<Rightarrow> bytes" where
  "canonical_field v = show_nat (length v) @ '':'' @ v @ ''|''"

definition canonical_fields :: "audit_codec \<Rightarrow> audit_record \<Rightarrow> string list" where
  "canonical_fields J r =
     [ar_run_id r, ar_scenario_id r, ar_scenario_name r, ar_category r, ar_mitre_technique r,
      ar_mitre_tactic r, ar_severity r, ar_tag r, ar_initiator r, ar_runner_id r, ar_status r,
      show_nat (ms_mttd_ms (ar_measurements r)), show_nat (ms_mttr_ms (ar_measurements r)),
      show_bool (ms_blue_team_detected (ar_measurements r)), ar_detection_source r,
      ar_containment_action r, ar_cleanup_status r, ar_timestamp_utc r]
     @ (case ar_evidence r of None \<Rightarrow> [] | Some e \<Rightarrow> [''evidence-v1'', jc_evidence J e])"

definition canonical_bytes :: "audit_codec \<Rightarrow> audit_record \<Rightarrow> bytes" where
  "canonical_bytes J r = concat (map canonical_field (canonical_fields J r))"

definition has_confirmed_feedback :: "audit_record \<Rightarrow> bool" where
  "has_confirmed_feedback r =
     (case ar_evidence r of None \<Rightarrow> False
      | Some e \<Rightarrow> ev_execution_mode e = ''runner'' \<and> ev_feedback_received e)"

definition ar_is_terminal :: "audit_record \<Rightarrow> bool" where
  "ar_is_terminal r \<longleftrightarrow>
     \<not> (ar_status r = ''QUEUED'' \<or> ar_status r = ''RUNNING'' \<or> ar_status r = ''CANCELLING'')"

definition ar_signed :: "ed25519 \<Rightarrow> audit_codec \<Rightarrow> bytes \<Rightarrow> audit_record \<Rightarrow> sign_error + audit_record" where
  "ar_signed E J secret_key r =
     and_then (sign_message E (canonical_bytes J r) secret_key) (\<lambda>sig.
     and_then (public_key_from_secret_key E secret_key) (\<lambda>pk.
     Inr (r\<lparr>ar_signature_hex := to_hex sig, ar_public_key_hex := to_hex pk\<rparr>)))"

definition verify_with_key :: "ed25519 \<Rightarrow> audit_codec \<Rightarrow> audit_record \<Rightarrow> bytes \<Rightarrow> bool" where
  "verify_with_key E J r trusted_public_key =
     (if ar_signature_hex r = [] then False
      else (case from_hex (ar_signature_hex r) of
              None \<Rightarrow> False
            | Some sig \<Rightarrow> is_valid E (canonical_bytes J r) sig trusted_public_key))"

definition ar_verify :: "ed25519 \<Rightarrow> audit_codec \<Rightarrow> audit_record \<Rightarrow> bool" where
  "ar_verify E J r =
     (if ar_public_key_hex r = [] then False
      else (case from_hex (ar_public_key_hex r) of None \<Rightarrow> False | Some pk \<Rightarrow> verify_with_key E J r pk))"

section \<open>Canonical bytes are unambiguous\<close>

lemma digits_colon_inj:
  assumes "a @ CHR '':'' # x = b @ CHR '':'' # y"
    and "\<And>c. c \<in> set a \<Longrightarrow> is_ascii_digit c" and "\<And>c. c \<in> set b \<Longrightarrow> is_ascii_digit c"
  shows "a = b \<and> x = y"
proof -
  have colon: "\<not> is_ascii_digit (CHR '':'')" by (simp add: is_ascii_digit_def byte_def)
  have "takeWhile is_ascii_digit (a @ CHR '':'' # x) = a" "takeWhile is_ascii_digit (b @ CHR '':'' # y) = b"
    using assms(2,3) colon by (auto simp: takeWhile_tail takeWhile_append2)
  with assms(1) show ?thesis by (metis append_same_eq list.inject same_append_eq)
qed

lemma canonical_field_inj:
  assumes "canonical_field v @ x = canonical_field w @ y"
  shows "v = w \<and> x = y"
proof -
  have "show_nat (length v) = show_nat (length w) \<and> (v @ ''|'' @ x) = (w @ ''|'' @ y)"
    using assms by (intro digits_colon_inj) (auto simp: canonical_field_def dest: show_nat_set)
  then show ?thesis by auto
qed

lemma canonical_field_not_Nil [simp]: "canonical_field v \<noteq> []"
  by (simp add: canonical_field_def)

lemma canonical_fields_inj:
  "concat (map canonical_field xs) = concat (map canonical_field ys) \<Longrightarrow> xs = ys"
proof (induction xs arbitrary: ys)
  case Nil
  then show ?case by (cases ys) auto
next
  case (Cons x xs)
  then obtain y zs where ys: "ys = y # zs" by (cases ys) auto
  with Cons.prems have "canonical_field x @ concat (map canonical_field xs)
      = canonical_field y @ concat (map canonical_field zs)" by simp
  from canonical_field_inj [OF this] Cons.IH ys show ?case by auto
qed

lemma show_bool_inj [simp]: "show_bool a = show_bool b \<longleftrightarrow> a = b"
  by (auto simp: show_bool_def)

text \<open>Everything of a record but its signature and public key.\<close>

definition attested :: "audit_record \<Rightarrow> audit_record" where
  "attested r = r\<lparr>ar_signature_hex := [], ar_public_key_hex := []\<rparr>"

lemma canonical_bytes_attested: "canonical_bytes J (attested r) = canonical_bytes J r"
  by (simp add: canonical_bytes_def canonical_fields_def attested_def)

lemma canonical_bytes_eq_iff:
  assumes "inj (jc_evidence J)"
  shows "canonical_bytes J r = canonical_bytes J s \<longleftrightarrow> attested r = attested s"
proof
  assume "canonical_bytes J r = canonical_bytes J s"
  then have "canonical_fields J r = canonical_fields J s"
    unfolding canonical_bytes_def by (rule canonical_fields_inj)
  with assms show "attested r = attested s"
    by (cases r; cases s; cases "ar_measurements r"; cases "ar_measurements s")
      (auto simp: canonical_fields_def attested_def inj_eq split: option.splits)
next
  assume "attested r = attested s"
  then show "canonical_bytes J r = canonical_bytes J s"
    using canonical_bytes_attested [of J r] canonical_bytes_attested [of J s] by simp
qed

lemma ar_signed_Inr:
  "ar_signed E J k r = Inr r' \<longleftrightarrow> ed_sk_ok E k \<and>
     r' = r\<lparr>ar_signature_hex := to_hex (ed_sign E (canonical_bytes J r) k),
            ar_public_key_hex := to_hex (ed_public E k)\<rparr>"
  by (auto simp: ar_signed_def sign_message_def public_key_from_secret_key_def)

lemma ar_signed_attested: "ar_signed E J k r = Inr r' \<Longrightarrow> attested r' = attested r"
  by (auto simp: ar_signed_Inr attested_def)

lemma signed_record_verifies:
  assumes "ed_correct E" and "ar_signed E J k r = Inr r'"
  shows "verify_with_key E J r' (ed_public E k)"
proof -
  have "canonical_bytes J r' = canonical_bytes J r"
    using assms(2) ar_signed_attested canonical_bytes_attested by metis
  with assms show ?thesis
    by (auto simp: ar_signed_Inr verify_with_key_def from_hex_to_hex is_valid_iff ed_correct_def)
qed

text \<open>
  C38: The signed preimage of an audit record is unambiguous: two records have the same canonical
  bytes exactly when they agree in every field but the signature and the public key, so no choice of
  field values (a separator inside a value, an optional evidence block) can make one record pass
  for another.
\<close>
theorem canonical_bytes_injective:
  assumes "codec_ok J"
  shows "canonical_bytes J r = canonical_bytes J s \<longleftrightarrow> attested r = attested s"
  using assms by (simp add: canonical_bytes_eq_iff codec_ok_def)

text \<open>
  Signing then verifying succeeds: the record a well-formed operator key signs verifies under the
  trusted public key and under the key embedded in it, and signing changes no attested field.
\<close>
theorem signed_record_is_verified:
  assumes "ed_correct E" and "ar_signed E J k r = Inr r'" and "ed_public E k \<noteq> []"
  shows "verify_with_key E J r' (ed_public E k) \<and> ar_verify E J r' \<and> attested r' = attested r"
proof -
  note v = signed_record_verifies [OF assms(1,2)]
  have "from_hex (ar_public_key_hex r') = Some (ed_public E k)" "ar_public_key_hex r' \<noteq> []"
    using assms(2,3) by (auto simp: ar_signed_Inr from_hex_to_hex)
  with v ar_signed_attested [OF assms(2)] show ?thesis by (simp add: ar_verify_def)
qed

section \<open>The trail\<close>

type_synonym audit_trail = "audit_record list"

definition trail_append :: "audit_trail \<Rightarrow> audit_record \<Rightarrow> audit_trail" where
  "trail_append t r = t @ [r]"

definition trail_get :: "audit_trail \<Rightarrow> string \<Rightarrow> audit_record option" where
  "trail_get t run_id = find (\<lambda>r. ar_run_id r = run_id) t"

fun position :: "('a \<Rightarrow> bool) \<Rightarrow> 'a list \<Rightarrow> nat option" where
  "position p [] = None"
| "position p (x # xs) = (if p x then Some 0 else map_option Suc (position p xs))"

definition trail_update :: "audit_trail \<Rightarrow> string \<Rightarrow> audit_record \<Rightarrow> audit_trail \<times> bool" where
  "trail_update t run_id updated =
     (case position (\<lambda>r. ar_run_id r = run_id) t of
        Some pos \<Rightarrow> (t[pos := updated], True)
      | None \<Rightarrow> (t, False))"

definition trail_list :: "audit_trail \<Rightarrow> nat option \<Rightarrow> string option \<Rightarrow> string option \<Rightarrow> audit_record list" where
  "trail_list t limit scenario_id status =
     (let sel = filter (\<lambda>r.
          (case scenario_id of Some scen \<Rightarrow> eq_ignore_ascii_case (ar_scenario_id r) scen | None \<Rightarrow> True)
          \<and> (case status of Some st \<Rightarrow> eq_ignore_ascii_case (ar_status r) st | None \<Rightarrow> True)) (rev t)
      in case limit of Some lim \<Rightarrow> take lim sel | None \<Rightarrow> sel)"

definition export_jsonl :: "audit_codec \<Rightarrow> audit_trail \<Rightarrow> string" where
  "export_jsonl J t = concat (map (\<lambda>r. jc_record J r @ [LF]) t)"

text \<open>The loop of \<open>from_jsonl\<close>: the records and the position of each run's first revision.\<close>

fun replay :: "audit_codec \<Rightarrow> string list \<Rightarrow> audit_trail \<Rightarrow> (string \<rightharpoonup> nat) \<Rightarrow> string + audit_trail" where
  "replay J [] records positions = Inr records"
| "replay J (line # ls) records positions =
     (let trimmed = trim line in
      if trimmed = [] then replay J ls records positions
      else (case jc_parse J trimmed of
              None \<Rightarrow> Inl ''invalid data''
            | Some rec \<Rightarrow>
                (case positions (ar_run_id rec) of
                   Some pos \<Rightarrow> replay J ls (records[pos := rec]) positions
                 | None \<Rightarrow> replay J ls (records @ [rec]) (positions(ar_run_id rec \<mapsto> length records)))))"

definition from_jsonl :: "audit_codec \<Rightarrow> string \<Rightarrow> string + audit_trail" where
  "from_jsonl J text = replay J (str_lines text) [] (\<lambda>_. None)"

section \<open>Replay is the last revision of each run, in order of first appearance\<close>

definition upsert :: "audit_record \<Rightarrow> audit_trail \<Rightarrow> audit_trail" where
  "upsert r t =
     (case position (\<lambda>x. ar_run_id x = ar_run_id r) t of Some pos \<Rightarrow> t[pos := r] | None \<Rightarrow> t @ [r])"

lemma position_None_iff: "position p xs = None \<longleftrightarrow> (\<forall>x \<in> set xs. \<not> p x)"
  by (induction xs) auto

lemma position_SomeD:
  "position p xs = Some i \<Longrightarrow> i < length xs \<and> p (xs ! i) \<and> (\<forall>j < i. \<not> p (xs ! j))"
proof (induction xs arbitrary: i)
  case (Cons x xs)
  then show ?case by (cases i) (auto split: if_splits simp: less_Suc_eq_0_disj)
qed simp

lemma position_append:
  "position p (xs @ ys) =
     (case position p xs of Some i \<Rightarrow> Some i | None \<Rightarrow> map_option ((+) (length xs)) (position p ys))"
  by (cases "position p ys"; induction xs) (auto split: option.splits)

lemma find_append: "find p (xs @ ys) = (case find p xs of None \<Rightarrow> find p ys | Some x \<Rightarrow> Some x)"
  by (induction xs) auto

lemma find_position: "find p xs = map_option ((!) xs) (position p xs)"
  by (induction xs) (auto simp: option.map_comp comp_def)

lemma position_map: "position (\<lambda>x. f x = k) xs = position (\<lambda>y. y = k) (map f xs)"
  by (induction xs) auto

lemma position_map_cong: "map f xs = map f ys \<Longrightarrow> position (\<lambda>x. f x = k) xs = position (\<lambda>x. f x = k) ys"
  using position_map [of f k xs] position_map [of f k ys] by simp

lemma map_list_update_same: "i < length xs \<Longrightarrow> f y = f (xs ! i) \<Longrightarrow> map f (xs[i := y]) = map f xs"
  by (simp add: map_update list_update_same_conv)

lemma upsert_ids:
  "map ar_run_id (upsert r t) =
     (if ar_run_id r \<in> ar_run_id ` set t then map ar_run_id t else map ar_run_id t @ [ar_run_id r])"
proof (cases "position (\<lambda>x. ar_run_id x = ar_run_id r) t")
  case None
  then have "\<forall>x \<in> set t. ar_run_id x \<noteq> ar_run_id r" by (simp add: position_None_iff)
  with None show ?thesis by (auto simp: upsert_def)
next
  case (Some i)
  then have i: "i < length t" "ar_run_id (t ! i) = ar_run_id r" using position_SomeD by fastforce+
  then have "ar_run_id r \<in> ar_run_id ` set t" by (metis image_eqI nth_mem)
  with Some i show ?thesis by (simp add: upsert_def map_list_update_same)
qed

lemma upsert_distinct: "distinct (map ar_run_id t) \<Longrightarrow> distinct (map ar_run_id (upsert r t))"
  by (auto simp: upsert_ids)

lemma upsert_get:
  "trail_get (upsert r t) k = (if ar_run_id r = k then Some r else trail_get t k)"
proof (cases "position (\<lambda>x. ar_run_id x = ar_run_id r) t")
  case None
  then have "\<forall>x \<in> set t. ar_run_id x \<noteq> ar_run_id r" by (simp add: position_None_iff)
  then have "find (\<lambda>x. ar_run_id x = ar_run_id r) t = None" by (simp add: find_None_iff)
  with None show ?thesis by (auto simp: upsert_def trail_get_def find_append split: option.splits)
next
  case (Some i)
  then have i: "i < length t" "ar_run_id (t ! i) = ar_run_id r" "\<forall>j < i. ar_run_id (t ! j) \<noteq> ar_run_id r"
    using position_SomeD by fastforce+
  have ids: "map ar_run_id (t[i := r]) = map ar_run_id t" using i by (simp add: map_list_update_same)
  have pos: "position (\<lambda>x. ar_run_id x = k) (t[i := r]) = position (\<lambda>x. ar_run_id x = k) t"
    using ids by (rule position_map_cong)
  show ?thesis
  proof (cases "ar_run_id r = k")
    case True
    with Some i pos show ?thesis by (simp add: upsert_def trail_get_def find_position)
  next
    case False
    then have "position (\<lambda>x. ar_run_id x = k) t \<noteq> Some i" using i position_SomeD by fastforce
    with Some pos False show ?thesis
      by (cases "position (\<lambda>x. ar_run_id x = k) t") (auto simp: upsert_def trail_get_def find_position)
  qed
qed

definition pos_map :: "audit_trail \<Rightarrow> (string \<rightharpoonup> nat)" where
  "pos_map t k = position (\<lambda>x. ar_run_id x = k) t"

text \<open>The records a log text holds, line by line; the fold that the loop computes.\<close>

fun parsed_lines :: "audit_codec \<Rightarrow> string list \<Rightarrow> string + audit_record list" where
  "parsed_lines J [] = Inr []"
| "parsed_lines J (l # ls) =
     (if trim l = [] then parsed_lines J ls
      else (case jc_parse J (trim l) of
              None \<Rightarrow> Inl ''invalid data''
            | Some r \<Rightarrow> and_then (parsed_lines J ls) (\<lambda>rs. Inr (r # rs))))"

lemma replay_fold:
  "replay J ls t (pos_map t) = and_then (parsed_lines J ls) (\<lambda>rs. Inr (fold upsert rs t))"
proof (induction ls arbitrary: t)
  case Nil
  then show ?case by simp
next
  case (Cons l ls)
  show ?case
  proof (cases "trim l = []")
    case True
    then show ?thesis using Cons by simp
  next
    case False
    show ?thesis
    proof (cases "jc_parse J (trim l)")
      case None
      with False show ?thesis by simp
    next
      case (Some r)
      have step: "replay J (l # ls) t (pos_map t) = replay J ls (upsert r t) (pos_map (upsert r t))"
      proof (cases "pos_map t (ar_run_id r)")
        case None
        then have "pos_map (upsert r t) = (pos_map t)(ar_run_id r \<mapsto> length t)"
          by (auto simp: pos_map_def upsert_def position_append fun_eq_iff split: option.splits)
        with None False Some show ?thesis by (simp add: upsert_def pos_map_def Let_def)
      next
        case (Some i)
        then have "i < length t" "ar_run_id (t ! i) = ar_run_id r"
          using position_SomeD by (fastforce simp: pos_map_def)+
        then have "map ar_run_id (upsert r t) = map ar_run_id t"
          using Some by (simp add: upsert_def pos_map_def map_list_update_same)
        then have "pos_map (upsert r t) = pos_map t"
          by (auto simp: pos_map_def fun_eq_iff intro: position_map_cong)
        with Some False \<open>jc_parse J (trim l) = Some r\<close> show ?thesis
          by (simp add: upsert_def pos_map_def Let_def)
      qed
      show ?thesis
        unfolding step Cons.IH using Some False by (cases "parsed_lines J ls") simp_all
    qed
  qed
qed

lemma from_jsonl_fold:
  "from_jsonl J s = and_then (parsed_lines J (str_lines s)) (\<lambda>rs. Inr (fold upsert rs []))"
proof -
  have "pos_map [] = (\<lambda>_. None)" by (simp add: pos_map_def fun_eq_iff)
  then show ?thesis using replay_fold [of J "str_lines s" "[]"] by (simp add: from_jsonl_def)
qed

lemma codec_line:
  assumes "codec_ok J"
  shows "jc_parse J (jc_record J r) = Some r" and "LF \<notin> set (jc_record J r)"
    and "trim (jc_record J r) = jc_record J r" and "jc_record J r \<noteq> []"
    and "strip_cr (jc_record J r) = jc_record J r"
proof -
  from assms obtain s where s: "jc_record J r = CHR ''{'' # s @ [CHR ''}'']"
    and "jc_parse J (jc_record J r) = Some r" "LF \<notin> set (jc_record J r)"
    unfolding codec_ok_def by blast
  then show "jc_parse J (jc_record J r) = Some r" "LF \<notin> set (jc_record J r)" by blast+
  have "trim (CHR ''{'' # s @ [CHR ''}'']) = CHR ''{'' # s @ [CHR ''}'']"
    by (rule trim_framed) (simp_all add: byte_def)
  then show "trim (jc_record J r) = jc_record J r" using s by simp
  from s show "jc_record J r \<noteq> []" "strip_cr (jc_record J r) = jc_record J r"
    by (simp_all add: strip_cr_def)
qed

lemma parsed_lines_append:
  "parsed_lines J (xs @ ys) =
     and_then (parsed_lines J xs) (\<lambda>as. and_then (parsed_lines J ys) (\<lambda>bs. Inr (as @ bs)))"
proof (induction xs)
  case Nil
  then show ?case by (cases "parsed_lines J ys") simp_all
next
  case (Cons x xs)
  then show ?case
    by (cases "jc_parse J (trim x)"; cases "parsed_lines J xs"; cases "parsed_lines J ys") simp_all
qed

text \<open>Appending one line to a log that ends at a line boundary replays one more revision.\<close>

lemma from_jsonl_snoc:
  assumes "codec_ok J" and "s = [] \<or> last s = LF" and "from_jsonl J s = Inr t"
  shows "from_jsonl J (s @ jc_record J r @ [LF]) = Inr (upsert r t)"
  using assms(3) str_lines_snoc [OF codec_line(2) [OF assms(1)] assms(2), of r] codec_line [OF assms(1), of r]
  by (auto simp: from_jsonl_fold parsed_lines_append and_then_Inl)

lemma export_jsonl_end: "export_jsonl J t = [] \<or> last (export_jsonl J t) = LF"
  by (induction t) (auto simp: export_jsonl_def)

lemma from_jsonl_export:
  assumes "codec_ok J"
  shows "from_jsonl J (export_jsonl J rs) = Inr (fold upsert rs [])"
proof (induction rs rule: rev_induct)
  case Nil
  then show ?case by (simp add: from_jsonl_fold export_jsonl_def)
next
  case (snoc r rs)
  then show ?case
    using from_jsonl_snoc [OF assms export_jsonl_end snoc, of r] by (simp add: export_jsonl_def)
qed

lemma trail_get_Nil: "trail_get [] k = None"
  by (simp add: trail_get_def)

lemma fold_upsert_get:
  "trail_get (fold upsert rs t) k =
     (case find (\<lambda>r. ar_run_id r = k) (rev rs) of Some r \<Rightarrow> Some r | None \<Rightarrow> trail_get t k)"
  by (induction rs rule: rev_induct) (auto simp: upsert_get split: option.splits)

lemma fold_upsert_ids: "map ar_run_id (fold upsert rs []) = rev (remdups (rev (map ar_run_id rs)))"
proof (induction rs rule: rev_induct)
  case (snoc r rs)
  have "ar_run_id ` set (fold upsert rs []) = set (map ar_run_id (fold upsert rs []))" by simp
  also have "\<dots> = set (map ar_run_id rs)" by (subst snoc.IH) simp
  finally show ?case using snoc.IH by (simp add: upsert_ids)
qed simp

lemma upsert_fresh: "ar_run_id r \<notin> ar_run_id ` set t \<Longrightarrow> upsert r t = t @ [r]"
proof -
  assume "ar_run_id r \<notin> ar_run_id ` set t"
  then have "position (\<lambda>x. ar_run_id x = ar_run_id r) t = None"
    unfolding position_None_iff by (metis image_eqI)
  then show ?thesis by (simp add: upsert_def)
qed

lemma fold_upsert_distinct: "distinct (map ar_run_id rs) \<Longrightarrow> fold upsert rs [] = rs"
  by (induction rs rule: rev_induct) (auto simp: upsert_fresh)

text \<open>
  C40: Replaying a log restores the trail: the text written from any sequence of revisions loads, the
  last revision of each run wins, every run keeps the position of its first revision, and a trail
  with distinct run identifiers is read back exactly as exported.
\<close>
theorem jsonl_roundtrip:
  assumes "codec_ok J"
  shows "\<exists>t. from_jsonl J (export_jsonl J rs) = Inr t
    \<and> trail_get t k = find (\<lambda>r. ar_run_id r = k) (rev rs)
    \<and> map ar_run_id t = rev (remdups (rev (map ar_run_id rs)))
    \<and> (distinct (map ar_run_id rs) \<longrightarrow> t = rs)"
proof (intro exI conjI impI)
  show "from_jsonl J (export_jsonl J rs) = Inr (fold upsert rs [])" by (rule from_jsonl_export [OF assms])
  show "trail_get (fold upsert rs []) k = find (\<lambda>r. ar_run_id r = k) (rev rs)"
    by (simp add: fold_upsert_get trail_get_Nil split: option.splits)
  show "map ar_run_id (fold upsert rs []) = rev (remdups (rev (map ar_run_id rs)))"
    by (rule fold_upsert_ids)
  show "distinct (map ar_run_id rs) \<Longrightarrow> fold upsert rs [] = rs" by (rule fold_upsert_distinct)
qed

end
