(* ===== verification/Aggregates.thy ===== *)
theory Aggregates
  imports Audit_Trail
begin

text \<open>
  \<open>crates/asmodeus-telemetry/src/lib.rs\<close>: the rolling aggregate behind the metrics endpoint. Its
  counters are \<open>u64\<close> and its sums \<open>u128\<close>; they grow by one record at a time and are kept here as
  \<open>nat\<close> (a counter would have to pass \<open>2^64\<close> runs to wrap), with the saturating subtraction of the
  source as the truncated one of \<open>nat\<close>. The percentages, computed in single precision, are in \<open>Resilience\<close>. The main lemma: updating one run in place keeps the aggregate equal to the one
  recomputed from the records.
\<close>

record aggregate =
  ag_scenarios_executed :: nat
  ag_detected :: nat
  ag_feedback_received :: nat
  ag_simulated_runs :: nat
  ag_pending_feedback :: nat
  ag_contained :: nat
  ag_detection_samples :: nat
  ag_containment_samples :: nat
  ag_sum_mttd_ms :: nat
  ag_sum_mttr_ms :: nat

definition ag_default :: aggregate where
  "ag_default = \<lparr>ag_scenarios_executed = 0, ag_detected = 0, ag_feedback_received = 0,
     ag_simulated_runs = 0, ag_pending_feedback = 0, ag_contained = 0, ag_detection_samples = 0,
     ag_containment_samples = 0, ag_sum_mttd_ms = 0, ag_sum_mttr_ms = 0\<rparr>"

definition upd :: "bool \<Rightarrow> nat \<Rightarrow> nat \<Rightarrow> nat" where
  "upd add a b = (if add then a + b else a - b)"

definition combine :: "aggregate \<Rightarrow> aggregate \<Rightarrow> bool \<Rightarrow> aggregate" where
  "combine a b add =
     \<lparr>ag_scenarios_executed = upd add (ag_scenarios_executed a) (ag_scenarios_executed b),
      ag_detected = upd add (ag_detected a) (ag_detected b),
      ag_feedback_received = upd add (ag_feedback_received a) (ag_feedback_received b),
      ag_simulated_runs = upd add (ag_simulated_runs a) (ag_simulated_runs b),
      ag_pending_feedback = upd add (ag_pending_feedback a) (ag_pending_feedback b),
      ag_contained = upd add (ag_contained a) (ag_contained b),
      ag_detection_samples = upd add (ag_detection_samples a) (ag_detection_samples b),
      ag_containment_samples = upd add (ag_containment_samples a) (ag_containment_samples b),
      ag_sum_mttd_ms = upd add (ag_sum_mttd_ms a) (ag_sum_mttd_ms b),
      ag_sum_mttr_ms = upd add (ag_sum_mttr_ms a) (ag_sum_mttr_ms b)\<rparr>"

definition contribution :: "audit_record \<Rightarrow> aggregate" where
  "contribution r =
     (if \<not> ar_is_terminal r then ag_default
      else (let v = ag_default\<lparr>ag_scenarios_executed := 1\<rparr> in
        if (case ar_evidence r of None \<Rightarrow> False | Some e \<Rightarrow> ev_execution_mode e = ''simulated'')
        then v\<lparr>ag_simulated_runs := 1\<rparr>
        else if has_confirmed_feedback r then
          (let v1 = v\<lparr>ag_feedback_received := 1\<rparr>;
               v2 = (if ms_blue_team_detected (ar_measurements r)
                     then v1\<lparr>ag_detected := 1, ag_detection_samples := 1,
                             ag_sum_mttd_ms := ms_mttd_ms (ar_measurements r)\<rparr> else v1)
           in if (case ar_evidence r of None \<Rightarrow> False | Some e \<Rightarrow> ev_contained e)
              then v2\<lparr>ag_contained := 1, ag_containment_samples := 1,
                      ag_sum_mttr_ms := ms_mttr_ms (ar_measurements r)\<rparr> else v2)
        else v\<lparr>ag_pending_feedback := 1\<rparr>))"

definition record_run :: "aggregate \<Rightarrow> audit_record \<Rightarrow> aggregate" where
  "record_run a r = combine a (contribution r) True"

definition update_run :: "aggregate \<Rightarrow> audit_record \<Rightarrow> audit_record \<Rightarrow> aggregate" where
  "update_run a old new = record_run (combine a (contribution old) False) new"

definition from_records :: "audit_record list \<Rightarrow> aggregate" where
  "from_records rs = foldl record_run ag_default rs"

definition ag_record :: "aggregate \<Rightarrow> measurements \<Rightarrow> aggregate" where
  "ag_record a m = a\<lparr>ag_scenarios_executed := ag_scenarios_executed a + 1,
     ag_feedback_received := ag_feedback_received a + 1,
     ag_detection_samples := ag_detection_samples a + 1,
     ag_containment_samples := ag_containment_samples a + 1,
     ag_contained := ag_contained a + 1,
     ag_detected := (if ms_blue_team_detected m then ag_detected a + 1 else ag_detected a),
     ag_sum_mttd_ms := ag_sum_mttd_ms a + ms_mttd_ms m,
     ag_sum_mttr_ms := ag_sum_mttr_ms a + ms_mttr_ms m\<rparr>"

definition update_measurement :: "aggregate \<Rightarrow> measurements \<Rightarrow> measurements \<Rightarrow> aggregate" where
  "update_measurement a old new =
     a\<lparr>ag_detected :=
         (if ms_blue_team_detected old \<noteq> ms_blue_team_detected new
          then (if ms_blue_team_detected new then ag_detected a + 1
                else if ag_detected a > 0 then ag_detected a - 1 else ag_detected a)
          else ag_detected a),
       ag_sum_mttd_ms := ag_sum_mttd_ms a - ms_mttd_ms old + ms_mttd_ms new,
       ag_sum_mttr_ms := ag_sum_mttr_ms a - ms_mttr_ms old + ms_mttr_ms new\<rparr>"

text \<open>\<open>as u64\<close> of a \<open>u128\<close> quotient keeps the low 64 bits.\<close>

definition mean_mttd_ms :: "aggregate \<Rightarrow> nat" where
  "mean_mttd_ms a =
     (if ag_detection_samples a = 0 then 0
      else (ag_sum_mttd_ms a div ag_detection_samples a) mod 2 ^ 64)"

definition mean_mttr_ms :: "aggregate \<Rightarrow> nat" where
  "mean_mttr_ms a =
     (if ag_containment_samples a = 0 then 0
      else (ag_sum_mttr_ms a div ag_containment_samples a) mod 2 ^ 64)"

section \<open>The aggregate is a sum over the records\<close>

lemma combine_sel [simp]:
  "ag_scenarios_executed (combine a b add) = upd add (ag_scenarios_executed a) (ag_scenarios_executed b)"
  "ag_detected (combine a b add) = upd add (ag_detected a) (ag_detected b)"
  "ag_feedback_received (combine a b add) = upd add (ag_feedback_received a) (ag_feedback_received b)"
  "ag_simulated_runs (combine a b add) = upd add (ag_simulated_runs a) (ag_simulated_runs b)"
  "ag_pending_feedback (combine a b add) = upd add (ag_pending_feedback a) (ag_pending_feedback b)"
  "ag_contained (combine a b add) = upd add (ag_contained a) (ag_contained b)"
  "ag_detection_samples (combine a b add) = upd add (ag_detection_samples a) (ag_detection_samples b)"
  "ag_containment_samples (combine a b add) = upd add (ag_containment_samples a) (ag_containment_samples b)"
  "ag_sum_mttd_ms (combine a b add) = upd add (ag_sum_mttd_ms a) (ag_sum_mttd_ms b)"
  "ag_sum_mttr_ms (combine a b add) = upd add (ag_sum_mttr_ms a) (ag_sum_mttr_ms b)"
  by (simp_all add: combine_def)

lemma upd_simps [simp]: "upd True a b = a + b" "upd False a b = a - b"
  by (simp_all add: upd_def)

text \<open>A counter of the aggregate: a selector that \<open>combine\<close> updates on its own.\<close>

definition counter :: "(aggregate \<Rightarrow> nat) \<Rightarrow> bool" where
  "counter f \<longleftrightarrow> f ag_default = 0 \<and> (\<forall>a b add. f (combine a b add) = upd add (f a) (f b))"

lemma counters:
  "counter ag_scenarios_executed" "counter ag_detected" "counter ag_feedback_received"
  "counter ag_simulated_runs" "counter ag_pending_feedback" "counter ag_contained"
  "counter ag_detection_samples" "counter ag_containment_samples"
  "counter ag_sum_mttd_ms" "counter ag_sum_mttr_ms"
  by (simp_all add: counter_def ag_default_def)

lemma aggregate_eqI:
  "(\<And>f. counter f \<Longrightarrow> f a = f b) \<Longrightarrow> (a :: aggregate) = b"
  using counters by (intro aggregate.equality) simp_all

lemma counter_from_records:
  assumes "counter f"
  shows "f (from_records rs) = sum_list (map (f \<circ> contribution) rs)"
  using assms
  by (induction rs rule: rev_induct) (simp_all add: from_records_def record_run_def counter_def)

lemma from_records_snoc: "from_records (rs @ [r]) = record_run (from_records rs) r"
  by (simp add: from_records_def)

lemma from_records_update:
  assumes "i < length rs"
  shows "from_records (rs[i := r]) = update_run (from_records rs) (rs ! i) r"
proof (rule aggregate_eqI)
  fix f :: "aggregate \<Rightarrow> nat"
  assume f: "counter f"
  let ?c = "map (f \<circ> contribution) rs"
  have "?c ! i \<le> sum_list ?c" 
    using assms by (intro member_le_sum_list nth_mem) simp_all
  then have "sum_list (?c[i := f (contribution r)]) = sum_list ?c - ?c ! i + f (contribution r)"
    using assms by (subst sum_list_update) auto
  then show "f (from_records (rs[i := r])) = f (update_run (from_records rs) (rs ! i) r)"
    using f assms
    by (simp add: counter_from_records map_update update_run_def record_run_def)
      (simp add: counter_def counter_from_records [OF f])
qed

text \<open>The counters of one run, and of a journal.\<close>

lemma contribution_parts:
  "ag_scenarios_executed (contribution r) =
     ag_simulated_runs (contribution r) + (ag_feedback_received (contribution r) + ag_pending_feedback (contribution r))"
  "ag_detected (contribution r) = ag_detection_samples (contribution r)"
  "ag_contained (contribution r) = ag_containment_samples (contribution r)"
  "ag_detected (contribution r) \<le> ag_feedback_received (contribution r)"
  "ag_contained (contribution r) \<le> ag_feedback_received (contribution r)"
  by (simp_all add: contribution_def Let_def ag_default_def split: option.splits)

lemma contribution_sums:
  "ag_sum_mttd_ms (contribution r) \<le> ms_mttd_ms (ar_measurements r) * ag_detection_samples (contribution r)"
  "ag_sum_mttr_ms (contribution r) \<le> ms_mttr_ms (ar_measurements r) * ag_containment_samples (contribution r)"
  by (simp_all add: contribution_def Let_def ag_default_def split: option.splits)

lemma sum_list_le: "(\<And>x. x \<in> set xs \<Longrightarrow> f x \<le> (g x :: nat)) \<Longrightarrow> sum_list (map f xs) \<le> sum_list (map g xs)"
  by (induction xs) (auto intro!: add_mono)

lemma mean_le:
  assumes "s \<le> M * n" and "M < 2 ^ 64"
  shows "(if n = 0 then 0 else (s div n) mod 2 ^ 64) \<le> (M :: nat)"
proof (cases "n = 0")
  case False
  then have "s div n \<le> M" using assms(1) by (metis div_le_mono nonzero_mult_div_cancel_right)
  with assms(2) False show ?thesis by simp
qed simp

lemma mean_bound:
  assumes "counter f" and "counter n"
    and "\<And>r. r \<in> set rs \<Longrightarrow> f (contribution r) \<le> t r * n (contribution r)" and "\<And>r. r \<in> set rs \<Longrightarrow> t r \<le> M"
  shows "f (from_records rs) \<le> M * n (from_records rs)"
proof -
  have "f (contribution r) \<le> M * n (contribution r)" if "r \<in> set rs" for r
    using assms(3,4) [OF that] by (meson le_trans mult_le_mono1)
  then have "sum_list (map (f \<circ> contribution) rs) \<le> sum_list (map (\<lambda>r. M * n (contribution r)) rs)"
    by (intro sum_list_le) simp
  then show ?thesis using assms(1,2) by (simp add: counter_from_records sum_list_const_mult comp_def)
qed

text \<open>
  The metrics of any journal are consistent: the executed runs split into simulated runs, runs
  with confirmed feedback and runs still pending; detection and containment are counted only on
  confirmed feedback; and the mean time to detect never exceeds the slowest one recorded, so a
  record of a simulated or unfinished run cannot move it.
\<close>
theorem aggregate_consistent:
  assumes "\<forall>r \<in> set rs. ms_mttd_ms (ar_measurements r) \<le> M" and "M < 2 ^ 64"
  shows "ag_scenarios_executed (from_records rs) =
      ag_simulated_runs (from_records rs) + ag_feedback_received (from_records rs)
        + ag_pending_feedback (from_records rs)
    \<and> ag_detected (from_records rs) = ag_detection_samples (from_records rs)
    \<and> ag_contained (from_records rs) = ag_containment_samples (from_records rs)
    \<and> ag_detected (from_records rs) \<le> ag_feedback_received (from_records rs)
    \<and> ag_contained (from_records rs) \<le> ag_feedback_received (from_records rs)
    \<and> mean_mttd_ms (from_records rs) \<le> M"
proof (intro conjI)
  note c = counter_from_records [OF counters(1)] counter_from_records [OF counters(2)]
    counter_from_records [OF counters(3)] counter_from_records [OF counters(4)]
    counter_from_records [OF counters(5)] counter_from_records [OF counters(6)]
    counter_from_records [OF counters(7)] counter_from_records [OF counters(8)]
  show "ag_scenarios_executed (from_records rs) = ag_simulated_runs (from_records rs)
      + ag_feedback_received (from_records rs) + ag_pending_feedback (from_records rs)"
    unfolding c by (induction rs) (simp_all add: contribution_parts)
  show "ag_detected (from_records rs) = ag_detection_samples (from_records rs)"
    "ag_contained (from_records rs) = ag_containment_samples (from_records rs)"
    unfolding c by (simp_all add: comp_def contribution_parts)
  show "ag_detected (from_records rs) \<le> ag_feedback_received (from_records rs)"
    "ag_contained (from_records rs) \<le> ag_feedback_received (from_records rs)"
    unfolding c using contribution_parts(4,5) by (auto intro!: sum_list_le)
  have "ag_sum_mttd_ms (from_records rs) \<le> M * ag_detection_samples (from_records rs)"
    using mean_bound [OF counters(9) counters(7), of rs "\<lambda>r. ms_mttd_ms (ar_measurements r)" M]
      contribution_sums(1) assms(1) by blast
  then show "mean_mttd_ms (from_records rs) \<le> M"
    unfolding mean_mttd_ms_def using assms(2) by (rule mean_le)
qed

end
