(* ===== verification/Example_Codec.thy ===== *)
theory Example_Codec
  imports Audit_Trail
begin

text \<open>
  A concrete \<open>audit_codec\<close> that satisfies \<open>codec_ok\<close>: a record is written as one brace-framed line of
  decimal numbers, the bytes of its fields. It stands in for serde_json where a witness needs a
  codec to evaluate.
\<close>

section \<open>Numbers\<close>

definition nums_text :: "nat list \<Rightarrow> string" where
  "nums_text ns = concat (map (\<lambda>n. show_nat n @ '' '') ns)"

definition text_nums :: "string \<Rightarrow> nat list" where
  "text_nums s = map (\<lambda>d. case digits_val 10 0 d of None \<Rightarrow> 0 | Some n \<Rightarrow> n) (butlast (split_on CHR '' '' s))"

lemma show_nat_no: "\<not> is_ascii_digit c \<Longrightarrow> c \<notin> set (show_nat n)"
  using show_nat_set by blast

lemma split_nums_text: "split_on CHR '' '' (nums_text ns) = map show_nat ns @ [[]]"
proof (induction ns)
  case Nil
  then show ?case by (simp add: nums_text_def)
next
  case (Cons n ns)
  have "CHR '' '' \<notin> set (show_nat n)" by (rule show_nat_no) (simp add: is_ascii_digit_def byte_def)
  then have "split_on CHR '' '' (show_nat n @ CHR '' '' # nums_text ns) = show_nat n # split_on CHR '' '' (nums_text ns)"
    by (simp add: split_on_append_sep split_on_no_sep)
  with Cons show ?case by (simp add: nums_text_def)
qed

lemma text_nums_text: "text_nums (nums_text ns) = ns"
  by (simp add: text_nums_def split_nums_text butlast_append show_nat_digits comp_def)

lemma nums_text_no_lf: "LF \<notin> set (nums_text ns)"
proof
  assume "LF \<in> set (nums_text ns)"
  then obtain n where "LF \<in> set (show_nat n)" by (auto simp: nums_text_def split: if_splits)
  then show False using show_nat_no [of LF n] by (simp add: is_ascii_digit_def byte_def)
qed

section \<open>Strings\<close>

definition strs_nums :: "string list \<Rightarrow> nat list" where
  "strs_nums ss = concat (map (\<lambda>s. map (\<lambda>c. byte c + 1) s @ [0]) ss)"

fun nums_strs :: "string \<Rightarrow> nat list \<Rightarrow> string list" where
  "nums_strs acc [] = []"
| "nums_strs acc (n # ns) = (if n = 0 then rev acc # nums_strs [] ns else nums_strs (chr (n - 1) # acc) ns)"

lemma nums_strs_append: "nums_strs acc (map (\<lambda>c. byte c + 1) s @ [0] @ ns) = (rev acc @ s) # nums_strs [] ns"
  by (induction s arbitrary: acc) simp_all

lemma nums_strs_nums: "nums_strs [] (strs_nums ss) = ss"
proof (induction ss)
  case (Cons s ss)
  then show ?case using nums_strs_append [of "[]" s "strs_nums ss"] by (simp add: strs_nums_def)
qed (simp add: strs_nums_def)

section \<open>Evidence and records\<close>

definition evidence_strs :: "run_evidence \<Rightarrow> string list" where
  "evidence_strs e =
     [ev_execution_mode e, show_bool (ev_feedback_received e), show_bool (ev_contained e),
      show_bool (ev_cleanup_confirmed e)]
     @ (case ev_failure_reason e of None \<Rightarrow> [] | Some r \<Rightarrow> [r])"

definition strs_evidence :: "string list \<Rightarrow> run_evidence" where
  "strs_evidence ss = \<lparr>ev_execution_mode = ss ! 0, ev_feedback_received = (ss ! 1 = ''true''),
     ev_contained = (ss ! 2 = ''true''), ev_cleanup_confirmed = (ss ! 3 = ''true''),
     ev_failure_reason = (if length ss = 4 then None else Some (ss ! 4))\<rparr>"

lemma show_bool_true [simp]: "show_bool b = ''true'' \<longleftrightarrow> b"
  by (simp add: show_bool_def)

lemma strs_evidence_strs: "strs_evidence (evidence_strs e) = e"
  by (cases e) (simp add: strs_evidence_def evidence_strs_def split: option.splits)

definition record_strs :: "audit_record \<Rightarrow> string list" where
  "record_strs r =
     [ar_run_id r, ar_scenario_id r, ar_scenario_name r, ar_category r, ar_mitre_technique r,
      ar_mitre_tactic r, ar_severity r, ar_tag r, ar_initiator r, ar_runner_id r, ar_status r,
      show_nat (ms_mttd_ms (ar_measurements r)), show_nat (ms_mttr_ms (ar_measurements r)),
      show_bool (ms_blue_team_detected (ar_measurements r)), ar_detection_source r,
      ar_containment_action r, ar_cleanup_status r, ar_timestamp_utc r, ar_signature_hex r,
      ar_public_key_hex r]
     @ (case ar_evidence r of None \<Rightarrow> [] | Some e \<Rightarrow> evidence_strs e)"

definition str_num :: "string \<Rightarrow> nat" where
  "str_num s = (case digits_val 10 0 s of None \<Rightarrow> 0 | Some n \<Rightarrow> n)"

lemma str_num_show [simp]: "str_num (show_nat n) = n"
  by (simp add: str_num_def show_nat_digits)

definition strs_record :: "string list \<Rightarrow> audit_record" where
  "strs_record ss = \<lparr>ar_run_id = ss ! 0, ar_scenario_id = ss ! 1, ar_scenario_name = ss ! 2,
     ar_category = ss ! 3, ar_mitre_technique = ss ! 4, ar_mitre_tactic = ss ! 5, ar_severity = ss ! 6,
     ar_tag = ss ! 7, ar_initiator = ss ! 8, ar_runner_id = ss ! 9, ar_status = ss ! 10,
     ar_measurements = \<lparr>ms_mttd_ms = str_num (ss ! 11), ms_mttr_ms = str_num (ss ! 12),
       ms_blue_team_detected = (ss ! 13 = ''true'')\<rparr>,
     ar_detection_source = ss ! 14, ar_containment_action = ss ! 15, ar_cleanup_status = ss ! 16,
     ar_timestamp_utc = ss ! 17, ar_signature_hex = ss ! 18, ar_public_key_hex = ss ! 19,
     ar_evidence = (if length ss = 20 then None else Some (strs_evidence (drop 20 ss)))\<rparr>"

lemma strs_record_strs: "strs_record (record_strs r) = r"
proof (cases r)
  case (fields a b c d e f g h i j k ms l m n p q s ev)
  show ?thesis
  proof (cases ev)
    case None
    then show ?thesis by (simp add: fields strs_record_def record_strs_def)
  next
    case (Some x)
    have "length (evidence_strs x) > 0" by (simp add: evidence_strs_def)
    with Some show ?thesis by (simp add: fields strs_record_def record_strs_def strs_evidence_strs)
  qed
qed

definition example_codec :: audit_codec where
  "example_codec = \<lparr>jc_evidence = (\<lambda>e. nums_text (strs_nums (evidence_strs e))),
     jc_record = (\<lambda>r. CHR ''{'' # nums_text (strs_nums (record_strs r)) @ [CHR ''}'']),
     jc_parse = (\<lambda>s. if s = [] then None
       else Some (strs_record (nums_strs [] (text_nums (butlast (tl s))))))\<rparr>"

lemma example_codec_ok: "codec_ok example_codec"
proof -
  have "inj (\<lambda>e. nums_text (strs_nums (evidence_strs e)))"
    by (rule inj_on_inverseI [where g = "\<lambda>s. strs_evidence (nums_strs [] (text_nums s))"])
      (simp add: text_nums_text nums_strs_nums strs_evidence_strs)
  then show ?thesis
    by (auto simp: codec_ok_def example_codec_def text_nums_text nums_strs_nums strs_record_strs
        nums_text_no_lf)
qed

definition example_record :: audit_record where
  "example_record = \<lparr>ar_run_id = ''run_1'', ar_scenario_id = ''S'', ar_scenario_name = ''S'',
     ar_category = ''red_team'', ar_mitre_technique = ''T1486'', ar_mitre_tactic = ''Impact'',
     ar_severity = ''medium'', ar_tag = [], ar_initiator = ''op'', ar_runner_id = ''r1'',
     ar_status = ''RUNNING'',
     ar_measurements = \<lparr>ms_mttd_ms = 120, ms_mttr_ms = 250, ms_blue_team_detected = True\<rparr>,
     ar_detection_source = [], ar_containment_action = [], ar_cleanup_status = ''UNCONFIRMED'',
     ar_timestamp_utc = ''2024-01-01T00:00:00.000Z'', ar_signature_hex = [], ar_public_key_hex = [],
     ar_evidence = Some \<lparr>ev_execution_mode = ''runner'', ev_feedback_received = True,
       ev_contained = True, ev_cleanup_confirmed = True, ev_failure_reason = None\<rparr>\<rparr>"

section \<open>The properties of the audit trail at this codec\<close>

theorem canonical_bytes_injective_witness:
  "canonical_bytes example_codec example_record
     \<noteq> canonical_bytes example_codec (example_record\<lparr>ar_status := ''COMPLETED''\<rparr>)"
  using canonical_bytes_injective [OF example_codec_ok, of example_record
      "example_record\<lparr>ar_status := ''COMPLETED''\<rparr>"]
  by (simp add: attested_def example_record_def)

theorem signed_record_is_verified_witness:
  "\<exists>r. ar_signed toy_ed25519 example_codec ''key'' example_record = Inr r
     \<and> verify_with_key toy_ed25519 example_codec r ''key''"
proof -
  have pk: "ed_public toy_ed25519 ''key'' = ''key''" by (simp add: toy_ed25519_def)
  have "is_ok (ar_signed toy_ed25519 example_codec ''key'' example_record)"
    by (simp add: is_ok_iff ar_signed_Inr) (simp add: toy_ed25519_def)
  then obtain r where r: "ar_signed toy_ed25519 example_codec ''key'' example_record = Inr r"
    by (auto simp: is_ok_iff)
  from signed_record_is_verified [OF toy_correct r] r pk show ?thesis by simp
qed

theorem jsonl_roundtrip_witness:
  "\<exists>t. from_jsonl example_codec (export_jsonl example_codec
         [example_record, example_record\<lparr>ar_status := ''COMPLETED''\<rparr>]) = Inr t
     \<and> map_option ar_status (trail_get t ''run_1'') = Some ''COMPLETED''"
  using jsonl_roundtrip [OF example_codec_ok,
      of "[example_record, example_record\<lparr>ar_status := ''COMPLETED''\<rparr>]" "''run_1''"]
  by (auto simp: example_record_def)

end
