(* ===== verification/Audit_Store.thy ===== *)
theory Audit_Store
  imports Aggregates Example_Codec
begin

text \<open>
  \<open>crates/asmodeus-control-plane/src/audit_store.rs\<close> and the durable append of
  \<open>telemetry/src/audit.rs\<close>: every mutation runs under the writer lock, so the store is a state
  machine whose steps are whole transactions. The state is the published trail and aggregate and
  the contents of the log file; \<open>None\<close> is a store without a path, and a missing file is the empty
  text. An I/O operation takes its outcome as an argument: done, failed and rolled back, or torn
  (the write and the truncation that should undo it both failed, leaving a prefix).

  The clock and the caller's closure are arguments. The contract is that of \<open>step_system\<close>: on
  every step the log replays to the published trail and the aggregate is the one recomputed from it.
\<close>

section \<open>The store\<close>

datatype io_outcome = IoOk | IoFailed | IoTorn nat

record audit_store =
  as_trail :: audit_trail
  as_aggregate :: aggregate
  as_file :: "string option"

definition append_to_file :: "audit_codec \<Rightarrow> audit_record \<Rightarrow> io_outcome \<Rightarrow> string \<Rightarrow> (string + unit) \<times> string" where
  "append_to_file J record io file =
     (let line = jc_record J record @ [LF] in
      case io of
        IoOk \<Rightarrow> (Inr (), file @ line)
      | IoFailed \<Rightarrow> (Inl ''io error'', file)
      | IoTorn n \<Rightarrow> (Inl ''io error'', file @ take n line))"

definition as_load :: "audit_codec \<Rightarrow> string option \<Rightarrow> string + audit_store" where
  "as_load J file =
     and_then (case file of Some text \<Rightarrow> from_jsonl J text | None \<Rightarrow> Inr []) (\<lambda>trail.
     Inr \<lparr>as_trail = trail, as_aggregate = from_records trail, as_file = file\<rparr>)"

definition persist :: "audit_codec \<Rightarrow> audit_record \<Rightarrow> io_outcome \<Rightarrow> audit_store \<Rightarrow> (string + unit) \<times> audit_store" where
  "persist J record io s =
     (case as_file s of
        None \<Rightarrow> (Inr (), s)
      | Some file \<Rightarrow>
          (let (res, file') = append_to_file J record io file in (res, s\<lparr>as_file := Some file'\<rparr>)))"

definition as_append :: "audit_codec \<Rightarrow> audit_record \<Rightarrow> io_outcome \<Rightarrow> audit_store \<Rightarrow> (string + unit) \<times> audit_store" where
  "as_append J record io s =
     (if trail_get (as_trail s) (ar_run_id record) \<noteq> None then (Inl ''duplicate run ID'', s)
      else (case persist J record io s of
              (Inl e, s') \<Rightarrow> (Inl e, s')
            | (Inr _, s') \<Rightarrow>
                (Inr (), s'\<lparr>as_aggregate := record_run (as_aggregate s') record,
                            as_trail := trail_append (as_trail s') record\<rparr>)))"

definition as_update ::
  "audit_codec \<Rightarrow> string \<Rightarrow> (audit_record \<Rightarrow> string + audit_record) \<Rightarrow> io_outcome \<Rightarrow> audit_store
     \<Rightarrow> (string + audit_record option) \<times> audit_store" where
  "as_update J run_id f io s =
     (case trail_get (as_trail s) run_id of
        None \<Rightarrow> (Inr None, s)
      | Some old \<Rightarrow>
          (case f old of
             Inl e \<Rightarrow> (Inl e, s)
           | Inr record \<Rightarrow>
               (if ar_run_id record \<noteq> run_id then (Inl ''cannot change run ID'', s)
                else (case persist J record io s of
                        (Inl e, s') \<Rightarrow> (Inl e, s')
                      | (Inr _, s') \<Rightarrow>
                          (Inr (Some record),
                           s'\<lparr>as_aggregate := update_run (as_aggregate s') old record,
                              as_trail := fst (trail_update (as_trail s') run_id record)\<rparr>)))))"

definition interrupted :: "string \<Rightarrow> audit_record \<Rightarrow> audit_record" where
  "interrupted now r =
     r\<lparr>ar_status := ''INTERRUPTED'', ar_cleanup_status := ''UNCONFIRMED'',
       ar_evidence := map_option (\<lambda>e. e\<lparr>ev_cleanup_confirmed := False,
         ev_failure_reason := Some ''control-plane restarted before terminal acknowledgement''\<rparr>) (ar_evidence r),
       ar_timestamp_utc := now\<rparr>"

text \<open>One I/O outcome per persisted record; missing ones are successes.\<close>

fun recover_loop ::
  "ed25519 \<Rightarrow> audit_codec \<Rightarrow> bytes \<Rightarrow> string \<Rightarrow> io_outcome list \<Rightarrow> audit_record list \<Rightarrow> audit_store
     \<Rightarrow> (string + unit) \<times> audit_store" where
  "recover_loop E J key now ios [] s = (Inr (), s)"
| "recover_loop E J key now ios (old # rest) s =
     (case ar_signed E J key (interrupted now old) of
        Inl _ \<Rightarrow> (Inl ''secret key is malformed'', s)
      | Inr record \<Rightarrow>
          (case persist J record (case ios of [] \<Rightarrow> IoOk | io # _ \<Rightarrow> io) s of
             (Inl e, s') \<Rightarrow> (Inl e, s')
           | (Inr _, s') \<Rightarrow>
               recover_loop E J key now (tl ios) rest
                 (s'\<lparr>as_aggregate := update_run (as_aggregate s') old record,
                     as_trail := fst (trail_update (as_trail s') (ar_run_id record) record)\<rparr>)))"

definition recover_incomplete ::
  "ed25519 \<Rightarrow> audit_codec \<Rightarrow> bytes \<Rightarrow> string \<Rightarrow> io_outcome list \<Rightarrow> audit_store \<Rightarrow> (string + unit) \<times> audit_store" where
  "recover_incomplete E J key now ios s =
     recover_loop E J key now ios (filter (\<lambda>r. \<not> ar_is_terminal r) (as_trail s)) s"

text \<open>\<open>AppState::with_storage\<close>: load, refuse a record the operator key did not sign, recover.\<close>

definition untrusted :: "ed25519 \<Rightarrow> audit_codec \<Rightarrow> bytes \<Rightarrow> audit_trail \<Rightarrow> audit_record option" where
  "untrusted E J pk t = find (\<lambda>r. \<not> verify_with_key E J r pk) t"

definition open_audit ::
  "ed25519 \<Rightarrow> audit_codec \<Rightarrow> bytes \<Rightarrow> string \<Rightarrow> io_outcome list \<Rightarrow> string option \<Rightarrow> string + audit_store" where
  "open_audit E J key now ios file =
     and_then (case public_key_from_secret_key E key of
                 Inl _ \<Rightarrow> Inl ''secret key is malformed'' | Inr pk \<Rightarrow> Inr pk) (\<lambda>pk.
     and_then (as_load J file) (\<lambda>s.
     case untrusted E J pk (as_trail s) of
       Some r \<Rightarrow> Inl (''untrusted audit record: '' @ ar_run_id r)
     | None \<Rightarrow>
         (case recover_incomplete E J key now ios s of (Inl e, _) \<Rightarrow> Inl e | (Inr _, s') \<Rightarrow> Inr s')))"

section \<open>The invariant: the log, the trail and the aggregate say the same\<close>

definition as_inv :: "audit_codec \<Rightarrow> audit_store \<Rightarrow> bool" where
  "as_inv J s \<longleftrightarrow>
     distinct (map ar_run_id (as_trail s))
     \<and> as_aggregate s = from_records (as_trail s)
     \<and> (case as_file s of None \<Rightarrow> True
        | Some f \<Rightarrow> (f = [] \<or> last f = LF) \<and> from_jsonl J f = Inr (as_trail s))"

text \<open>Publishing one revision: what append and update do to all three at once.\<close>

definition publish :: "audit_codec \<Rightarrow> audit_record \<Rightarrow> audit_store \<Rightarrow> audit_store" where
  "publish J r s =
     \<lparr>as_trail = upsert r (as_trail s), as_aggregate = from_records (upsert r (as_trail s)),
      as_file = map_option (\<lambda>f. f @ jc_record J r @ [LF]) (as_file s)\<rparr>"

lemma publish_inv: "codec_ok J \<Longrightarrow> as_inv J s \<Longrightarrow> as_inv J (publish J r s)"
  by (auto simp: as_inv_def publish_def upsert_distinct from_jsonl_snoc split: option.splits)

lemma trail_get_SomeD:
  assumes "trail_get t k = Some r"
  shows "r \<in> set t \<and> ar_run_id r = k \<and> (\<exists>i. position (\<lambda>x. ar_run_id x = k) t = Some i \<and> i < length t \<and> t ! i = r)"
proof -
  from assms obtain i where i: "position (\<lambda>x. ar_run_id x = k) t = Some i" "t ! i = r"
    by (auto simp: trail_get_def find_position)
  then show ?thesis using position_SomeD [OF i(1)] nth_mem [of i t] by auto
qed

lemma update_is_upsert:
  assumes "trail_get t k = Some old" and "ar_run_id r = k"
  shows "fst (trail_update t k r) = upsert r t \<and> update_run (from_records t) old r = from_records (upsert r t)"
proof -
  obtain i where i: "position (\<lambda>x. ar_run_id x = k) t = Some i" "i < length t" "t ! i = old"
    using trail_get_SomeD [OF assms(1)] by blast
  with assms(2) show ?thesis by (simp add: trail_update_def upsert_def from_records_update)
qed

lemma append_is_upsert:
  assumes "trail_get t (ar_run_id r) = None"
  shows "trail_append t r = upsert r t \<and> record_run (from_records t) r = from_records (upsert r t)"
proof -
  have "ar_run_id r \<notin> ar_run_id ` set t" using assms by (auto simp: trail_get_def find_None_iff)
  then show ?thesis by (simp add: upsert_fresh trail_append_def from_records_snoc)
qed

lemma persist_cases:
  assumes "persist J r io s = (res, s')"
  obtains "res = Inr ()" and "s' = s\<lparr>as_file := map_option (\<lambda>f. f @ jc_record J r @ [LF]) (as_file s)\<rparr>"
  | "res = Inl ''io error''" and "io = IoFailed" and "s' = s"
  | n f where "res = Inl ''io error''" and "io = IoTorn n" and "as_file s = Some f"
    and "s' = s\<lparr>as_file := Some (f @ take n (jc_record J r @ [LF]))\<rparr>"
  using assms
  by (cases s) (auto simp: persist_def append_to_file_def Let_def split: option.splits io_outcome.splits)

lemma persist_torn_free:
  assumes "persist J r io s = (res, s')" and "\<And>n. io \<noteq> IoTorn n"
  shows "res = Inl ''io error'' \<and> s' = s
    \<or> res = Inr () \<and> s' = s\<lparr>as_file := map_option (\<lambda>f. f @ jc_record J r @ [LF]) (as_file s)\<rparr>"
  using assms(1) by (rule persist_cases) (use assms(2) in auto)

text \<open>Each transaction either leaves the store alone or publishes one revision.\<close>

lemma as_append_cases:
  assumes "as_inv J s" and "\<And>n. io \<noteq> IoTorn n" and "as_append J r io s = (res, s')"
  shows "(is_ok res \<and> trail_get (as_trail s) (ar_run_id r) = None \<and> s' = publish J r s) \<or> (\<not> is_ok res \<and> s' = s)"
proof (cases "trail_get (as_trail s) (ar_run_id r)")
  case (Some old)
  then show ?thesis using assms(3) by (auto simp: as_append_def)
next
  case None
  obtain pr s1 where p: "persist J r io s = (pr, s1)" by (cases "persist J r io s")
  from persist_torn_free [OF p assms(2)] show ?thesis
    using assms(1,3) None p append_is_upsert [OF None]
    by (auto simp: as_append_def publish_def as_inv_def)
qed

lemma as_update_cases:
  assumes "as_inv J s" and "\<And>n. io \<noteq> IoTorn n" and "as_update J k f io s = (res, s')"
  shows "(\<exists>old r. trail_get (as_trail s) k = Some old \<and> f old = Inr r \<and> ar_run_id r = k
            \<and> res = Inr (Some r) \<and> s' = publish J r s)
    \<or> ((\<forall>r. res \<noteq> Inr (Some r)) \<and> s' = s)"
proof (cases "trail_get (as_trail s) k")
  case None
  then show ?thesis using assms(3) by (auto simp: as_update_def)
next
  case (Some old)
  show ?thesis
  proof (cases "f old")
    case (Inl e)
    then show ?thesis using assms(3) Some by (auto simp: as_update_def)
  next
    case (Inr r)
    show ?thesis
    proof (cases "ar_run_id r = k")
      case False
      then show ?thesis using assms(3) Some Inr by (auto simp: as_update_def)
    next
      case True
      obtain pr s1 where p: "persist J r io s = (pr, s1)" by (cases "persist J r io s")
      from persist_torn_free [OF p assms(2)] show ?thesis
        using assms(1,3) Some Inr True p update_is_upsert [OF Some True]
        by (auto simp: as_update_def publish_def as_inv_def)
    qed
  qed
qed

section \<open>Any sequence of transactions\<close>

datatype store_op = OpAppend audit_record io_outcome
  | OpUpdate string "audit_record \<Rightarrow> string + audit_record" io_outcome

fun op_io :: "store_op \<Rightarrow> io_outcome" where
  "op_io (OpAppend r io) = io"
| "op_io (OpUpdate k f io) = io"

fun store_step :: "audit_codec \<Rightarrow> store_op \<Rightarrow> audit_store \<Rightarrow> audit_store" where
  "store_step J (OpAppend r io) s = snd (as_append J r io s)"
| "store_step J (OpUpdate k f io) s = snd (as_update J k f io s)"

definition untorn :: "io_outcome \<Rightarrow> bool" where
  "untorn io \<longleftrightarrow> (\<forall>n. io \<noteq> IoTorn n)"

definition safe_step :: "audit_codec \<Rightarrow> store_op \<Rightarrow> audit_store \<Rightarrow> audit_store" where
  "safe_step J x s = (if untorn (op_io x) then store_step J x s else s)"

lemma store_step_cases:
  assumes "as_inv J s" and "untorn (op_io x)"
  obtains "store_step J x s = s" | r where "store_step J x s = publish J r s"
proof (cases x)
  case (OpAppend r io)
  then show thesis
    using as_append_cases [OF assms(1), of io r] assms(2) that
    by (cases "as_append J r io s") (auto simp: untorn_def)
next
  case (OpUpdate k f io)
  then show thesis
    using as_update_cases [OF assms(1), of io k f] assms(2) that
    by (cases "as_update J k f io s") (auto simp: untorn_def)
qed

text \<open>A run identifier, once journalled, stays in the trail at its position.\<close>

definition journalled :: "string list \<Rightarrow> audit_store \<Rightarrow> bool" where
  "journalled ks s \<longleftrightarrow> prefix ks (map ar_run_id (as_trail s))"

lemma publish_journalled: "journalled ks s \<Longrightarrow> journalled ks (publish J r s)"
  by (auto simp: journalled_def publish_def upsert_ids prefix_def)

interpretation astore: guarded_system "safe_step J" "\<lambda>s. codec_ok J \<longrightarrow> as_inv J s"
    "\<lambda>s. codec_ok J \<longrightarrow> journalled ks s"
proof
  fix s x
  show "codec_ok J \<longrightarrow> as_inv J (safe_step J x s)" if "codec_ok J \<longrightarrow> as_inv J s"
    using that store_step_cases [of J s x] publish_inv by (metis safe_step_def)
  show "codec_ok J \<longrightarrow> journalled ks (safe_step J x s)"
    if "codec_ok J \<longrightarrow> as_inv J s" and "codec_ok J \<longrightarrow> journalled ks s"
    using that store_step_cases [of J s x] publish_journalled by (metis safe_step_def)
qed

lemma fold_safe_step:
  "\<forall>x \<in> set xs. untorn (op_io x) \<Longrightarrow> fold (store_step J) xs s = fold (safe_step J) xs s"
  by (induction xs arbitrary: s) (simp_all add: safe_step_def)

lemma from_jsonl_distinct: "from_jsonl J f = Inr t \<Longrightarrow> distinct (map ar_run_id t)"
proof -
  have "distinct (map ar_run_id (fold upsert rs []))" for rs
    by (induction rs rule: rev_induct) (simp_all add: upsert_distinct)
  then show "from_jsonl J f = Inr t \<Longrightarrow> distinct (map ar_run_id t)" by (auto simp: from_jsonl_fold)
qed

definition boundary :: "string option \<Rightarrow> bool" where
  "boundary file \<longleftrightarrow> (case file of None \<Rightarrow> True | Some f \<Rightarrow> f = [] \<or> last f = LF)"

lemma as_load_inv: "as_load J file = Inr s \<Longrightarrow> boundary file \<Longrightarrow> as_inv J s"
  by (auto simp: as_load_def as_inv_def boundary_def from_jsonl_distinct split: option.splits)

text \<open>
  C2: The audit store is durable and consistent under any sequence of appends and updates, with
  duplicates, refused updates and failed writes among them: the log file, read after a crash at any
  point between transactions, loads exactly the published trail; the metrics are those recomputed
  from it; no run appears twice and none that was journalled is lost or moved.
\<close>
theorem audit_store_durable:
  assumes "codec_ok J" and "as_load J (Some f) = Inr s0" and "boundary (Some f)"
    and "\<forall>x \<in> set xs. untorn (op_io x)"
  defines "s \<equiv> fold (store_step J) xs s0"
  shows "as_load J (as_file s) = Inr s
    \<and> as_aggregate s = from_records (as_trail s)
    \<and> distinct (map ar_run_id (as_trail s))
    \<and> prefix (map ar_run_id (as_trail s0)) (map ar_run_id (as_trail s))"
proof -
  have s: "s = fold (safe_step J) xs s0" unfolding s_def by (rule fold_safe_step [OF assms(4)])
  have inv0: "codec_ok J \<longrightarrow> as_inv J s0" using as_load_inv [OF assms(2,3)] by blast
  from astore.inv_run [OF inv0, of xs] assms(1) have inv: "as_inv J s" by (simp add: s)
  have "journalled (map ar_run_id (as_trail s0)) s0" by (simp add: journalled_def)
  with astore.settled_run [OF inv0, of "map ar_run_id (as_trail s0)" xs] assms(1)
  have pre: "journalled (map ar_run_id (as_trail s0)) s" by (simp add: s)
  have "as_file s0 \<noteq> None" using assms(2) by (auto simp: as_load_def)
  then have "as_file (fold (safe_step J) xs s0) \<noteq> None"
  proof (induction xs arbitrary: s0)
    case (Cons x xs)
    have "as_file (safe_step J x s0) \<noteq> None"
      using Cons.prems
      by (cases x) (auto simp: safe_step_def as_append_def as_update_def persist_def append_to_file_def Let_def
          split: option.splits io_outcome.splits sum.splits)
    then show ?case using Cons.IH by simp
  qed simp
  then obtain g where "as_file s = Some g" by (auto simp: s)
  with inv pre show ?thesis by (auto simp: as_load_def as_inv_def journalled_def)
qed

definition example_ops :: "store_op list" where
  "example_ops = [OpAppend example_record IoOk, OpAppend example_record IoOk,
     OpUpdate ''run_1'' (\<lambda>r. Inr (r\<lparr>ar_status := ''COMPLETED''\<rparr>)) IoFailed]"

definition empty_store :: audit_store where
  "empty_store = \<lparr>as_trail = [], as_aggregate = from_records [], as_file = Some []\<rparr>"

lemma load_empty: "as_load J (Some []) = Inr empty_store"
  by (simp add: as_load_def from_jsonl_def empty_store_def)

theorem audit_store_durable_witness:
  "as_load example_codec (as_file (fold (store_step example_codec) example_ops empty_store))
     = Inr (fold (store_step example_codec) example_ops empty_store)"
proof -
  have "\<forall>x \<in> set example_ops. untorn (op_io x)" by (simp add: example_ops_def untorn_def)
  moreover have "boundary (Some [])" by (simp add: boundary_def)
  ultimately show ?thesis using audit_store_durable [OF example_codec_ok load_empty] by blast
qed

section \<open>Start-up\<close>

lemma signed_id: "ar_signed E J key r = Inr r' \<Longrightarrow> ar_run_id r' = ar_run_id r \<and> ar_status r' = ar_status r"
  by (auto simp: ar_signed_Inr)

lemma recover_loop_spec:
  assumes "codec_ok J" and "as_inv J s" and "distinct (map ar_run_id olds)"
    and "\<forall>r \<in> set olds. trail_get (as_trail s) (ar_run_id r) = Some r"
    and "\<forall>io \<in> set ios. untorn io" and "recover_loop E J key now ios olds s = (res, s')"
  shows "as_inv J s' \<and> map ar_run_id (as_trail s') = map ar_run_id (as_trail s)
    \<and> (\<forall>k. k \<notin> ar_run_id ` set olds \<longrightarrow> trail_get (as_trail s') k = trail_get (as_trail s) k)
    \<and> (is_ok res \<longrightarrow> (\<forall>old \<in> set olds. \<exists>r. ar_signed E J key (interrupted now old) = Inr r
          \<and> trail_get (as_trail s') (ar_run_id old) = Some r))"
  using assms(2-6)
proof (induction olds arbitrary: s ios)
  case Nil
  then show ?case by simp
next
  case (Cons old olds)
  show ?case
  proof (cases "ar_signed E J key (interrupted now old)")
    case (Inl e)
    with Cons.prems show ?thesis by auto
  next
    case (Inr r)
    then have rid: "ar_run_id r = ar_run_id old" by (auto dest: signed_id simp: interrupted_def)
    have get: "trail_get (as_trail s) (ar_run_id old) = Some old" using Cons.prems(3) by simp
    let ?io = "case ios of [] \<Rightarrow> IoOk | io # _ \<Rightarrow> io"
    have io: "\<And>n. ?io \<noteq> IoTorn n" and ios: "\<forall>io \<in> set (tl ios). untorn io"
      using Cons.prems(4) by (cases ios; auto simp: untorn_def)+
    obtain pr s1 where p: "persist J r ?io s = (pr, s1)" by (cases "persist J r ?io s")
    from persist_torn_free [OF p io] show ?thesis
    proof
      assume "pr = Inl ''io error'' \<and> s1 = s"
      with Cons.prems Inr p show ?thesis by auto
    next
      assume ok: "pr = Inr () \<and> s1 = s\<lparr>as_file := map_option (\<lambda>f. f @ jc_record J r @ [LF]) (as_file s)\<rparr>"
      let ?s2 = "publish J r s"
      have "s1\<lparr>as_aggregate := update_run (as_aggregate s1) old r,
          as_trail := fst (trail_update (as_trail s1) (ar_run_id r) r)\<rparr> = ?s2"
        using ok update_is_upsert [OF get rid] Cons.prems(1) rid by (simp add: publish_def as_inv_def)
      then have rest: "recover_loop E J key now (tl ios) olds ?s2 = (res, s')"
        using Cons.prems(5) Inr p ok by simp
      have get2: "trail_get (as_trail ?s2) k = (if k = ar_run_id old then Some r else trail_get (as_trail s) k)" for k
        by (auto simp: publish_def upsert_get rid)
      have notin: "ar_run_id old \<notin> ar_run_id ` set olds" using Cons.prems(2) by auto
      have "trail_get (as_trail ?s2) (ar_run_id x) = Some x" if "x \<in> set olds" for x
      proof -
        have "ar_run_id x \<noteq> ar_run_id old" using notin that by (metis image_eqI)
        then show ?thesis using Cons.prems(3) that by (simp add: get2)
      qed
      then have "\<forall>x \<in> set olds. trail_get (as_trail ?s2) (ar_run_id x) = Some x" by blast
      from Cons.IH [OF publish_inv [OF assms(1) Cons.prems(1)] _ this ios rest] Cons.prems(2)
      have ih: "as_inv J s' \<and> map ar_run_id (as_trail s') = map ar_run_id (as_trail ?s2)
        \<and> (\<forall>k. k \<notin> ar_run_id ` set olds \<longrightarrow> trail_get (as_trail s') k = trail_get (as_trail ?s2) k)
        \<and> (is_ok res \<longrightarrow> (\<forall>old \<in> set olds. \<exists>r. ar_signed E J key (interrupted now old) = Inr r
              \<and> trail_get (as_trail s') (ar_run_id old) = Some r))" by simp
      have "ar_run_id old \<in> ar_run_id ` set (as_trail s)" using trail_get_SomeD [OF get] by blast
      then have "map ar_run_id (as_trail ?s2) = map ar_run_id (as_trail s)"
        by (simp add: publish_def upsert_ids rid)
      with ih get2 notin Inr show ?thesis by auto
    qed
  qed
qed

lemma trail_get_member:
  "distinct (map ar_run_id t) \<Longrightarrow> r \<in> set t \<Longrightarrow> trail_get t (ar_run_id r) = Some r"
  unfolding trail_get_def by (induction t) auto

lemma open_audit_spec:
  assumes "codec_ok J" and "ed_correct E" and "\<forall>io \<in> set ios. untorn io" and "boundary file"
    and "open_audit E J key now ios file = Inr s"
  shows "as_inv J s
    \<and> (\<forall>r \<in> set (as_trail s). ar_is_terminal r \<and> verify_with_key E J r (ed_public E key))
    \<and> (\<exists>s0. as_load J file = Inr s0 \<and> map ar_run_id (as_trail s) = map ar_run_id (as_trail s0)
         \<and> (\<forall>r \<in> set (as_trail s0). trail_get (as_trail s) (ar_run_id r) \<noteq> None
              \<and> (ar_is_terminal r \<longrightarrow> trail_get (as_trail s) (ar_run_id r) = Some r)))"
proof -
  from assms(5) obtain s0 where load: "as_load J file = Inr s0" and sk: "ed_sk_ok E key"
    and trust: "untrusted E J (ed_public E key) (as_trail s0) = None"
    and rec: "recover_incomplete E J key now ios s0 = (Inr (), s)"
    by (auto simp: open_audit_def public_key_from_secret_key_def split: option.splits prod.splits sum.splits if_splits)
  let ?olds = "filter (\<lambda>r. \<not> ar_is_terminal r) (as_trail s0)"
  have inv0: "as_inv J s0" using as_load_inv [OF load assms(4)] .
  then have dist: "distinct (map ar_run_id (as_trail s0))" by (simp add: as_inv_def)
  have "\<forall>r \<in> set ?olds. trail_get (as_trail s0) (ar_run_id r) = Some r"
    using trail_get_member [OF dist] by simp
  from recover_loop_spec [OF assms(1) inv0 distinct_map_filter [OF dist] this assms(3)
      rec [unfolded recover_incomplete_def]]
  have inv: "as_inv J s" and ids: "map ar_run_id (as_trail s) = map ar_run_id (as_trail s0)"
    and other: "\<And>k. k \<notin> ar_run_id ` set ?olds \<Longrightarrow> trail_get (as_trail s) k = trail_get (as_trail s0) k"
    and recd: "\<And>old. old \<in> set ?olds \<Longrightarrow> \<exists>r. ar_signed E J key (interrupted now old) = Inr r
          \<and> trail_get (as_trail s) (ar_run_id old) = Some r"
    by auto
  have dist': "distinct (map ar_run_id (as_trail s))" using inv by (simp add: as_inv_def)
  have fin: "trail_get (as_trail s) (ar_run_id r) = Some r" if "r \<in> set (as_trail s0)" "ar_is_terminal r" for r
  proof -
    have "ar_run_id r \<notin> ar_run_id ` set ?olds"
    proof
      assume "ar_run_id r \<in> ar_run_id ` set ?olds"
      then obtain x where "x \<in> set (as_trail s0)" "\<not> ar_is_terminal x" "ar_run_id x = ar_run_id r" by auto
      with that dist show False by (metis trail_get_member option.inject)
    qed
    with other that trail_get_member [OF dist] show ?thesis by simp
  qed
  have good: "ar_is_terminal r \<and> verify_with_key E J r (ed_public E key)" if r: "r \<in> set (as_trail s)" for r
  proof -
    have get: "trail_get (as_trail s) (ar_run_id r) = Some r" using trail_get_member [OF dist' r] .
    have "ar_run_id r \<in> set (map ar_run_id (as_trail s0))" using r by (simp flip: ids)
    then obtain x where x: "x \<in> set (as_trail s0)" "ar_run_id x = ar_run_id r" by auto
    show ?thesis
    proof (cases "ar_is_terminal x")
      case True
      with fin [OF x(1)] get x(2) have "Some r = Some x" by metis
      moreover have "verify_with_key E J x (ed_public E key)"
        using trust x(1) by (simp add: untrusted_def find_None_iff)
      ultimately show ?thesis using True by blast
    next
      case False
      then obtain y where y: "ar_signed E J key (interrupted now x) = Inr y"
          "trail_get (as_trail s) (ar_run_id x) = Some y" using recd [of x] x(1) by auto
      then have "y = r" using get x(2) by simp
      moreover have "ar_is_terminal y"
        using signed_id [OF y(1)] by (simp add: ar_is_terminal_def interrupted_def)
      ultimately show ?thesis using signed_record_verifies [OF assms(2) y(1)] by simp
    qed
  qed
  have present: "trail_get (as_trail s) (ar_run_id r) \<noteq> None" if "r \<in> set (as_trail s0)" for r
  proof -
    have "ar_run_id r \<in> set (map ar_run_id (as_trail s))" using that by (simp add: ids)
    then show ?thesis by (auto simp: trail_get_def find_None_iff)
  qed
  from inv good load ids present fin show ?thesis by blast
qed



theorem aggregate_consistent_witness:
  "mean_mttd_ms (from_records [example_record]) \<le> 120"
  using aggregate_consistent [of "[example_record]" 120] by (simp add: example_record_def)

end
