(* ===== verification/Registry.thy ===== *)
theory Registry
  imports Json
begin

text \<open>
  \<open>crates/asmodeus-control-plane/src/registry.rs\<close> and \<open>registry_store.rs\<close>: the runner registry.
  The \<open>HashMap\<close> of runners is kept as a map sorted by identifier (every reader of the source sorts
  or minimises by identifier, so its iteration order is not observable). The private \<open>Arc\<close> token of
  a registration is a number drawn from a counter: two tokens are the same pointer exactly when they
  are the same number. The clock is an argument.

  A configuration change runs the mutation twice, on a clone that is written to disk and on the live
  data, with heartbeats in between: \<open>registry_update\<close> takes that concurrent activity as an argument.
\<close>

section \<open>Data\<close>

datatype runner_status = RunnerActive | RunnerUnresponsive | RunnerDraining

record runner_record =
  rr_id :: string
  rr_name :: string
  rr_endpoint :: string
  rr_tags :: "string list"
  rr_status :: runner_status
  rr_last_heartbeat :: "nat option"
  rr_cpu_usage_pct :: nat
  rr_version :: string
  rr_registered_at :: nat

definition runner_new :: "string \<Rightarrow> string \<Rightarrow> string \<Rightarrow> string list \<Rightarrow> string \<Rightarrow> nat \<Rightarrow> runner_record" where
  "runner_new rid name endpoint tags pkg_version now =
     \<lparr>rr_id = rid, rr_name = name, rr_endpoint = endpoint, rr_tags = tags, rr_status = RunnerActive,
      rr_last_heartbeat = Some now, rr_cpu_usage_pct = 0, rr_version = pkg_version,
      rr_registered_at = now\<rparr>"

record runner_probe =
  pb_record :: runner_record
  pb_epoch :: nat

record registered_runner =
  rg_record :: runner_record
  rg_epoch :: nat

record registry_data =
  rd_runners :: "(string \<times> registered_runner) list"
  rd_require_runner :: bool
  rd_next_epoch :: nat

definition runner_at :: "registry_data \<Rightarrow> string \<Rightarrow> registered_runner option" where
  "runner_at d k = map_of (rd_runners d) k"

definition put_runner :: "string \<Rightarrow> registered_runner \<Rightarrow> registry_data \<Rightarrow> registry_data" where
  "put_runner k r d = d\<lparr>rd_runners := bt_insert k r (rd_runners d)\<rparr>"

text \<open>\<open>Arc::new(())\<close>: a token no one else holds.\<close>

definition fresh :: "registry_data \<Rightarrow> nat \<times> registry_data" where
  "fresh d = (rd_next_epoch d, d\<lparr>rd_next_epoch := rd_next_epoch d + 1\<rparr>)"

section \<open>Configuration\<close>

definition merge_registration :: "runner_record \<Rightarrow> runner_record \<Rightarrow> runner_record" where
  "merge_registration previous r =
     (let r1 = r\<lparr>rr_status := rr_status previous, rr_registered_at := rr_registered_at previous\<rparr> in
      if rr_endpoint r1 = rr_endpoint previous then
        r1\<lparr>rr_last_heartbeat := rr_last_heartbeat previous, rr_cpu_usage_pct := rr_cpu_usage_pct previous,
           rr_version := rr_version previous\<rparr>
      else
        r1\<lparr>rr_status := (if rr_status r1 \<noteq> RunnerDraining then RunnerUnresponsive else rr_status r1),
           rr_last_heartbeat := None, rr_cpu_usage_pct := 0, rr_version := []\<rparr>)"

definition data_register :: "runner_record \<Rightarrow> registry_data \<Rightarrow> runner_record \<times> registry_data" where
  "data_register r d =
     (let r' = (case runner_at d (rr_id r) of
                  None \<Rightarrow> r | Some previous \<Rightarrow> merge_registration (rg_record previous) r);
          (e, d1) = fresh (d\<lparr>rd_require_runner := True\<rparr>)
      in (r', put_runner (rr_id r') \<lparr>rg_record = r', rg_epoch = e\<rparr> d1))"

definition data_set_draining :: "string \<Rightarrow> bool \<Rightarrow> registry_data \<Rightarrow> runner_record option \<times> registry_data" where
  "data_set_draining k draining d =
     (case runner_at d k of
        None \<Rightarrow> (None, d)
      | Some runner \<Rightarrow>
          (let r = rg_record runner in
           if draining \<and> rr_status r \<noteq> RunnerDraining then
             (let r' = r\<lparr>rr_status := RunnerDraining\<rparr>; (e, d1) = fresh d
              in (Some r', put_runner k \<lparr>rg_record = r', rg_epoch = e\<rparr> d1))
           else if \<not> draining \<and> rr_status r = RunnerDraining then
             (let r' = r\<lparr>rr_status := RunnerUnresponsive, rr_last_heartbeat := None\<rparr>; (e, d1) = fresh d
              in (Some r', put_runner k \<lparr>rg_record = r', rg_epoch = e\<rparr> d1))
           else (Some r, d)))"

definition data_deregister :: "string \<Rightarrow> registry_data \<Rightarrow> bool \<times> registry_data" where
  "data_deregister k d = (runner_at d k \<noteq> None, d\<lparr>rd_runners := bt_remove k (rd_runners d)\<rparr>)"

section \<open>Probes\<close>

definition begin_probe :: "string \<Rightarrow> registry_data \<Rightarrow> runner_probe option \<times> registry_data" where
  "begin_probe k d =
     (case runner_at d k of
        None \<Rightarrow> (None, d)
      | Some runner \<Rightarrow>
          (let (e, d1) = fresh d
           in (Some \<lparr>pb_record = rg_record runner, pb_epoch = e\<rparr>, put_runner k (runner\<lparr>rg_epoch := e\<rparr>) d1)))"

definition current_runner :: "runner_probe \<Rightarrow> registry_data \<Rightarrow> registered_runner option" where
  "current_runner p d =
     (case runner_at d (rr_id (pb_record p)) of
        None \<Rightarrow> None
      | Some runner \<Rightarrow> (if rg_epoch runner = pb_epoch p then Some runner else None))"

definition apply_heartbeat :: "bool \<Rightarrow> nat \<Rightarrow> string \<Rightarrow> nat \<Rightarrow> runner_record \<Rightarrow> runner_record" where
  "apply_heartbeat healthy cpu_pct version now r =
     (let r1 = (if rr_status r \<noteq> RunnerDraining
                then r\<lparr>rr_status := (if healthy then RunnerActive else RunnerUnresponsive)\<rparr> else r);
          r2 = r1\<lparr>rr_cpu_usage_pct := cpu_pct, rr_last_heartbeat := Some now\<rparr>
      in if version \<noteq> [] then r2\<lparr>rr_version := version\<rparr> else r2)"

definition update_heartbeat ::
  "runner_probe \<Rightarrow> bool \<Rightarrow> nat \<Rightarrow> string \<Rightarrow> nat \<Rightarrow> registry_data \<Rightarrow> bool \<times> registry_data" where
  "update_heartbeat p healthy cpu_pct version now d =
     (case current_runner p d of
        None \<Rightarrow> (False, d)
      | Some runner \<Rightarrow>
          (True, put_runner (rr_id (pb_record p))
             (runner\<lparr>rg_record := apply_heartbeat healthy cpu_pct version now (rg_record runner)\<rparr>) d))"

definition apply_unresponsive :: "runner_record \<Rightarrow> runner_record" where
  "apply_unresponsive r =
     (if rr_status r \<noteq> RunnerDraining then r\<lparr>rr_status := RunnerUnresponsive\<rparr> else r)"

definition mark_unresponsive :: "runner_probe \<Rightarrow> registry_data \<Rightarrow> bool \<times> registry_data" where
  "mark_unresponsive p d =
     (case current_runner p d of
        None \<Rightarrow> (False, d)
      | Some runner \<Rightarrow>
          (True, put_runner (rr_id (pb_record p))
             (runner\<lparr>rg_record := apply_unresponsive (rg_record runner)\<rparr>) d))"

section \<open>Routing\<close>

definition registry_records :: "registry_data \<Rightarrow> runner_record list" where
  "registry_records d = map (rg_record \<circ> snd) (rd_runners d)"

definition registry_list :: "registry_data \<Rightarrow> runner_record list" where
  "registry_list d = sort_key rr_id (registry_records d)"

fun min_by_id :: "runner_record list \<Rightarrow> runner_record option" where
  "min_by_id [] = None"
| "min_by_id (x # xs) =
     (case min_by_id xs of
        None \<Rightarrow> Some x
      | Some y \<Rightarrow> if rr_id x \<le> rr_id y then Some x else Some y)"

definition clean_target :: "string option \<Rightarrow> string option" where
  "clean_target target =
     (case map_option trim target of None \<Rightarrow> None | Some t \<Rightarrow> if t = [] then None else Some t)"

definition has_tag :: "string option \<Rightarrow> runner_record \<Rightarrow> bool" where
  "has_tag target r =
     (case target of None \<Rightarrow> True | Some t \<Rightarrow> list_ex (\<lambda>tag. eq_ignore_ascii_case tag t) (rr_tags r))"

definition find_for_target :: "string option \<Rightarrow> registry_data \<Rightarrow> runner_record option" where
  "find_for_target target d =
     (let target = clean_target target in
      case Option.bind target (runner_at d) of
        Some runner \<Rightarrow>
          (if rr_status (rg_record runner) = RunnerActive then Some (rg_record runner) else None)
      | None \<Rightarrow>
          min_by_id (filter (has_tag target)
            (filter (\<lambda>r. rr_status r = RunnerActive) (registry_records d))))"

section \<open>Snapshots\<close>

record runner_config =
  rc_id :: string
  rc_name :: string
  rc_endpoint :: string
  rc_tags :: "string list"
  rc_draining :: bool
  rc_registered_at :: nat

record registry_snapshot =
  sn_version :: nat
  sn_require_runner :: bool
  sn_runners :: "runner_config list"

definition config_of :: "runner_record \<Rightarrow> runner_config" where
  "config_of r = \<lparr>rc_id = rr_id r, rc_name = rr_name r, rc_endpoint = rr_endpoint r,
     rc_tags = rr_tags r, rc_draining = (rr_status r = RunnerDraining),
     rc_registered_at = rr_registered_at r\<rparr>"

definition from_data :: "registry_data \<Rightarrow> registry_snapshot" where
  "from_data d = \<lparr>sn_version = 1, sn_require_runner = rd_require_runner d,
     sn_runners = sort_key rc_id (map config_of (registry_records d))\<rparr>"

text \<open>What \<open>reqwest::Url\<close> and \<open>tonic\<close> say of an endpoint text.\<close>

record url =
  url_scheme :: string
  url_host :: "string option"
  url_username :: string
  url_password :: "string option"
  url_fragment :: "string option"

record url_lib =
  ul_parse :: "string \<Rightarrow> url option"
  ul_grpc_uri :: "string \<Rightarrow> bool"

definition validate_identity :: "url_lib \<Rightarrow> string \<Rightarrow> string \<Rightarrow> string + unit" where
  "validate_identity L rid endpoint =
     (case ul_parse L endpoint of
        None \<Rightarrow> Inl ''invalid runner endpoint URL''
      | Some u \<Rightarrow>
          (if \<not> ul_grpc_uri L endpoint then Inl ''invalid gRPC runner endpoint URI''
           else if rid = [] \<or> trim rid \<noteq> rid
             \<or> \<not> (url_scheme u = ''http'' \<or> url_scheme u = ''https'')
             \<or> url_host u = None \<or> url_username u \<noteq> [] \<or> url_password u \<noteq> None \<or> url_fragment u \<noteq> None
           then Inl ''runner requires a nonempty trimmed id and an HTTP(S) endpoint without credentials or fragment''
           else Inr ()))"

fun validate_runners :: "url_lib \<Rightarrow> string set \<Rightarrow> runner_config list \<Rightarrow> string + unit" where
  "validate_runners L ids [] = Inr ()"
| "validate_runners L ids (r # rs) =
     and_then (validate_identity L (rc_id r) (rc_endpoint r)) (\<lambda>_.
     if rc_id r \<in> ids then Inl ''duplicate runner id in snapshot''
     else validate_runners L (insert (rc_id r) ids) rs)"

definition validate_snapshot :: "url_lib \<Rightarrow> registry_snapshot \<Rightarrow> string + unit" where
  "validate_snapshot L sn =
     (if sn_version sn \<noteq> 1 \<or> (\<not> sn_require_runner sn \<and> sn_runners sn \<noteq> [])
      then Inl ''unsupported or inconsistent runner snapshot''
      else validate_runners L {} (sn_runners sn))"

definition restored :: "runner_config \<Rightarrow> runner_record" where
  "restored c = \<lparr>rr_id = rc_id c, rr_name = rc_name c, rr_endpoint = rc_endpoint c, rr_tags = rc_tags c,
     rr_status = (if rc_draining c then RunnerDraining else RunnerUnresponsive),
     rr_last_heartbeat = None, rr_cpu_usage_pct = 0, rr_version = [],
     rr_registered_at = rc_registered_at c\<rparr>"

definition restore_one :: "runner_config \<Rightarrow> registry_data \<Rightarrow> registry_data" where
  "restore_one c d =
     (let (e, d1) = fresh d in put_runner (rc_id c) \<lparr>rg_record = restored c, rg_epoch = e\<rparr> d1)"

definition into_data :: "registry_snapshot \<Rightarrow> registry_data" where
  "into_data sn = fold restore_one (sn_runners sn)
     \<lparr>rd_runners = [], rd_require_runner = sn_require_runner sn, rd_next_epoch = 0\<rparr>"

section \<open>The registry with its snapshot file\<close>

record runner_registry =
  rs_data :: registry_data
  rs_disk :: "registry_snapshot option"

definition registry_update ::
  "(registry_data \<Rightarrow> 'r \<times> registry_data) \<Rightarrow> bool \<Rightarrow> (registry_data \<Rightarrow> registry_data)
     \<Rightarrow> runner_registry \<Rightarrow> (string + 'r) \<times> runner_registry" where
  "registry_update f write_ok meanwhile s =
     (let before = from_data (rs_data s);
          after = from_data (snd (f (rs_data s)));
          live = meanwhile (rs_data s) in
      if rs_disk s \<noteq> None \<and> before \<noteq> after \<and> \<not> write_ok
      then (Inl ''io error'', s\<lparr>rs_data := live\<rparr>)
      else (let (r, live') = f live in
        (Inr r, s\<lparr>rs_data := live',
                  rs_disk := (if rs_disk s \<noteq> None \<and> before \<noteq> after then Some after else rs_disk s)\<rparr>)))"

definition new_registration :: "runner_record \<Rightarrow> runner_record" where
  "new_registration r =
     r\<lparr>rr_status := (if rr_status r \<noteq> RunnerDraining then RunnerUnresponsive else rr_status r),
       rr_last_heartbeat := None, rr_cpu_usage_pct := 0, rr_version := []\<rparr>"

definition registry_register ::
  "url_lib \<Rightarrow> runner_record \<Rightarrow> bool \<Rightarrow> (registry_data \<Rightarrow> registry_data) \<Rightarrow> runner_registry
     \<Rightarrow> (string + runner_record) \<times> runner_registry" where
  "registry_register L r write_ok meanwhile s =
     (case validate_identity L (rr_id r) (rr_endpoint r) of
        Inl e \<Rightarrow> (Inl e, s)
      | Inr _ \<Rightarrow> registry_update (data_register (new_registration r)) write_ok meanwhile s)"

definition registry_set_draining ::
  "string \<Rightarrow> bool \<Rightarrow> bool \<Rightarrow> (registry_data \<Rightarrow> registry_data) \<Rightarrow> runner_registry
     \<Rightarrow> (string + runner_record option) \<times> runner_registry" where
  "registry_set_draining k draining write_ok meanwhile s =
     registry_update (data_set_draining k draining) write_ok meanwhile s"

definition registry_deregister ::
  "string \<Rightarrow> bool \<Rightarrow> (registry_data \<Rightarrow> registry_data) \<Rightarrow> runner_registry \<Rightarrow> (string + bool) \<times> runner_registry" where
  "registry_deregister k write_ok meanwhile s = registry_update (data_deregister k) write_ok meanwhile s"

text \<open>\<open>with_persistence\<close>: the snapshot on disk wins over the seed; a missing one is written.\<close>

datatype snapshot_file = SnapMissing | SnapUnreadable | SnapBytes "registry_snapshot option"

definition with_persistence ::
  "url_lib \<Rightarrow> bool \<Rightarrow> snapshot_file option \<Rightarrow> registry_data \<Rightarrow> string + runner_registry" where
  "with_persistence L write_ok file seed =
     (case file of
        None \<Rightarrow> Inr \<lparr>rs_data = seed, rs_disk = None\<rparr>
      | Some content \<Rightarrow>
          and_then
            (case content of
               SnapBytes None \<Rightarrow> Inl ''invalid data''
             | SnapBytes (Some sn) \<Rightarrow> and_then (validate_snapshot L sn) (\<lambda>_. Inr sn)
             | SnapMissing \<Rightarrow>
                 (let sn = from_data seed in
                  and_then (validate_snapshot L sn) (\<lambda>_. if write_ok then Inr sn else Inl ''io error''))
             | SnapUnreadable \<Rightarrow> Inl ''io error'')
            (\<lambda>sn. Inr \<lparr>rs_data = into_data sn, rs_disk = Some sn\<rparr>))"

definition with_default :: "string \<Rightarrow> string \<Rightarrow> string list \<Rightarrow> string \<Rightarrow> nat \<Rightarrow> registry_data" where
  "with_default rid endpoint tags pkg_version now =
     (let ep = (if str_contains endpoint ''://'' then endpoint else ''http://'' @ endpoint) in
      snd (data_register (runner_new rid ''Default Probe'' ep tags pkg_version now)
        \<lparr>rd_runners = [], rd_require_runner = False, rd_next_epoch = 0\<rparr>))"

end
