(* ===== verification/Registry_Safety.thy ===== *)
theory Registry_Safety
  imports Registry
begin

text \<open>
  The properties of the runner registry. Its durable view is the configuration of each runner and
  the sticky flag; heartbeats do not touch it (\<open>probe_view\<close>), and the three configuration changes
  are \<open>view_action\<close>s, so that applying them twice is sound. A probe stays valid only as long as the
  registration it was issued for (\<open>bound_to\<close>).
\<close>

section \<open>Well-formed data and its durable view\<close>

definition reg_inv :: "registry_data \<Rightarrow> bool" where
  "reg_inv d \<longleftrightarrow> bt_inv (rd_runners d)
     \<and> (\<forall>k r. runner_at d k = Some r \<longrightarrow> rr_id (rg_record r) = k \<and> rg_epoch r < rd_next_epoch d)"

definition config_map :: "registry_data \<Rightarrow> (string \<rightharpoonup> runner_config)" where
  "config_map d k = map_option (\<lambda>r. config_of (rg_record r)) (runner_at d k)"

definition durable :: "registry_data \<Rightarrow> bool \<times> (string \<rightharpoonup> runner_config)" where
  "durable d = (rd_require_runner d, config_map d)"

lemma runner_at_put:
  "bt_inv (rd_runners d) \<Longrightarrow> runner_at (put_runner k r d) k' = (if k' = k then Some r else runner_at d k')"
  by (simp add: runner_at_def put_runner_def map_of_bt_insert)

lemma put_runner_sel [simp]:
  "rd_require_runner (put_runner k r d) = rd_require_runner d"
  "rd_next_epoch (put_runner k r d) = rd_next_epoch d"
  by (simp_all add: put_runner_def)

lemma put_runner_inv:
  assumes "reg_inv d" and "rr_id (rg_record r) = k" and "rg_epoch r < n" and "rd_next_epoch d \<le> n"
  shows "reg_inv (put_runner k r (d\<lparr>rd_require_runner := b, rd_next_epoch := n\<rparr>))"
proof -
  let ?d = "d\<lparr>rd_require_runner := b, rd_next_epoch := n\<rparr>"
  have bt: "bt_inv (rd_runners ?d)" and same: "\<And>k. runner_at ?d k = runner_at d k"
    using assms(1) by (simp_all add: reg_inv_def runner_at_def)
  then have "bt_inv (rd_runners (put_runner k r ?d))" by (simp add: put_runner_def bt_inv_insert)
  with assms bt same show ?thesis by (fastforce simp: reg_inv_def runner_at_put)
qed

lemma put_runner_inv':
  assumes "reg_inv d" and "rr_id (rg_record r) = k" and "rg_epoch r < rd_next_epoch d"
  shows "reg_inv (put_runner k r d)"
  using put_runner_inv [OF assms(1,2,3), of "rd_require_runner d"] by simp

lemma config_map_put:
  "bt_inv (rd_runners d) \<Longrightarrow> config_map (put_runner k r d) = (config_map d)(k \<mapsto> config_of (rg_record r))"
  by (auto simp: config_map_def runner_at_put fun_eq_iff)

lemma config_map_sel [simp]:
  "config_map (d\<lparr>rd_next_epoch := n\<rparr>) = config_map d"
  "config_map (d\<lparr>rd_require_runner := b\<rparr>) = config_map d"
  by (simp_all add: config_map_def runner_at_def fun_eq_iff)

lemma runner_at_sel [simp]:
  "runner_at (d\<lparr>rd_next_epoch := n\<rparr>) = runner_at d"
  "runner_at (d\<lparr>rd_require_runner := b\<rparr>) = runner_at d"
  by (simp_all add: runner_at_def fun_eq_iff)

text \<open>The snapshot is a function of the durable view.\<close>

lemma configs_sorted:
  assumes "reg_inv d"
  shows "bt_inv (map (\<lambda>(k, r). (k, config_of (rg_record r))) (rd_runners d))"
    and "map_of (map (\<lambda>(k, r). (k, config_of (rg_record r))) (rd_runners d)) = config_map d"
    and "sn_runners (from_data d) = map snd (map (\<lambda>(k, r). (k, config_of (rg_record r))) (rd_runners d))"
proof -
  have keys: "map fst (map (\<lambda>(k, r). (k, config_of (rg_record r))) (rd_runners d)) = map fst (rd_runners d)"
    by (auto simp: split_def)
  show bt: "bt_inv (map (\<lambda>(k, r). (k, config_of (rg_record r))) (rd_runners d))"
    using assms unfolding bt_inv_def keys reg_inv_def by blast
  show "map_of (map (\<lambda>(k, r). (k, config_of (rg_record r))) (rd_runners d)) = config_map d"
    by (auto simp: config_map_def runner_at_def map_of_map fun_eq_iff)
  have "rr_id (rg_record r) = k" if "(k, r) \<in> set (rd_runners d)" for k r
  proof -
    have "distinct (map fst (rd_runners d))" using assms bt_inv_distinct by (auto simp: reg_inv_def)
    then have "runner_at d k = Some r" using that by (simp add: runner_at_def)
    then show ?thesis using assms by (simp add: reg_inv_def)
  qed
  then have ids: "map rc_id (map config_of (registry_records d)) = map fst (rd_runners d)"
    by (auto simp: config_of_def registry_records_def)
  have "sorted (map rc_id (map config_of (registry_records d)))"
    unfolding ids using assms by (simp add: reg_inv_def bt_inv_def strict_sorted_imp_sorted)
  then show "sn_runners (from_data d) = map snd (map (\<lambda>(k, r). (k, config_of (rg_record r))) (rd_runners d))"
    by (simp add: from_data_def sort_key_id_if_sorted registry_records_def split_def)
qed

lemma from_data_durable:
  assumes "reg_inv d" and "reg_inv d'"
  shows "durable d = durable d' \<Longrightarrow> from_data d = from_data d'"
proof -
  assume eq: "durable d = durable d'"
  then have "map (\<lambda>(k, r). (k, config_of (rg_record r))) (rd_runners d)
      = map (\<lambda>(k, r). (k, config_of (rg_record r))) (rd_runners d')"
    using configs_sorted [OF assms(1)] configs_sorted [OF assms(2)]
    by (intro bt_ext) (simp_all add: durable_def)
  then have "sn_runners (from_data d) = sn_runners (from_data d')"
    using configs_sorted(3) [OF assms(1)] configs_sorted(3) [OF assms(2)] by simp
  with eq show "from_data d = from_data d'" by (simp add: from_data_def durable_def)
qed

lemma durable_from_data:
  assumes "reg_inv d" and "reg_inv d'" and "from_data d = from_data d'"
  shows "durable d = durable d'"
proof -
  have m: "map_of (map (\<lambda>c. (rc_id c, c)) (sn_runners (from_data x))) = config_map x" if "reg_inv x" for x
  proof -
    let ?c = "map (\<lambda>(k, r). (k, config_of (rg_record r))) (rd_runners x)"
    have "rc_id (config_of (rg_record r)) = k" if "(k, r) \<in> set (rd_runners x)" for k r
    proof -
      have "distinct (map fst (rd_runners x))" using \<open>reg_inv x\<close> bt_inv_distinct by (auto simp: reg_inv_def)
      then have "runner_at x k = Some r" using that by (simp add: runner_at_def)
      then show ?thesis using \<open>reg_inv x\<close> by (simp add: reg_inv_def config_of_def)
    qed
    then have eq: "map (\<lambda>c. (rc_id c, c)) (map snd ?c) = ?c" by auto
    show ?thesis by (simp only: configs_sorted(3) [OF that] eq configs_sorted(2) [OF that])
  qed
  have "config_map d = config_map d'" using m [OF assms(1)] m [OF assms(2)] assms(3) by simp
  with assms(3) show ?thesis by (simp add: durable_def from_data_def)
qed

section \<open>Configuration changes act on the durable view\<close>

definition eff_register :: "runner_record \<Rightarrow> bool \<times> (string \<rightharpoonup> runner_config) \<Rightarrow> bool \<times> (string \<rightharpoonup> runner_config)" where
  "eff_register r v = (True, (snd v)(rr_id r \<mapsto>
     (case snd v (rr_id r) of None \<Rightarrow> config_of r
      | Some c \<Rightarrow> (config_of r)\<lparr>rc_draining := rc_draining c, rc_registered_at := rc_registered_at c\<rparr>)))"

definition eff_draining :: "string \<Rightarrow> bool \<Rightarrow> bool \<times> (string \<rightharpoonup> runner_config) \<Rightarrow> bool \<times> (string \<rightharpoonup> runner_config)" where
  "eff_draining k b v = (fst v, (snd v)(k := map_option (\<lambda>c. c\<lparr>rc_draining := b\<rparr>) (snd v k)))"

definition eff_deregister :: "string \<Rightarrow> bool \<times> (string \<rightharpoonup> runner_config) \<Rightarrow> bool \<times> (string \<rightharpoonup> runner_config)" where
  "eff_deregister k v = (fst v, (snd v)(k := None))"

lemma merge_id [simp]: "rr_id (merge_registration p r) = rr_id r"
  by (simp add: merge_registration_def Let_def)

lemma merge_config:
  "config_of (merge_registration p r) =
     (config_of r)\<lparr>rc_draining := rc_draining (config_of p), rc_registered_at := rc_registered_at (config_of p)\<rparr>"
  by (simp add: merge_registration_def Let_def config_of_def)

interpretation reg: view_action "\<lambda>d. snd (data_register r d)" durable "eff_register r" reg_inv
proof
  fix d assume inv: "reg_inv d"
  show "reg_inv (snd (data_register r d))"
    using put_runner_inv [OF inv, of _ "rr_id r" "rd_next_epoch d + 1" True]
    by (auto simp: data_register_def fresh_def Let_def split: option.splits)
  have bt: "bt_inv (rd_runners d)" using inv by (simp add: reg_inv_def)
  show "durable (snd (data_register r d)) = eff_register r (durable d)"
    using bt
    by (cases "runner_at d (rr_id r)")
      (auto simp: data_register_def fresh_def Let_def config_map_put eff_register_def durable_def
        merge_config, auto simp: config_map_def)
qed

interpretation drain: view_action "\<lambda>d. snd (data_set_draining k b d)" durable "eff_draining k b" reg_inv
proof
  fix d assume inv: "reg_inv d"
  have upd: "reg_inv (put_runner k \<lparr>rg_record = r, rg_epoch = rd_next_epoch d\<rparr>
      (d\<lparr>rd_next_epoch := rd_next_epoch d + 1\<rparr>))" if "rr_id r = k" for r
    using put_runner_inv [OF inv, of "\<lparr>rg_record = r, rg_epoch = rd_next_epoch d\<rparr>" k
        "rd_next_epoch d + 1" "rd_require_runner d"] that by simp
  have ids: "runner_at d k = Some x \<Longrightarrow> rr_id (rg_record x) = k" for x using inv by (simp add: reg_inv_def)
  show "reg_inv (snd (data_set_draining k b d))"
    using inv upd ids
    by (auto simp: data_set_draining_def fresh_def Let_def split: option.splits if_splits)
  have bt: "bt_inv (rd_runners d)" using inv by (simp add: reg_inv_def)
  show "durable (snd (data_set_draining k b d)) = eff_draining k b (durable d)"
  proof (cases "runner_at d k")
    case None
    then show ?thesis
      by (auto simp: data_set_draining_def eff_draining_def durable_def config_map_def fun_eq_iff)
  next
    case (Some x)
    then have "config_map d k = Some (config_of (rg_record x))" by (simp add: config_map_def)
    then show ?thesis using bt Some
      by (auto simp: data_set_draining_def fresh_def Let_def config_map_put eff_draining_def
          durable_def config_of_def fun_eq_iff)
  qed
qed

interpretation dereg: view_action "\<lambda>d. snd (data_deregister k d)" durable "eff_deregister k" reg_inv
proof
  fix d assume inv: "reg_inv d"
  have look: "runner_at (snd (data_deregister k d)) k' = (if k' = k then None else runner_at d k')" for k'
    by (simp add: data_deregister_def runner_at_def map_of_bt_remove)
  show "reg_inv (snd (data_deregister k d))"
    using inv look by (auto simp: reg_inv_def data_deregister_def bt_inv_remove split: if_splits)
  show "durable (snd (data_deregister k d)) = eff_deregister k (durable d)"
    using look by (auto simp: durable_def eff_deregister_def config_map_def data_deregister_def fun_eq_iff)
qed

section \<open>Probes leave the durable view alone\<close>

datatype probe_op = PBegin string | PHeartbeat runner_probe bool nat string nat | PMark runner_probe

fun probe_step :: "probe_op \<Rightarrow> registry_data \<Rightarrow> registry_data" where
  "probe_step (PBegin k) d = snd (begin_probe k d)"
| "probe_step (PHeartbeat p healthy cpu version now) d = snd (update_heartbeat p healthy cpu version now d)"
| "probe_step (PMark p) d = snd (mark_unresponsive p d)"

lemma config_of_observed [simp]:
  "config_of (apply_heartbeat healthy cpu version now r) = config_of r"
  "config_of (apply_unresponsive r) = config_of r"
  by (simp_all add: config_of_def apply_heartbeat_def apply_unresponsive_def Let_def)

lemma status_observed:
  "rr_status (apply_heartbeat healthy cpu version now r) =
     (if rr_status r = RunnerDraining then RunnerDraining
      else if healthy then RunnerActive else RunnerUnresponsive)"
  "rr_status (apply_unresponsive r) =
     (if rr_status r = RunnerDraining then RunnerDraining else RunnerUnresponsive)"
  by (simp_all add: apply_heartbeat_def apply_unresponsive_def Let_def)

lemma probe_put:
  assumes "reg_inv d" and "runner_at d k = Some x" and "config_of r = config_of (rg_record x)"
    and "e < n" and "rd_next_epoch d \<le> n"
  shows "reg_inv (put_runner k \<lparr>rg_record = r, rg_epoch = e\<rparr> (d\<lparr>rd_next_epoch := n\<rparr>))
    \<and> durable (put_runner k \<lparr>rg_record = r, rg_epoch = e\<rparr> (d\<lparr>rd_next_epoch := n\<rparr>)) = durable d"
proof
  have "rr_id (rg_record x) = k" using assms(1,2) by (simp add: reg_inv_def)
  moreover have "rr_id r = rr_id (rg_record x)" using assms(3) by (simp add: config_of_def)
  ultimately show "reg_inv (put_runner k \<lparr>rg_record = r, rg_epoch = e\<rparr> (d\<lparr>rd_next_epoch := n\<rparr>))"
    using put_runner_inv [OF assms(1), of "\<lparr>rg_record = r, rg_epoch = e\<rparr>" k n "rd_require_runner d"] assms(4,5)
    by simp
  have "config_map d k = Some (config_of r)" using assms(2,3) by (simp add: config_map_def)
  then have same: "(config_map d)(k \<mapsto> config_of r) = config_map d" by (simp add: fun_upd_idem)
  have "bt_inv (rd_runners (d\<lparr>rd_next_epoch := n\<rparr>))" using assms(1) by (simp add: reg_inv_def)
  then show "durable (put_runner k \<lparr>rg_record = r, rg_epoch = e\<rparr> (d\<lparr>rd_next_epoch := n\<rparr>)) = durable d"
    by (simp add: durable_def config_map_put same)
qed

lemma probe_put_same:
  assumes "reg_inv d" and "current_runner p d = Some x" and "config_of r = config_of (rg_record x)"
  shows "reg_inv (put_runner (rr_id (pb_record p)) (x\<lparr>rg_record := r\<rparr>) d)
    \<and> durable (put_runner (rr_id (pb_record p)) (x\<lparr>rg_record := r\<rparr>) d) = durable d"
proof -
  have at: "runner_at d (rr_id (pb_record p)) = Some x"
    using assms(2) by (auto simp: current_runner_def split: option.splits if_splits)
  then have "rg_epoch x < rd_next_epoch d" using assms(1) by (simp add: reg_inv_def)
  from probe_put [OF assms(1) at assms(3) this order.refl] show ?thesis
    by (cases x) simp
qed

lemma probe_view: "reg_inv d \<Longrightarrow> reg_inv (probe_step x d) \<and> durable (probe_step x d) = durable d"
proof (cases x)
  case (PBegin k)
  assume inv: "reg_inv d"
  show ?thesis
  proof (cases "runner_at d k")
    case None
    then show ?thesis using PBegin inv by (simp add: begin_probe_def)
  next
    case (Some r)
    from probe_put [OF inv Some refl, of "rd_next_epoch d" "rd_next_epoch d + 1"] Some PBegin
    show ?thesis by (cases r) (simp add: begin_probe_def fresh_def Let_def)
  qed
next
  case (PHeartbeat p healthy cpu version now)
  assume inv: "reg_inv d"
  then show ?thesis using PHeartbeat probe_put_same [OF inv]
    by (auto simp: update_heartbeat_def split: option.splits)
next
  case (PMark p)
  assume inv: "reg_inv d"
  then show ?thesis using PMark probe_put_same [OF inv]
    by (auto simp: mark_unresponsive_def split: option.splits)
qed

lemma probes_view:
  "reg_inv d \<Longrightarrow> reg_inv (fold probe_step xs d) \<and> durable (fold probe_step xs d) = durable d"
  by (induction xs arbitrary: d) (use probe_view in auto)

section \<open>The registry and its file agree\<close>

datatype reg_op =
    ORegister runner_record bool "probe_op list"
  | ODrain string bool bool "probe_op list"
  | ODeregister string bool "probe_op list"
  | OProbe probe_op

fun reg_step :: "url_lib \<Rightarrow> reg_op \<Rightarrow> runner_registry \<Rightarrow> runner_registry" where
  "reg_step L (ORegister r ok ps) s = snd (registry_register L r ok (fold probe_step ps) s)"
| "reg_step L (ODrain k b ok ps) s = snd (registry_set_draining k b ok (fold probe_step ps) s)"
| "reg_step L (ODeregister k ok ps) s = snd (registry_deregister k ok (fold probe_step ps) s)"
| "reg_step L (OProbe x) s = s\<lparr>rs_data := probe_step x (rs_data s)\<rparr>"

definition canonical_snapshot :: "registry_snapshot \<Rightarrow> registry_snapshot" where
  "canonical_snapshot sn = sn\<lparr>sn_runners := sort_key rc_id (sn_runners sn)\<rparr>"

definition valid_view :: "url_lib \<Rightarrow> bool \<times> (string \<rightharpoonup> runner_config) \<Rightarrow> bool" where
  "valid_view L v \<longleftrightarrow>
     (\<forall>k c. snd v k = Some c \<longrightarrow> rc_id c = k \<and> validate_identity L k (rc_endpoint c) = Inr ())
     \<and> (fst v \<or> snd v = (\<lambda>_. None))"

definition agree :: "url_lib \<Rightarrow> runner_registry \<Rightarrow> bool" where
  "agree L s \<longleftrightarrow> reg_inv (rs_data s) \<and> valid_view L (durable (rs_data s))
     \<and> (case rs_disk s of None \<Rightarrow> True | Some sn \<Rightarrow> canonical_snapshot sn = from_data (rs_data s))"

lemma from_data_canonical: "canonical_snapshot (from_data d) = from_data d"
  by (simp add: canonical_snapshot_def from_data_def sort_key_id_if_sorted)

text \<open>One lemma for the three configuration changes, for any \<open>view_action\<close> on the data.\<close>

lemma update_agree:
  assumes act: "view_action (\<lambda>d. snd (f d)) durable eff reg_inv" and "agree L s"
    and valid: "\<And>v. valid_view L v \<Longrightarrow> valid_view L (eff v)"
  shows "agree L (snd (registry_update f ok (fold probe_step ps) s))"
proof -
  let ?d = "rs_data s" and ?live = "fold probe_step ps (rs_data s)"
  have inv: "reg_inv ?d" using assms(2) by (simp add: agree_def)
  have live: "reg_inv ?live" "durable ?live = durable ?d" using probes_view [OF inv] by auto
  have inv': "reg_inv (snd (f ?d))" "reg_inv (snd (f ?live))"
    using view_action.inv_act [OF act] inv live(1) by auto
  have "durable (snd (f ?live)) = durable (snd (f ?d))"
    using view_action.view_twice [OF act inv live] .
  then have after: "from_data (snd (f ?live)) = from_data (snd (f ?d))"
    using from_data_durable inv' by blast
  have same: "from_data ?live = from_data ?d" using from_data_durable live inv by blast
  have view: "valid_view L (durable ?live)" "valid_view L (durable (snd (f ?live)))"
    using assms(2) live valid view_action.view_act [OF act live(1)] by (auto simp: agree_def)
  show ?thesis
    using assms(2) inv' live(1) after same view
    by (cases "f ?live")
      (auto simp: registry_update_def agree_def Let_def from_data_canonical split: option.splits)
qed

lemma eff_valid:
  "validate_identity L (rr_id r) (rr_endpoint r) = Inr () \<Longrightarrow> valid_view L v \<Longrightarrow> valid_view L (eff_register r v)"
  "valid_view L v \<Longrightarrow> valid_view L (eff_draining k b v)"
  "valid_view L v \<Longrightarrow> valid_view L (eff_deregister k v)"
  by (auto simp: valid_view_def eff_register_def eff_draining_def eff_deregister_def config_of_def
      split: option.splits if_splits)

lemma reg_step_agree: "agree L s \<Longrightarrow> agree L (reg_step L x s)"
proof (cases x)
  case (ORegister r ok ps)
  assume a: "agree L s"
  show ?thesis
  proof (cases "validate_identity L (rr_id r) (rr_endpoint r)")
    case (Inl e)
    then show ?thesis using a ORegister by (simp add: registry_register_def)
  next
    case (Inr u)
    then have "agree L (snd (registry_update (data_register (new_registration r)) ok (fold probe_step ps) s))"
      by (intro update_agree [OF reg.view_action_axioms a] eff_valid(1)) (simp add: new_registration_def)
    with Inr show ?thesis using ORegister by (simp add: registry_register_def Let_def)
  qed
next
  case (ODrain k b ok ps)
  assume "agree L s"
  then show ?thesis using ODrain update_agree [OF drain.view_action_axioms] eff_valid(2)
    by (simp add: registry_set_draining_def)
next
  case (ODeregister k ok ps)
  assume "agree L s"
  then show ?thesis using ODeregister update_agree [OF dereg.view_action_axioms] eff_valid(3)
    by (simp add: registry_deregister_def)
next
  case (OProbe x)
  assume a: "agree L s"
  then have inv: "reg_inv (rs_data s)" by (simp add: agree_def)
  then have "from_data (probe_step x (rs_data s)) = from_data (rs_data s)"
    using probe_view from_data_durable by blast
  with a OProbe probe_view [OF inv] show ?thesis by (auto simp: agree_def split: option.splits)
qed

lemma update_require:
  assumes "\<And>d. rd_require_runner d \<Longrightarrow> rd_require_runner (snd (f d))" and "reg_inv (rs_data s)"
    and "rd_require_runner (rs_data s)"
  shows "rd_require_runner (rs_data (snd (registry_update f ok (fold probe_step ps) s)))"
proof -
  have "rd_require_runner (fold probe_step ps (rs_data s))"
    using probes_view [OF assms(2)] assms(3) by (auto simp: durable_def)
  with assms(1) show ?thesis
    by (cases "f (fold probe_step ps (rs_data s))") (force simp: registry_update_def Let_def)
qed

lemma reg_step_require:
  assumes "agree L s" and "rd_require_runner (rs_data s)"
  shows "rd_require_runner (rs_data (reg_step L x s))"
proof -
  have inv: "reg_inv (rs_data s)" using assms(1) by (simp add: agree_def)
  show ?thesis
  proof (cases x)
    case (ORegister r ok ps)
    have "rd_require_runner (snd (data_register r d))" for r d
      by (simp add: data_register_def fresh_def Let_def)
    then have "rd_require_runner (rs_data (snd (registry_update (data_register r) ok (fold probe_step ps) s)))" for r
      by (intro update_require inv assms(2))
    with ORegister assms(2) show ?thesis
      by (simp add: registry_register_def Let_def split: sum.splits)
  next
    case (ODrain k b ok ps)
    have "rd_require_runner d \<Longrightarrow> rd_require_runner (snd (data_set_draining k b d))" for d
      by (simp add: data_set_draining_def fresh_def Let_def split: option.splits)
    from update_require [OF this inv assms(2)] ODrain show ?thesis
      by (simp add: registry_set_draining_def)
  next
    case (ODeregister k ok ps)
    have "rd_require_runner d \<Longrightarrow> rd_require_runner (snd (data_deregister k d))" for d
      by (simp add: data_deregister_def)
    from update_require [OF this inv assms(2)] ODeregister show ?thesis
      by (simp add: registry_deregister_def)
  next
    case (OProbe x)
    then show ?thesis using probe_view [OF inv, of x] assms(2) by (simp add: durable_def)
  qed
qed

interpretation registry: guarded_system "reg_step L" "agree L" "\<lambda>s. rd_require_runner (rs_data s)"
  by unfold_locales (rule reg_step_agree, assumption, rule reg_step_require)

section \<open>Snapshots\<close>

lemma validate_runners_Inr:
  "validate_runners L ids cs = Inr u \<longleftrightarrow>
     (\<forall>c \<in> set cs. validate_identity L (rc_id c) (rc_endpoint c) = Inr ())
     \<and> distinct (map rc_id cs) \<and> rc_id ` set cs \<inter> ids = {}"
  by (induction cs arbitrary: ids) auto

lemma restored_config [simp]: "config_of (restored c) = c"
  by (simp add: restored_def config_of_def)

lemma restore_step:
  assumes "reg_inv d"
  shows "reg_inv (restore_one c d)" and "config_map (restore_one c d) = (config_map d)(rc_id c \<mapsto> c)"
    and "rd_require_runner (restore_one c d) = rd_require_runner d"
proof -
  have "rr_id (restored c) = rc_id c" by (simp add: restored_def)
  then show "reg_inv (restore_one c d)"
    using put_runner_inv [OF assms, of "\<lparr>rg_record = restored c, rg_epoch = rd_next_epoch d\<rparr>" "rc_id c"
        "rd_next_epoch d + 1" "rd_require_runner d"]
    by (simp add: restore_one_def fresh_def Let_def)
  have "bt_inv (rd_runners (d\<lparr>rd_next_epoch := n\<rparr>))" for n using assms by (simp add: reg_inv_def)
  then show "config_map (restore_one c d) = (config_map d)(rc_id c \<mapsto> c)"
    by (simp add: restore_one_def fresh_def Let_def config_map_put)
  show "rd_require_runner (restore_one c d) = rd_require_runner d"
    by (simp add: restore_one_def fresh_def Let_def)
qed

lemma restore_fold:
  "reg_inv d \<Longrightarrow> reg_inv (fold restore_one cs d)
     \<and> config_map (fold restore_one cs d) = config_map d ++ map_of (rev (map (\<lambda>c. (rc_id c, c)) cs))
     \<and> rd_require_runner (fold restore_one cs d) = rd_require_runner d"
  by (induction cs arbitrary: d) (simp_all add: restore_step)

lemma into_data_spec:
  "reg_inv (into_data sn)
   \<and> config_map (into_data sn) = map_of (rev (map (\<lambda>c. (rc_id c, c)) (sn_runners sn)))
   \<and> rd_require_runner (into_data sn) = sn_require_runner sn"
proof -
  let ?d = "\<lparr>rd_runners = [], rd_require_runner = sn_require_runner sn, rd_next_epoch = 0\<rparr> :: registry_data"
  have "reg_inv ?d" "config_map ?d = (\<lambda>_. None)"
    by (simp_all add: reg_inv_def runner_at_def config_map_def fun_eq_iff)
  then show ?thesis using restore_fold [of ?d "sn_runners sn"] by (simp add: into_data_def)
qed

lemma map_of_rev_distinct: "distinct (map fst xs) \<Longrightarrow> map_of (rev xs) = map_of xs"
  by (subst map_of_inject_set) (simp_all flip: rev_map)

lemma into_data_valid:
  assumes "validate_snapshot L sn = Inr ()"
  shows "config_map (into_data sn) = map_of (map (\<lambda>c. (rc_id c, c)) (sn_runners sn))"
    and "valid_view L (durable (into_data sn))"
proof -
  have v: "\<forall>c \<in> set (sn_runners sn). validate_identity L (rc_id c) (rc_endpoint c) = Inr ()"
    "distinct (map rc_id (sn_runners sn))" "sn_require_runner sn \<or> sn_runners sn = []"
    using assms by (auto simp: validate_snapshot_def validate_runners_Inr split: if_splits)
  then show m: "config_map (into_data sn) = map_of (map (\<lambda>c. (rc_id c, c)) (sn_runners sn))"
    using into_data_spec [of sn] by (subst map_of_rev_distinct [symmetric]) (simp_all add: comp_def)
  show "valid_view L (durable (into_data sn))"
    using v into_data_spec [of sn] m by (auto simp: valid_view_def durable_def dest!: map_of_SomeD)
qed

lemma distinct_sort_by: "distinct (map f (sort_key g xs)) \<longleftrightarrow> distinct (map f xs)"
  by (simp add: distinct_map)

lemma map_of_configs_sort:
  assumes "distinct (map rc_id cs)"
  shows "map_of (map (\<lambda>c. (rc_id c, c)) (sort_key rc_id cs)) = map_of (map (\<lambda>c. (rc_id c, c)) cs)"
  using assms distinct_sort_by [of rc_id rc_id cs]
  by (subst map_of_inject_set) (simp_all add: comp_def)

text \<open>The snapshot of the live data loads again, as the same configuration.\<close>

lemma snapshot_members:
  assumes "reg_inv d"
  shows "map (\<lambda>c. (rc_id c, c)) (sn_runners (from_data d))
      = map (\<lambda>(k, r). (k, config_of (rg_record r))) (rd_runners d)"
proof -
  have "rc_id (config_of (rg_record r)) = k" if "(k, r) \<in> set (rd_runners d)" for k r
  proof -
    have "distinct (map fst (rd_runners d))" using assms bt_inv_distinct by (auto simp: reg_inv_def)
    then have "runner_at d k = Some r" using that by (simp add: runner_at_def)
    then show ?thesis using assms by (simp add: reg_inv_def config_of_def)
  qed
  then show ?thesis unfolding configs_sorted(3) [OF assms] by auto
qed

lemma snapshot_config: "reg_inv d \<Longrightarrow> map_of (map (\<lambda>c. (rc_id c, c)) (sn_runners (from_data d))) = config_map d"
  by (simp only: snapshot_members configs_sorted(2))

lemma snapshot_distinct:
  assumes "reg_inv d"
  shows "distinct (map rc_id (sn_runners (from_data d)))"
proof -
  have "map rc_id (sn_runners (from_data d)) = map fst (map (\<lambda>c. (rc_id c, c)) (sn_runners (from_data d)))"
    by (simp add: comp_def)
  also have "\<dots> = map fst (rd_runners d)" unfolding snapshot_members [OF assms] by (auto simp: split_def)
  finally show ?thesis using assms by (simp add: reg_inv_def bt_inv_distinct)
qed

lemma snapshot_valid:
  assumes "reg_inv d" and "valid_view L (durable d)"
  shows "validate_snapshot L (from_data d) = Inr ()"
proof -
  have c: "config_map d (rc_id c) = Some c" if "c \<in> set (sn_runners (from_data d))" for c
  proof -
    have "map_of (map (\<lambda>c. (rc_id c, c)) (sn_runners (from_data d))) (rc_id c) = Some c"
      using that snapshot_distinct [OF assms(1)] by (intro map_of_is_SomeI) (auto simp: comp_def)
    then show ?thesis by (simp only: snapshot_config [OF assms(1)])
  qed
  then have "\<forall>c \<in> set (sn_runners (from_data d)). validate_identity L (rc_id c) (rc_endpoint c) = Inr ()"
    using assms(2) by (auto simp: valid_view_def durable_def)
  moreover have "rd_require_runner d \<or> sn_runners (from_data d) = []"
  proof (cases "sn_runners (from_data d)")
    case (Cons x xs)
    then have "config_map d (rc_id x) = Some x" using c by simp
    then show ?thesis using assms(2) by (auto simp: valid_view_def durable_def)
  qed simp
  ultimately show ?thesis
    using snapshot_distinct [OF assms(1)]
    by (auto simp: validate_snapshot_def validate_runners_Inr from_data_def)
qed

lemma restart_view:
  assumes "reg_inv d" and "valid_view L (durable d)" and "canonical_snapshot sn = from_data d"
  shows "validate_snapshot L sn = Inr () \<and> durable (into_data sn) = durable d"
proof
  have perm: "set (sn_runners sn) = set (sn_runners (from_data d))"
    "distinct (map rc_id (sn_runners sn))" "sn_runners (from_data d) = sort_key rc_id (sn_runners sn)"
    "sn_version sn = sn_version (from_data d)" "sn_require_runner sn = sn_require_runner (from_data d)"
    using snapshot_distinct [OF assms(1)] distinct_sort_by [of rc_id rc_id "sn_runners sn"]
    by (simp_all flip: assms(3) add: canonical_snapshot_def)
  then have "sn_runners sn = [] \<longleftrightarrow> sn_runners (from_data d) = []" by (metis set_empty)
  with perm snapshot_valid [OF assms(1,2)] show ok: "validate_snapshot L sn = Inr ()"
    by (simp add: validate_snapshot_def validate_runners_Inr split: if_splits)
  have "config_map (into_data sn) = config_map d"
    using into_data_valid(1) [OF ok] map_of_configs_sort [OF perm(2)] snapshot_config [OF assms(1)] perm(3) by simp
  moreover have "sn_require_runner sn = rd_require_runner d" using perm(5) by (simp add: from_data_def)
  ultimately show "durable (into_data sn) = durable d" using into_data_spec [of sn] by (simp add: durable_def)
qed

lemma into_data_agree:
  assumes "validate_snapshot L sn = Inr ()"
  shows "agree L \<lparr>rs_data = into_data sn, rs_disk = Some sn\<rparr>"
proof -
  note v = into_data_spec [of sn] into_data_valid [OF assms]
  have dist: "distinct (map rc_id (sn_runners sn))" and ver: "sn_version sn = 1"
    using assms by (auto simp: validate_snapshot_def validate_runners_Inr split: if_splits)
  let ?f = "sn_runners (from_data (into_data sn))"
  have inv: "reg_inv (into_data sn)" using v by blast
  have "map_of (map (\<lambda>c. (rc_id c, c)) ?f) = map_of (map (\<lambda>c. (rc_id c, c)) (sort_key rc_id (sn_runners sn)))"
    using snapshot_config [OF inv] v(2) map_of_configs_sort [OF dist] by simp
  moreover have "sorted (map rc_id ?f)" by (simp add: from_data_def)
  ultimately have "?f = sort_key rc_id (sn_runners sn)"
  proof -
    assume m: "map_of (map (\<lambda>c. (rc_id c, c)) ?f) = map_of (map (\<lambda>c. (rc_id c, c)) (sort_key rc_id (sn_runners sn)))"
      and so: "sorted (map rc_id ?f)"
    have "bt_inv (map (\<lambda>c. (rc_id c, c)) ?f)" "bt_inv (map (\<lambda>c. (rc_id c, c)) (sort_key rc_id (sn_runners sn)))"
      using so snapshot_distinct [OF inv] dist distinct_sort_by [of rc_id rc_id "sn_runners sn"]
      by (simp_all add: bt_inv_def comp_def strict_sorted_iff)
    from bt_ext [OF this m] have "map snd (map (\<lambda>c. (rc_id c, c)) ?f)
        = map snd (map (\<lambda>c. (rc_id c, c)) (sort_key rc_id (sn_runners sn)))" by simp
    then show ?thesis by (simp add: comp_def)
  qed
  then have "canonical_snapshot sn = from_data (into_data sn)"
    using v(1) ver by (simp add: canonical_snapshot_def from_data_def)
  with v show ?thesis by (simp add: agree_def)
qed

lemma update_disk: "rs_disk s \<noteq> None \<Longrightarrow> rs_disk (snd (registry_update f ok meanwhile s)) \<noteq> None"
  by (auto simp: registry_update_def Let_def split_def)

lemma reg_step_disk: "rs_disk s \<noteq> None \<Longrightarrow> rs_disk (reg_step L x s) \<noteq> None"
  by (cases x)
    (simp_all add: update_disk registry_register_def registry_set_draining_def registry_deregister_def
      split: sum.splits del: not_None_eq)

lemma with_persistence_file:
  assumes "with_persistence L ok (Some file) seed = Inr s"
  obtains sn where "validate_snapshot L sn = Inr ()" and "s = \<lparr>rs_data = into_data sn, rs_disk = Some sn\<rparr>"
  using assms
  by (auto simp: with_persistence_def Let_def split: snapshot_file.splits option.splits if_splits)

definition routable :: "string \<Rightarrow> registry_data \<Rightarrow> bool" where
  "routable k d \<longleftrightarrow> (\<exists>x. runner_at d k = Some x \<and> rr_status (rg_record x) = RunnerActive)"

lemma min_by_id_Some:
  assumes "min_by_id rs = Some r"
  shows "r \<in> set rs \<and> (\<forall>x \<in> set rs. rr_id r \<le> rr_id x)"
  using assms
proof (induction rs arbitrary: r)
  case (Cons x rs)
  show ?case
  proof (cases "min_by_id rs")
    case None
    then have "rs = []" by (cases rs) (auto split: option.splits if_splits)
    with Cons.prems show ?thesis by simp
  next
    case (Some y)
    from Cons.IH [OF Some] Cons.prems Some show ?thesis by (fastforce split: if_splits)
  qed
qed simp

lemma min_by_id_None: "min_by_id rs = None \<longleftrightarrow> rs = []"
  by (cases rs) (auto split: option.splits)

lemma record_at:
  assumes "reg_inv d" and "r \<in> set (registry_records d)"
  obtains x where "runner_at d (rr_id r) = Some x" and "rg_record x = r"
proof -
  from assms(2) obtain k x where kx: "(k, x) \<in> set (rd_runners d)" "rg_record x = r"
    by (auto simp: registry_records_def)
  then have "runner_at d k = Some x"
    using assms(1) bt_inv_distinct [THEN map_of_is_SomeI] by (auto simp: reg_inv_def runner_at_def)
  moreover have "rr_id r = k" using calculation assms(1) kx(2) by (auto simp: reg_inv_def)
  ultimately show thesis using that kx(2) by blast
qed

lemma find_for_target_Some:
  assumes "reg_inv d" and "find_for_target t d = Some r"
  shows "routable (rr_id r) d \<and> (\<exists>x. runner_at d (rr_id r) = Some x \<and> rg_record x = r)
    \<and> (case clean_target t of
         None \<Rightarrow> \<forall>k. routable k d \<longrightarrow> rr_id r \<le> k
       | Some k \<Rightarrow> rr_id r = k \<or> runner_at d k = None \<and> has_tag (Some k) r)"
proof (cases "Option.bind (clean_target t) (runner_at d)")
  case (Some x)
  then obtain k where "clean_target t = Some k" "runner_at d k = Some x"
    by (cases "clean_target t") auto
  with assms Some show ?thesis
    by (auto simp: find_for_target_def routable_def reg_inv_def split: if_splits)
next
  case None
  let ?c = "filter (has_tag (clean_target t)) (filter (\<lambda>r. rr_status r = RunnerActive) (registry_records d))"
  have min: "min_by_id ?c = Some r" using assms(2) None by (simp add: find_for_target_def Let_def)
  then have r: "r \<in> set (registry_records d)" "rr_status r = RunnerActive" "has_tag (clean_target t) r"
    using min_by_id_Some by fastforce+
  obtain x where x: "runner_at d (rr_id r) = Some x" "rg_record x = r" using record_at [OF assms(1) r(1)] .
  have least: "rr_id r \<le> k" if "routable k d" "clean_target t = None" for k
  proof -
    from that(1) obtain y where y: "runner_at d k = Some y" "rr_status (rg_record y) = RunnerActive"
      by (auto simp: routable_def)
    then have "rg_record y \<in> set (registry_records d)"
      by (force simp: runner_at_def registry_records_def dest: map_of_SomeD)
    then have "rg_record y \<in> set ?c" using y that(2) by (simp add: has_tag_def)
    then have "rr_id r \<le> rr_id (rg_record y)" using min_by_id_Some [OF min] by blast
    then show ?thesis using y assms(1) by (auto simp: reg_inv_def)
  qed
  from None have "\<forall>k. clean_target t = Some k \<longrightarrow> runner_at d k = None" by auto
  with x r least show ?thesis by (auto simp: routable_def split: option.splits)
qed

lemma restored_not_routable:
  "\<not> routable k (into_data sn)"
proof -
  have put: "runner_at (fold restore_one cs d) k = Some x \<Longrightarrow> bt_inv (rd_runners d) \<Longrightarrow>
      runner_at d k = Some x \<or> rr_status (rg_record x) \<noteq> RunnerActive" for cs d x
  proof (induction cs arbitrary: d)
    case (Cons c cs)
    have "bt_inv (rd_runners (restore_one c d))"
      using Cons.prems(2) by (simp add: restore_one_def fresh_def Let_def put_runner_def bt_inv_insert)
    with Cons have "runner_at (restore_one c d) k = Some x \<or> rr_status (rg_record x) \<noteq> RunnerActive" by simp
    then show ?case using Cons.prems(2)
      by (auto simp: restore_one_def fresh_def Let_def runner_at_put restored_def split: if_splits)
  qed simp
  show ?thesis
  proof
    assume "routable k (into_data sn)"
    then obtain x where "runner_at (into_data sn) k = Some x" "rr_status (rg_record x) = RunnerActive"
      by (auto simp: routable_def)
    with put [of "sn_runners sn" "\<lparr>rd_runners = [], rd_require_runner = sn_require_runner sn, rd_next_epoch = 0\<rparr>" x]
    show False by (simp add: into_data_def runner_at_def)
  qed
qed

section \<open>Properties\<close>

text \<open>
  C13: A restart restores the configuration exactly: whatever sequence of registrations, maintenance
  changes, removals and probes ran before, with failed snapshot writes and with heartbeats landing
  between the write and the publication of a change, the snapshot on disk validates and loads into
  the same configuration and the same sticky runner requirement as the live registry had, and no
  restored runner is routable before a probe finds it healthy.
\<close>
theorem registry_restart_exact:
  fixes xs :: "reg_op list"
  assumes "with_persistence L ok (Some file) seed = Inr s0"
  defines "s \<equiv> fold (reg_step L) xs s0"
  shows "\<exists>sn. rs_disk s = Some sn
    \<and> with_persistence L ok' (Some (SnapBytes (Some sn))) seed' =
        Inr \<lparr>rs_data = into_data sn, rs_disk = Some sn\<rparr>
    \<and> config_map (into_data sn) = config_map (rs_data s)
    \<and> rd_require_runner (into_data sn) = rd_require_runner (rs_data s)
    \<and> find_for_target t (into_data sn) = None"
proof -
  obtain sn0 where sn0: "validate_snapshot L sn0 = Inr ()" "s0 = \<lparr>rs_data = into_data sn0, rs_disk = Some sn0\<rparr>"
    using with_persistence_file [OF assms(1)] .
  then have "agree L s0" using into_data_agree by simp
  then have agr: "agree L s" unfolding s_def by (rule registry.inv_run)
  have "rs_disk (fold (reg_step L) xs s0) \<noteq> None"
    using sn0(2) reg_step_disk by (induction xs rule: rev_induct) auto
  then obtain sn where sn: "rs_disk s = Some sn" by (auto simp: s_def)
  have "validate_snapshot L sn = Inr () \<and> durable (into_data sn) = durable (rs_data s)"
    using agr sn by (intro restart_view) (auto simp: agree_def)
  moreover have "find_for_target t (into_data sn) = None"
    using find_for_target_Some [of "into_data sn" t] into_data_spec [of sn] restored_not_routable
    by (cases "find_for_target t (into_data sn)") blast+
  ultimately show ?thesis using sn by (simp add: with_persistence_def durable_def)
qed

text \<open>
  Routing is sound: the runner chosen for a target is registered and active, so never draining,
  unresponsive or removed; a target that names a registered runner never falls back to another one;
  a tag selects only a runner that carries it; without a target the choice is the least identifier
  among the active runners, so it does not depend on the order of the map.
\<close>
theorem routing_sound:
  assumes "reg_inv d" and "find_for_target t d = Some r"
  shows "rr_status r = RunnerActive
    \<and> (\<exists>x. runner_at d (rr_id r) = Some x \<and> rg_record x = r)
    \<and> (case clean_target t of
         None \<Rightarrow> \<forall>k. routable k d \<longrightarrow> rr_id r \<le> k
       | Some k \<Rightarrow> rr_id r = k \<or> runner_at d k = None \<and> has_tag (Some k) r)"
  using find_for_target_Some [OF assms] by (auto simp: routable_def)

section \<open>Probes and registrations\<close>

datatype data_op = DRegister runner_record | DDrain string bool | DDeregister string | DProbe probe_op

fun data_step :: "data_op \<Rightarrow> registry_data \<Rightarrow> registry_data" where
  "data_step (DRegister r) d = snd (data_register (new_registration r) d)"
| "data_step (DDrain k b) d = snd (data_set_draining k b d)"
| "data_step (DDeregister k) d = snd (data_deregister k d)"
| "data_step (DProbe x) d = probe_step x d"

text \<open>The operations that issue a new token for a runner or drop it.\<close>

definition renews :: "string \<Rightarrow> data_op \<Rightarrow> registry_data \<Rightarrow> bool" where
  "renews k x d \<longleftrightarrow> (case x of
     DRegister r \<Rightarrow> rr_id r = k
   | DDrain k' b \<Rightarrow> k' = k \<and> (\<exists>y. runner_at d k = Some y \<and> (rr_status (rg_record y) = RunnerDraining) \<noteq> b)
   | DDeregister k' \<Rightarrow> k' = k
   | DProbe (PBegin k') \<Rightarrow> k' = k
   | DProbe _ \<Rightarrow> False)"

fun untouched :: "string \<Rightarrow> data_op list \<Rightarrow> registry_data \<Rightarrow> bool" where
  "untouched k [] d \<longleftrightarrow> True"
| "untouched k (x # xs) d \<longleftrightarrow> \<not> renews k x d \<and> untouched k xs (data_step x d)"

definition holds_token :: "string \<Rightarrow> nat \<Rightarrow> registry_data \<Rightarrow> bool" where
  "holds_token k e d \<longleftrightarrow> (\<exists>x. runner_at d k = Some x \<and> rg_epoch x = e)"

lemma data_step_inv: "reg_inv d \<Longrightarrow> reg_inv (data_step x d)"
  by (cases x) (use reg.inv_act drain.inv_act dereg.inv_act probe_view in auto)

lemma data_step_next: "rd_next_epoch d \<le> rd_next_epoch (data_step x d)"
proof (cases x)
  case (DProbe p)
  then show ?thesis
    by (cases p)
      (auto simp: begin_probe_def fresh_def Let_def update_heartbeat_def mark_unresponsive_def split: option.splits)
qed (auto simp: data_register_def data_set_draining_def data_deregister_def fresh_def Let_def split: option.splits)

lemma fresh_inv:
  "bt_inv (rd_runners (d\<lparr>rd_next_epoch := n\<rparr>)) = bt_inv (rd_runners d)"
  "bt_inv (rd_runners (d\<lparr>rd_require_runner := b\<rparr>)) = bt_inv (rd_runners d)"
  by simp_all

lemma current_runner_at:
  "current_runner p d = Some x \<longleftrightarrow> runner_at d (rr_id (pb_record p)) = Some x \<and> rg_epoch x = pb_epoch p"
  by (auto simp: current_runner_def split: option.splits)

lemma step_token:
  assumes "reg_inv d" and "e < rd_next_epoch d" and "holds_token k e (data_step x d)"
  shows "holds_token k e d \<and> \<not> renews k x d \<and> config_map (data_step x d) k = config_map d k"
proof -
  have bt: "bt_inv (rd_runners d)" using assms(1) by (simp add: reg_inv_def)
  show ?thesis
  proof (cases x)
    case (DRegister r)
    have id: "rr_id (new_registration r) = rr_id r" by (simp add: new_registration_def)
    let ?r' = "fst (data_register (new_registration r) d)"
    have "runner_at (data_step x d) k =
        (if k = rr_id r then Some \<lparr>rg_record = ?r', rg_epoch = rd_next_epoch d\<rparr> else runner_at d k)"
      using bt DRegister id
      by (simp add: data_register_def fresh_def Let_def runner_at_put split: option.splits)
    with assms(2,3) DRegister show ?thesis
      by (auto simp: holds_token_def renews_def config_map_def split: if_splits)
  next
    case (DDrain k' b)
    show ?thesis
    proof (cases "\<exists>y. runner_at d k' = Some y \<and> (rr_status (rg_record y) = RunnerDraining) \<noteq> b")
      case False
      then have "data_step x d = d"
        using DDrain by (auto simp: data_set_draining_def Let_def split: option.splits)
      with False DDrain assms(3) show ?thesis by (auto simp: renews_def)
    next
      case True
      then have "k = k' \<Longrightarrow> \<not> holds_token k e (data_step x d)"
          "k \<noteq> k' \<Longrightarrow> runner_at (data_step x d) k = runner_at d k"
        using bt DDrain assms(2)
        by (auto simp: data_set_draining_def fresh_def Let_def runner_at_put holds_token_def)
      with assms(3) DDrain show ?thesis
        by (cases "k = k'") (auto simp: holds_token_def renews_def config_map_def)
    qed
  next
    case (DDeregister k')
    have "runner_at (data_step x d) k = (if k = k' then None else runner_at d k)"
      using DDeregister by (simp add: data_deregister_def runner_at_def map_of_bt_remove)
    with assms(3) DDeregister show ?thesis
      by (auto simp: holds_token_def renews_def config_map_def split: if_splits)
  next
    case (DProbe q)
    have cfg: "config_map (data_step x d) = config_map d"
      using DProbe probe_view [OF assms(1), of q] by (simp add: durable_def)
    have "holds_token k e d \<and> \<not> renews k x d"
    proof (cases q)
      case (PBegin k')
      show ?thesis
      proof (cases "runner_at d k'")
        case None
        then show ?thesis using PBegin DProbe assms(3) by (auto simp: begin_probe_def renews_def holds_token_def)
      next
        case (Some y)
        then have "runner_at (data_step x d) k =
            (if k = k' then Some (y\<lparr>rg_epoch := rd_next_epoch d\<rparr>) else runner_at d k)"
          using bt PBegin DProbe by (auto simp: begin_probe_def fresh_def Let_def runner_at_put)
        with assms(2,3) PBegin DProbe show ?thesis
          by (auto simp: holds_token_def renews_def split: if_splits)
      qed
    next
      case (PHeartbeat p healthy cpu version now)
      then show ?thesis using DProbe assms(3) bt
        by (auto simp: update_heartbeat_def holds_token_def renews_def runner_at_put current_runner_at
            split: option.splits if_splits)
    next
      case (PMark p)
      then show ?thesis using DProbe assms(3) bt
        by (auto simp: mark_unresponsive_def holds_token_def renews_def runner_at_put current_runner_at
            split: option.splits if_splits)
    qed
    with cfg show ?thesis by simp
  qed
qed

lemma steps_token:
  assumes "reg_inv d" and "e < rd_next_epoch d" and "holds_token k e (fold data_step xs d)"
  shows "holds_token k e d \<and> untouched k xs d \<and> config_map (fold data_step xs d) k = config_map d k"
  using assms
proof (induction xs arbitrary: d)
  case (Cons x xs)
  have "e < rd_next_epoch (data_step x d)"
    using Cons.prems(2) data_step_next [of d x] by simp
  with Cons.IH [OF data_step_inv [OF Cons.prems(1)]] Cons.prems(3)
  have "holds_token k e (data_step x d)" "untouched k xs (data_step x d)"
    "config_map (fold data_step xs (data_step x d)) k = config_map (data_step x d) k" by auto
  with step_token [OF Cons.prems(1,2)] show ?case by simp
qed simp

text \<open>
  A late probe reply never touches a different registration: when a heartbeat is applied, then
  since its probe began nothing re-registered, removed, paused, resumed or probed that runner again,
  and its configuration is still the one the probe was sent to. In every other case the reply is
  dropped and changes nothing.
\<close>
theorem stale_probe_ignored:
  assumes "reg_inv d" and "begin_probe k d = (Some p, d1)"
  shows "(fst (update_heartbeat p healthy cpu version now (fold data_step xs d1)) \<longrightarrow>
            untouched k xs d1
            \<and> config_map (fold data_step xs d1) k = Some (config_of (pb_record p)))
    \<and> (\<not> fst (update_heartbeat p healthy cpu version now (fold data_step xs d1)) \<longrightarrow>
            snd (update_heartbeat p healthy cpu version now (fold data_step xs d1)) = fold data_step xs d1)"
proof -
  obtain y where y: "runner_at d k = Some y" "pb_record p = rg_record y" "pb_epoch p = rd_next_epoch d"
      "d1 = put_runner k (y\<lparr>rg_epoch := rd_next_epoch d\<rparr>) (d\<lparr>rd_next_epoch := rd_next_epoch d + 1\<rparr>)"
    using assms(2) by (auto simp: begin_probe_def fresh_def Let_def split: option.splits)
  have kid: "rr_id (pb_record p) = k" using y assms(1) by (simp add: reg_inv_def)
  have inv1: "reg_inv d1" and cfg: "config_map d1 k = Some (config_of (pb_record p))"
  proof -
    have "d1 = probe_step (PBegin k) d" using assms(2) by simp
    then show "reg_inv d1" "config_map d1 k = Some (config_of (pb_record p))"
      using probe_view [OF assms(1), of "PBegin k"] y by (simp_all add: durable_def config_map_def)
  qed
  have lt: "pb_epoch p < rd_next_epoch d1" using y by simp
  have "fst (update_heartbeat p healthy cpu version now (fold data_step xs d1)) \<Longrightarrow>
      holds_token k (pb_epoch p) (fold data_step xs d1)"
    by (auto simp: update_heartbeat_def holds_token_def current_runner_at kid split: option.splits)
  from steps_token [OF inv1 lt this] cfg show ?thesis
    by (auto simp: update_heartbeat_def split: option.splits)
qed

text \<open>
  C36: A runner becomes routable only by a healthy probe: no registration, re-registration, resume,
  removal, failed or unhealthy probe makes an unroutable runner routable; the one operation that
  does is a healthy reply to the current probe of that very runner, and not while it is draining.
\<close>
theorem routable_needs_healthy_probe:
  assumes "reg_inv d" and "\<not> routable k d" and "routable k (data_step x d)"
  shows "\<exists>p cpu version now y. x = DProbe (PHeartbeat p True cpu version now)
    \<and> rr_id (pb_record p) = k \<and> runner_at d k = Some y \<and> rg_epoch y = pb_epoch p
    \<and> rr_status (rg_record y) \<noteq> RunnerDraining"
proof -
  have bt: "bt_inv (rd_runners d)" using assms(1) by (simp add: reg_inv_def)
  show ?thesis
  proof (cases x)
    case (DRegister r)
    have "rr_status (new_registration r) \<noteq> RunnerActive" by (simp add: new_registration_def)
    then show ?thesis using assms(2,3) DRegister bt
      by (auto simp: data_register_def fresh_def Let_def runner_at_put routable_def new_registration_def
          merge_registration_def split: option.splits if_splits)
  next
    case (DDrain k' b)
    then show ?thesis using assms(2,3) bt
      by (auto simp: data_set_draining_def fresh_def Let_def runner_at_put routable_def
          split: option.splits if_splits)
  next
    case (DDeregister k')
    then show ?thesis using assms(2,3)
      by (auto simp: data_deregister_def routable_def runner_at_def map_of_bt_remove split: if_splits)
  next
    case (DProbe q)
    then show ?thesis
    proof (cases q)
      case (PBegin k')
      then show ?thesis using DProbe assms(2,3) bt
        by (auto simp: begin_probe_def fresh_def Let_def runner_at_put routable_def split: option.splits if_splits)
    next
      case (PHeartbeat p healthy cpu version now)
      then show ?thesis using DProbe assms(2,3) bt
        by (auto simp: update_heartbeat_def runner_at_put routable_def current_runner_at status_observed
            split: option.splits if_splits)
    next
      case (PMark p)
      then show ?thesis using DProbe assms(2,3) bt
        by (auto simp: mark_unresponsive_def runner_at_put routable_def current_runner_at status_observed
            split: option.splits if_splits)
    qed
  qed
qed

section \<open>Witnesses\<close>

definition example_urls :: url_lib where
  "example_urls = \<lparr>ul_parse = (\<lambda>s. if starts_with s ''http://'' then
       Some \<lparr>url_scheme = ''http'', url_host = Some (drop 7 s), url_username = [], url_password = None,
             url_fragment = None\<rparr> else None), ul_grpc_uri = (\<lambda>_. True)\<rparr>"

definition empty_registry :: registry_data where
  "empty_registry = \<lparr>rd_runners = [], rd_require_runner = False, rd_next_epoch = 0\<rparr>"

definition example_runner :: runner_record where
  "example_runner = runner_new ''r1'' ''probe'' ''http://host:50051'' [''endpoint_agent''] ''1.0'' 7"

definition example_registered :: registry_data where
  "example_registered = snd (data_register (new_registration example_runner) empty_registry)"

lemma empty_registry_inv: "reg_inv empty_registry"
  by (simp add: reg_inv_def empty_registry_def runner_at_def)

lemma example_registered_inv: "reg_inv example_registered"
  unfolding example_registered_def by (rule reg.inv_act [OF empty_registry_inv])

theorem registry_restart_exact_witness:
  "\<exists>sn. rs_disk (reg_step example_urls (ORegister example_runner True [PBegin ''r1''])
        \<lparr>rs_data = into_data (from_data empty_registry), rs_disk = Some (from_data empty_registry)\<rparr>) = Some sn
     \<and> find_for_target None (into_data sn) = None"
proof -
  have "with_persistence example_urls True (Some SnapMissing) empty_registry
      = Inr \<lparr>rs_data = into_data (from_data empty_registry), rs_disk = Some (from_data empty_registry)\<rparr>"
    by (simp add: with_persistence_def validate_snapshot_def from_data_def empty_registry_def
        registry_records_def Let_def)
  from registry_restart_exact [OF this, where xs = "[ORegister example_runner True [PBegin ''r1'']]" and t = None]
  show ?thesis by auto
qed

lemma example_probe:
  "begin_probe ''r1'' example_registered =
     (Some \<lparr>pb_record = new_registration example_runner, pb_epoch = 1\<rparr>,
      put_runner ''r1'' \<lparr>rg_record = new_registration example_runner, rg_epoch = 1\<rparr>
        (example_registered\<lparr>rd_next_epoch := 2\<rparr>))"
  by (simp add: begin_probe_def example_registered_def data_register_def fresh_def Let_def runner_at_def
      put_runner_def empty_registry_def example_runner_def runner_new_def new_registration_def)

definition example_healthy :: registry_data where
  "example_healthy = data_step (DProbe (PHeartbeat
      \<lparr>pb_record = new_registration example_runner, pb_epoch = 1\<rparr> True 3 ''1.0'' 9))
      (snd (begin_probe ''r1'' example_registered))"

lemma example_probed_inv: "reg_inv (snd (begin_probe ''r1'' example_registered))"
  using probe_view [OF example_registered_inv, of "PBegin ''r1''"] by simp

lemma example_healthy_inv: "reg_inv example_healthy"
  unfolding example_healthy_def by (rule data_step_inv [OF example_probed_inv])

lemmas example_eval = example_registered_def data_register_def fresh_def Let_def runner_at_def
  put_runner_def empty_registry_def example_runner_def runner_new_def new_registration_def

lemma example_healthy_route:
  "map_option rr_id (find_for_target None example_healthy) = Some ''r1''"
  by (simp add: example_healthy_def example_probe)
    (simp add: update_heartbeat_def current_runner_def find_for_target_def clean_target_def
      registry_records_def has_tag_def apply_heartbeat_def example_eval)

theorem stale_probe_ignored_witness:
  "\<not> fst (update_heartbeat \<lparr>pb_record = new_registration example_runner, pb_epoch = 1\<rparr> True 3 ''1.0'' 9
     (fold data_step [DDrain ''r1'' True, DDrain ''r1'' False] (snd (begin_probe ''r1'' example_registered))))"
proof -
  have "\<not> untouched ''r1'' [DDrain ''r1'' True, DDrain ''r1'' False] (snd (begin_probe ''r1'' example_registered))"
    by (simp add: example_probe renews_def) (simp add: example_eval)
  moreover have "begin_probe ''r1'' example_registered = (Some \<lparr>pb_record = new_registration example_runner, pb_epoch = 1\<rparr>,
      snd (begin_probe ''r1'' example_registered))"
    by (simp add: example_probe)
  ultimately show ?thesis
    using stale_probe_ignored [OF example_registered_inv,
      where xs = "[DDrain ''r1'' True, DDrain ''r1'' False]" and healthy = True and cpu = 3
        and version = "''1.0''" and now = 9] by blast
qed

theorem routing_sound_witness:
  "map_option rr_status (find_for_target None example_healthy) = Some RunnerActive"
proof -
  obtain r where "find_for_target None example_healthy = Some r" using example_healthy_route by auto
  with routing_sound [OF example_healthy_inv this] show ?thesis by simp
qed

theorem routable_needs_healthy_probe_witness:
  "\<exists>p cpu version now. DProbe (PHeartbeat \<lparr>pb_record = new_registration example_runner, pb_epoch = 1\<rparr> True 3 ''1.0'' 9)
     = DProbe (PHeartbeat p True cpu version now) \<and> rr_id (pb_record p) = ''r1''"
proof -
  have no: "\<not> routable ''r1'' (snd (begin_probe ''r1'' example_registered))"
    by (simp add: example_probe) (simp add: routable_def example_eval)
  obtain r where r: "find_for_target None example_healthy = Some r" "rr_id r = ''r1''"
    using example_healthy_route by auto
  have yes: "routable ''r1'' example_healthy"
    using find_for_target_Some [OF example_healthy_inv r(1)] r(2) by simp
  from routable_needs_healthy_probe [OF example_probed_inv no yes [unfolded example_healthy_def]]
  show ?thesis by blast
qed

end
