(* ===== verification/Campaigns.thy ===== *)
theory Campaigns
  imports Audit_Trail
begin

text \<open>
  \<open>crates/asmodeus-control-plane/src/campaign.rs\<close> and \<open>campaign_run.rs\<close>: the campaign catalog and
  the durable campaign runs. The catalog is a \<open>keyed_store\<close> whose identifiers are compared without
  ASCII case; the run store is a \<open>step_system\<close> whose invariant is the validation the next start-up
  applies to the snapshot. The clock is an argument.
\<close>

section \<open>Campaigns\<close>

record campaign_step =
  cs_order :: nat
  cs_scenario_id :: string

record campaign =
  ca_id :: string
  ca_name :: string
  ca_description :: string
  ca_steps :: "campaign_step list"

type_synonym campaign_catalog = "campaign list"

definition catalog_get :: "campaign_catalog \<Rightarrow> string \<Rightarrow> campaign option" where
  "catalog_get cs cid = find (\<lambda>c. eq_ignore_ascii_case (ca_id c) cid) cs"

definition catalog_register :: "campaign \<Rightarrow> campaign_catalog \<Rightarrow> campaign_catalog" where
  "catalog_register c cs =
     (case position (\<lambda>x. eq_ignore_ascii_case (ca_id x) (ca_id c)) cs of
        Some pos \<Rightarrow> cs[pos := c]
      | None \<Rightarrow> cs @ [c])"

definition catalog_deregister :: "string \<Rightarrow> campaign_catalog \<Rightarrow> campaign_catalog \<times> bool" where
  "catalog_deregister cid cs =
     (let cs' = filter (\<lambda>c. \<not> eq_ignore_ascii_case (ca_id c) cid) cs
      in (cs', length cs' < length cs))"

definition campaign_seed :: campaign_catalog where
  "campaign_seed =
    [\<lparr>ca_id = ''CAMP-RANSOMWARE-CHAIN'', ca_name = ''Ransomware APT Attack Path'',
      ca_description = ''Multi-stage simulated ransomware kill-chain: Credential Dumping -> Scheduled Persistence -> C2 Beaconing -> Mass Canary Data Encryption (MITRE T1003, T1053, T1071, T1486)'',
      ca_steps = [\<lparr>cs_order = 1, cs_scenario_id = ''CREDENTIAL_ACCESS_CANARY''\<rparr>,
        \<lparr>cs_order = 2, cs_scenario_id = ''PERSISTENCE_CRON_CANARY''\<rparr>,
        \<lparr>cs_order = 3, cs_scenario_id = ''C2_BEACONING_SIMULATION''\<rparr>,
        \<lparr>cs_order = 4, cs_scenario_id = ''RANSOMWARE_CANARY_SPIKE''\<rparr>]\<rparr>,
     \<lparr>ca_id = ''CAMP-K8S-ESCAPE-CHAOS'', ca_name = ''K8s Escape & Infrastructure Chaos Chain'',
      ca_description = ''Container breakout combined with network latency chaos and DNS RPZ sinkhole outage (MITRE T1611 & FTT '' @ map chr [194, 167] @ ''4.2)'',
      ca_steps = [\<lparr>cs_order = 1, cs_scenario_id = ''K8S_ESCAPE_SIMULATION''\<rparr>,
        \<lparr>cs_order = 2, cs_scenario_id = ''LATENCY_SPIKE_VM''\<rparr>,
        \<lparr>cs_order = 3, cs_scenario_id = ''DNS_RPZ_SINKHOLE_DROP''\<rparr>]\<rparr>,
     \<lparr>ca_id = ''CAMP-PERSISTENCE-EXFIL'', ca_name = ''Stealth Persistence & Exfiltration Chain'',
      ca_description = ''Stealth persistence followed by log tampering and data exfiltration (MITRE T1053, T1070, T1041)'',
      ca_steps = [\<lparr>cs_order = 1, cs_scenario_id = ''PERSISTENCE_CRON_CANARY''\<rparr>,
        \<lparr>cs_order = 2, cs_scenario_id = ''LOG_TAMPER_CANARY''\<rparr>,
        \<lparr>cs_order = 3, cs_scenario_id = ''DATA_EXFILTRATION_CANARY''\<rparr>]\<rparr>]"

text \<open>The catalog is a map on identifiers up to case.\<close>

definition lower_id :: "campaign \<Rightarrow> string" where
  "lower_id c = to_ascii_lowercase (ca_id c)"

definition catalog_inv :: "campaign_catalog \<Rightarrow> bool" where
  "catalog_inv cs \<longleftrightarrow> distinct (map lower_id cs)"

lemma same_lower: "eq_ignore_ascii_case (ca_id c) k \<longleftrightarrow> lower_id c = to_ascii_lowercase k"
  by (simp add: eq_ignore_ascii_case_def lower_id_def)

lemma find_update:
  assumes "i < length xs" and "f y = f (xs ! i)" and "\<forall>j < i. f (xs ! j) \<noteq> f y"
  shows "find (\<lambda>x. f x = k) (xs[i := y]) = (if f y = k then Some y else find (\<lambda>x. f x = k) xs)"
  using assms
proof (induction xs arbitrary: i)
  case (Cons x xs)
  show ?case
  proof (cases i)
    case (Suc j)
    have "\<forall>m < j. f (xs ! m) \<noteq> f y"
    proof (intro allI impI)
      fix m assume "m < j"
      then have "f ((x # xs) ! Suc m) \<noteq> f y" using Cons.prems(3) Suc by blast
      then show "f (xs ! m) \<noteq> f y" by simp
    qed
    moreover have "f x \<noteq> f y" using Cons.prems(3) Suc by fastforce
    ultimately show ?thesis using Cons.IH [of j] Cons.prems(1,2) Suc by auto
  qed (use Cons.prems in auto)
qed simp

lemma register_get:
  "catalog_get (catalog_register c cs) k =
     (if eq_ignore_ascii_case (ca_id c) k then Some c else catalog_get cs k)"
proof (cases "position (\<lambda>x. eq_ignore_ascii_case (ca_id x) (ca_id c)) cs")
  case None
  then have "\<forall>x \<in> set cs. lower_id x \<noteq> lower_id c"
    by (auto simp: position_None_iff eq_ignore_ascii_case_def lower_id_def)
  then have "lower_id c = to_ascii_lowercase k \<Longrightarrow> find (\<lambda>c. lower_id c = to_ascii_lowercase k) cs = None"
    by (auto simp: find_None_iff)
  with None show ?thesis
    by (auto simp: catalog_get_def catalog_register_def find_append same_lower split: option.splits)
next
  case (Some i)
  then have i: "i < length cs" "lower_id (cs ! i) = lower_id c" "\<forall>j < i. lower_id (cs ! j) \<noteq> lower_id c"
    using position_SomeD [OF Some] by (auto simp: eq_ignore_ascii_case_def lower_id_def)
  from find_update [of i cs lower_id c "to_ascii_lowercase k"] i Some show ?thesis
    by (simp add: catalog_get_def catalog_register_def same_lower)
qed

lemma register_inv: "catalog_inv cs \<Longrightarrow> catalog_inv (catalog_register c cs)"
proof (cases "position (\<lambda>x. eq_ignore_ascii_case (ca_id x) (ca_id c)) cs")
  case None
  assume inv: "catalog_inv cs"
  have "\<forall>x \<in> set cs. lower_id x \<noteq> lower_id c"
    using None by (auto simp: position_None_iff eq_ignore_ascii_case_def lower_id_def)
  with None inv show ?thesis by (auto simp: catalog_register_def catalog_inv_def)
next
  case (Some i)
  assume inv: "catalog_inv cs"
  from Some have "i < length cs" "lower_id (cs ! i) = lower_id c"
    using position_SomeD [OF Some] by (auto simp: eq_ignore_ascii_case_def lower_id_def)
  then have "map lower_id (cs[i := c]) = map lower_id cs" by (simp add: map_list_update_same)
  with inv Some show ?thesis by (simp add: catalog_register_def catalog_inv_def)
qed

lemma deregister_get:
  "catalog_get (fst (catalog_deregister k cs)) k' = (if eq_ignore_ascii_case k k' then None else catalog_get cs k')"
proof (cases "eq_ignore_ascii_case k k'")
  case True
  then show ?thesis
    by (auto simp: catalog_get_def catalog_deregister_def Let_def find_None_iff eq_ignore_ascii_case_def)
next
  case False
  then show ?thesis
    by (induction cs) (auto simp: catalog_get_def catalog_deregister_def Let_def eq_ignore_ascii_case_def)
qed

lemma deregister_inv: "catalog_inv cs \<Longrightarrow> catalog_inv (fst (catalog_deregister k cs))"
  by (simp add: catalog_inv_def catalog_deregister_def Let_def distinct_map_filter)

interpretation campaigns: keyed_store catalog_get catalog_register "\<lambda>k cs. fst (catalog_deregister k cs)"
    ca_id eq_ignore_ascii_case catalog_inv
proof
  show "eq_ignore_ascii_case k k' \<Longrightarrow> eq_ignore_ascii_case k' k'' \<Longrightarrow> eq_ignore_ascii_case k k''" for k k' k''
    by (rule eq_ignore_trans)
qed (simp_all add: register_get register_inv deregister_get deregister_inv eq_ignore_sym)

section \<open>Campaign runs\<close>

record campaign_step_result =
  sr_step_order :: nat
  sr_scenario_id :: string
  sr_run_id :: string
  sr_status :: string
  sr_mttd_ms :: nat
  sr_mttr_ms :: nat
  sr_detected :: bool
  sr_evidence :: "run_evidence option"

record campaign_run =
  cr_id :: string
  cr_campaign_id :: string
  cr_campaign_name :: string
  cr_initiator :: string
  cr_target_override :: "string option"
  cr_timeout_sec :: "nat option"
  cr_steps :: "campaign_step list"
  cr_status :: string
  cr_step_results :: "campaign_step_result list"
  cr_superseded_results :: "campaign_step_result list"
  cr_resume_count :: nat
  cr_created_utc :: string
  cr_updated_utc :: string

definition QUEUED :: string where "QUEUED = ''QUEUED''"
definition RUNNING :: string where "RUNNING = ''RUNNING''"
definition COMPLETED :: string where "COMPLETED = ''COMPLETED''"
definition FAILED :: string where "FAILED = ''FAILED''"
definition CANCELLED :: string where "CANCELLED = ''CANCELLED''"
definition INTERRUPTED :: string where "INTERRUPTED = ''INTERRUPTED''"

lemmas status_defs = QUEUED_def RUNNING_def COMPLETED_def FAILED_def CANCELLED_def INTERRUPTED_def

lemma status_distinct: "distinct [QUEUED, RUNNING, COMPLETED, FAILED, CANCELLED, INTERRUPTED]"
  by (simp add: status_defs)

lemma status_neq [simp]:
  "QUEUED \<noteq> RUNNING" "QUEUED \<noteq> COMPLETED" "QUEUED \<noteq> FAILED" "QUEUED \<noteq> CANCELLED" "QUEUED \<noteq> INTERRUPTED"
  "RUNNING \<noteq> QUEUED" "RUNNING \<noteq> COMPLETED" "RUNNING \<noteq> FAILED" "RUNNING \<noteq> CANCELLED" "RUNNING \<noteq> INTERRUPTED"
  "COMPLETED \<noteq> QUEUED" "COMPLETED \<noteq> RUNNING" "COMPLETED \<noteq> FAILED" "COMPLETED \<noteq> CANCELLED" "COMPLETED \<noteq> INTERRUPTED"
  "FAILED \<noteq> QUEUED" "FAILED \<noteq> RUNNING" "FAILED \<noteq> COMPLETED" "FAILED \<noteq> CANCELLED" "FAILED \<noteq> INTERRUPTED"
  "CANCELLED \<noteq> QUEUED" "CANCELLED \<noteq> RUNNING" "CANCELLED \<noteq> COMPLETED" "CANCELLED \<noteq> FAILED" "CANCELLED \<noteq> INTERRUPTED"
  "INTERRUPTED \<noteq> QUEUED" "INTERRUPTED \<noteq> RUNNING" "INTERRUPTED \<noteq> COMPLETED" "INTERRUPTED \<noteq> FAILED" "INTERRUPTED \<noteq> CANCELLED"
  using status_distinct by auto

definition MAX_TERMINAL_RUNS :: nat where
  "MAX_TERMINAL_RUNS = 200"

definition cr_is_terminal :: "campaign_run \<Rightarrow> bool" where
  "cr_is_terminal r \<longleftrightarrow> \<not> (cr_status r = QUEUED \<or> cr_status r = RUNNING)"

definition next_step :: "campaign_run \<Rightarrow> nat" where
  "next_step r = length (cr_step_results r)"

datatype resume_error = ResumeNotFound | NotResumable string

record campaign_run_store =
  st_version :: nat
  st_runs :: "campaign_run list"

definition default_store :: campaign_run_store where
  "default_store = \<lparr>st_version = 1, st_runs = []\<rparr>"

text \<open>The loops of \<open>validate\<close>, over indices as in the source.\<close>

definition valid_plan :: "campaign_step list \<Rightarrow> bool" where
  "valid_plan steps \<longleftrightarrow> list_all (\<lambda>i. cs_order (steps ! i) \<noteq> 0 \<and> cs_scenario_id (steps ! i) \<noteq> []
     \<and> \<not> (i > 0 \<and> cs_order (steps ! (i - 1)) \<ge> cs_order (steps ! i))) [0..<length steps]"

definition valid_progress :: "campaign_step list \<Rightarrow> campaign_step_result list \<Rightarrow> bool" where
  "valid_progress steps results \<longleftrightarrow> list_all (\<lambda>i. cs_order (steps ! i) = sr_step_order (results ! i)
     \<and> cs_scenario_id (steps ! i) = sr_scenario_id (results ! i)
     \<and> \<not> (i + 1 < length results \<and> sr_status (results ! i) \<noteq> COMPLETED)) [0..<length results]"

definition known_status :: "string \<Rightarrow> bool" where
  "known_status s \<longleftrightarrow> s \<in> set [QUEUED, RUNNING, COMPLETED, FAILED, CANCELLED, INTERRUPTED]"

fun validate_runs :: "string set \<Rightarrow> campaign_run list \<Rightarrow> string + unit" where
  "validate_runs ids [] = Inr ()"
| "validate_runs ids (r # rs) =
     (if cr_id r = [] \<or> cr_id r \<in> ids \<or> cr_steps r = []
         \<or> length (cr_step_results r) > length (cr_steps r) \<or> \<not> known_status (cr_status r)
      then Inl ''invalid campaign run snapshot''
      else if \<not> valid_plan (cr_steps r) then Inl ''invalid campaign step plan''
      else if \<not> valid_progress (cr_steps r) (cr_step_results r) then Inl ''invalid campaign progress''
      else if cr_status r = COMPLETED
         \<and> (length (cr_step_results r) \<noteq> length (cr_steps r)
            \<or> list_ex (\<lambda>x. sr_status x \<noteq> COMPLETED) (cr_step_results r))
      then Inl ''incomplete campaign marked completed''
      else validate_runs (insert (cr_id r) ids) rs)"

definition validate_store :: "campaign_run_store \<Rightarrow> string + unit" where
  "validate_store st =
     (if st_version st \<noteq> 1 then Inl ''unsupported campaign run snapshot version''
      else validate_runs {} (st_runs st))"

definition store_get :: "campaign_run_store \<Rightarrow> string \<Rightarrow> campaign_run option" where
  "store_get st rid = find (\<lambda>r. cr_id r = rid) (st_runs st)"

text \<open>A change through \<open>get_mut\<close>: the first run with the identifier is replaced.\<close>

definition store_modify :: "string \<Rightarrow> (campaign_run \<Rightarrow> campaign_run) \<Rightarrow> campaign_run_store \<Rightarrow> campaign_run_store" where
  "store_modify rid f st = st\<lparr>st_runs := map_first (\<lambda>r. cr_id r = rid) f (st_runs st)\<rparr>"

definition store_list ::
  "campaign_run_store \<Rightarrow> nat option \<Rightarrow> string option \<Rightarrow> string option \<Rightarrow> campaign_run list" where
  "store_list st limit campaign_id status =
     (let sel = filter (\<lambda>r. case status of None \<Rightarrow> True | Some s \<Rightarrow> eq_ignore_ascii_case (cr_status r) s)
        (filter (\<lambda>r. case campaign_id of None \<Rightarrow> True | Some c \<Rightarrow> eq_ignore_ascii_case (cr_campaign_id r) c)
          (rev (st_runs st)))
      in case limit of None \<Rightarrow> sel | Some n \<Rightarrow> take n sel)"

definition prunable :: "campaign_run \<Rightarrow> bool" where
  "prunable r \<longleftrightarrow> cr_status r = COMPLETED \<or> cr_status r = FAILED"

fun retain_runs :: "nat \<Rightarrow> campaign_run list \<Rightarrow> campaign_run list" where
  "retain_runs excess [] = []"
| "retain_runs excess (r # rs) =
     (if excess > 0 \<and> prunable r then retain_runs (excess - 1) rs else r # retain_runs excess rs)"

definition prune :: "campaign_run_store \<Rightarrow> campaign_run_store" where
  "prune st = st\<lparr>st_runs :=
     retain_runs (length (filter prunable (st_runs st)) - MAX_TERMINAL_RUNS) (st_runs st)\<rparr>"

definition store_insert :: "campaign_run \<Rightarrow> campaign_run_store \<Rightarrow> campaign_run_store" where
  "store_insert r st = prune (st\<lparr>st_runs := st_runs st @ [r]\<rparr>)"

definition set_last_status :: "string \<Rightarrow> campaign_step_result list \<Rightarrow> campaign_step_result list" where
  "set_last_status s rs = (if rs = [] then [] else butlast rs @ [(last rs)\<lparr>sr_status := s\<rparr>])"

definition interrupt_run :: "string \<Rightarrow> campaign_run \<Rightarrow> campaign_run" where
  "interrupt_run now r =
     r\<lparr>cr_step_results := (if cr_step_results r \<noteq> [] \<and> sr_status (last (cr_step_results r)) = RUNNING
                           then set_last_status INTERRUPTED (cr_step_results r) else cr_step_results r),
       cr_status := INTERRUPTED, cr_updated_utc := now\<rparr>"

definition recover_interrupted :: "string \<Rightarrow> campaign_run_store \<Rightarrow> nat \<times> campaign_run_store" where
  "recover_interrupted now st =
     (length (filter (\<lambda>r. \<not> cr_is_terminal r) (st_runs st)),
      st\<lparr>st_runs := map (\<lambda>r. if cr_is_terminal r then r else interrupt_run now r) (st_runs st)\<rparr>)"

definition resumed_run :: "string \<Rightarrow> campaign_run \<Rightarrow> campaign_run" where
  "resumed_run now r =
     (let r1 = (if cr_step_results r \<noteq> [] \<and> sr_status (last (cr_step_results r)) \<noteq> COMPLETED
                then r\<lparr>cr_step_results := butlast (cr_step_results r),
                       cr_superseded_results := cr_superseded_results r @ [last (cr_step_results r)]\<rparr>
                else r)
      in r1\<lparr>cr_status := QUEUED, cr_resume_count := cr_resume_count r1 + 1, cr_updated_utc := now\<rparr>)"

definition resumable :: "campaign_run \<Rightarrow> bool" where
  "resumable r \<longleftrightarrow> cr_status r = INTERRUPTED \<or> cr_status r = CANCELLED"

definition begin_resume ::
  "string \<Rightarrow> string \<Rightarrow> campaign_run_store \<Rightarrow> (resume_error + campaign_run) \<times> campaign_run_store" where
  "begin_resume now rid st =
     (case store_get st rid of
        None \<Rightarrow> (Inl ResumeNotFound, st)
      | Some r \<Rightarrow>
          (if \<not> resumable r then (Inl (NotResumable (cr_status r)), st)
           else (Inr (resumed_run now r), store_modify rid (resumed_run now) st)))"

section \<open>The store always validates\<close>

text \<open>What \<open>validate\<close> accepts, as a predicate on each run.\<close>

definition run_ok :: "campaign_run \<Rightarrow> bool" where
  "run_ok r \<longleftrightarrow> cr_id r \<noteq> [] \<and> cr_steps r \<noteq> [] \<and> length (cr_step_results r) \<le> length (cr_steps r)
     \<and> known_status (cr_status r) \<and> valid_plan (cr_steps r) \<and> valid_progress (cr_steps r) (cr_step_results r)
     \<and> (cr_status r = COMPLETED \<longrightarrow> length (cr_step_results r) = length (cr_steps r)
          \<and> (\<forall>x \<in> set (cr_step_results r). sr_status x = COMPLETED))"

definition store_ok :: "campaign_run_store \<Rightarrow> bool" where
  "store_ok st \<longleftrightarrow> st_version st = 1 \<and> distinct (map cr_id (st_runs st)) \<and> (\<forall>r \<in> set (st_runs st). run_ok r)"

lemma validate_runs_Inr:
  "validate_runs ids rs = Inr () \<longleftrightarrow>
     (\<forall>r \<in> set rs. run_ok r) \<and> distinct (map cr_id rs) \<and> cr_id ` set rs \<inter> ids = {}"
  by (induction rs arbitrary: ids) (auto simp: run_ok_def list_ex_iff)

lemma validate_store_iff: "validate_store st = Inr () \<longleftrightarrow> store_ok st"
  by (auto simp: validate_store_def store_ok_def validate_runs_Inr)

text \<open>Progress matches a prefix of the plan, all complete but the last.\<close>

lemma valid_progress_snoc:
  "valid_progress steps (rs @ [x]) \<longleftrightarrow>
     (\<forall>y \<in> set rs. sr_status y = COMPLETED)
     \<and> (\<forall>i < length rs. cs_order (steps ! i) = sr_step_order (rs ! i)
           \<and> cs_scenario_id (steps ! i) = sr_scenario_id (rs ! i))
     \<and> cs_order (steps ! length rs) = sr_step_order x \<and> cs_scenario_id (steps ! length rs) = sr_scenario_id x"
  by (auto simp: valid_progress_def list_all_iff nth_append all_set_conv_all_nth)

lemma valid_progress_Nil [simp]: "valid_progress steps []"
  by (simp add: valid_progress_def)

lemma valid_progress_butlast:
  assumes "valid_progress steps rs"
  shows "valid_progress steps (butlast rs) \<and> (\<forall>y \<in> set (butlast rs). sr_status y = COMPLETED)"
proof (cases rs rule: rev_cases)
  case (snoc ys x)
  show ?thesis
  proof (cases ys rule: rev_cases)
    case (snoc zs z)
    have "\<forall>y \<in> set ys. sr_status y = COMPLETED" "valid_progress steps ys"
      using assms valid_progress_snoc [of steps ys x] valid_progress_snoc [of steps zs z] \<open>rs = ys @ [x]\<close> snoc
      by (auto simp: nth_append)
    then show ?thesis using \<open>rs = ys @ [x]\<close> by simp
  qed (use snoc in simp)
qed simp

lemma valid_progress_last:
  assumes "valid_progress steps rs" and "rs \<noteq> []"
    and "sr_step_order x = sr_step_order (last rs)" and "sr_scenario_id x = sr_scenario_id (last rs)"
  shows "valid_progress steps (butlast rs @ [x])"
  using assms by (cases rs rule: rev_cases) (auto simp: valid_progress_snoc)

lemma retain_filter:
  "filter (\<lambda>r. \<not> prunable r) (retain_runs n rs) = filter (\<lambda>r. \<not> prunable r) rs"
  "filter prunable (retain_runs n rs) = drop n (filter prunable rs)"
  by (induction n rs rule: retain_runs.induct) (auto simp: drop_Cons')

lemma retain_subseq: "subseq (retain_runs n rs) rs"
  by (induction n rs rule: retain_runs.induct) auto

lemma subseq_set: "subseq xs ys \<Longrightarrow> set xs \<subseteq> set ys"
  by (induction rule: list_emb.induct) auto

lemma subseq_distinct_map: "subseq xs ys \<Longrightarrow> distinct (map f ys) \<Longrightarrow> distinct (map f xs)"
proof (induction rule: list_emb.induct)
  case (list_emb_Cons2 x y xs ys)
  then have "set xs \<subseteq> set ys" using subseq_set by blast
  with list_emb_Cons2 show ?case by auto
qed auto

lemma prune_ok: "store_ok st \<Longrightarrow> store_ok (prune st)"
proof -
  assume ok: "store_ok st"
  let ?n = "length (filter prunable (st_runs st)) - MAX_TERMINAL_RUNS"
  have sub: "subseq (retain_runs ?n (st_runs st)) (st_runs st)" by (rule retain_subseq)
  then have "distinct (map cr_id (retain_runs ?n (st_runs st)))"
    using ok subseq_distinct_map by (auto simp: store_ok_def)
  moreover have "set (retain_runs ?n (st_runs st)) \<subseteq> set (st_runs st)"
    using sub by (rule subseq_set)
  ultimately show ?thesis using ok by (auto simp: store_ok_def prune_def)
qed

lemma insert_ok:
  "store_ok st \<Longrightarrow> run_ok r \<Longrightarrow> store_get st (cr_id r) = None \<Longrightarrow> store_ok (store_insert r st)"
  unfolding store_insert_def by (rule prune_ok) (auto simp: store_ok_def store_get_def find_None_iff)

lemma modify_ok:
  assumes "store_ok st" and "\<And>r. cr_id (f r) = cr_id r"
    and "\<And>r. store_get st rid = Some r \<Longrightarrow> run_ok (f r)"
  shows "store_ok (store_modify rid f st)"
proof -
  have "map cr_id (map_first (\<lambda>r. cr_id r = rid) f (st_runs st)) = map cr_id (st_runs st)"
    by (rule map_map_first) (simp add: assms(2))
  moreover
  have "\<forall>r \<in> set (map_first (\<lambda>r. cr_id r = rid) f rs). run_ok r"
    if "\<forall>r \<in> set rs. run_ok r" and "\<And>r. find (\<lambda>r. cr_id r = rid) rs = Some r \<Longrightarrow> run_ok (f r)" for rs
    using that by (induction rs) auto
  from this [of "st_runs st"] have "\<forall>r \<in> set (map_first (\<lambda>r. cr_id r = rid) f (st_runs st)). run_ok r"
    using assms(1,3) by (simp add: store_ok_def store_get_def)
  ultimately show ?thesis using assms(1) by (simp add: store_ok_def store_modify_def)
qed

lemma modify_get:
  assumes "\<And>r. cr_id (f r) = cr_id r"
  shows "store_get (store_modify rid f st) k =
    (if k = rid then map_option f (store_get st rid) else store_get st k)"
proof (cases "k = rid")
  case True
  then show ?thesis
    using find_map_first_same [of "\<lambda>r. cr_id r = rid" f "st_runs st"] assms
    by (simp add: store_get_def store_modify_def)
next
  case False
  then show ?thesis
    using find_map_first_other [of "\<lambda>r. cr_id r = rid" "\<lambda>r. cr_id r = k" f "st_runs st"] assms
    by (simp add: store_get_def store_modify_def)
qed

lemma interrupt_run_ok: "run_ok r \<Longrightarrow> run_ok (interrupt_run now r)"
  by (cases "cr_step_results r" rule: rev_cases)
    (auto simp: run_ok_def interrupt_run_def set_last_status_def known_status_def valid_progress_snoc)

lemma recover_ok: "store_ok st \<Longrightarrow> store_ok (snd (recover_interrupted now st))"
proof -
  have "cr_id (if cr_is_terminal r then r else interrupt_run now r) = cr_id r" for r
    by (simp add: interrupt_run_def)
  then have "map cr_id (map (\<lambda>r. if cr_is_terminal r then r else interrupt_run now r) rs) = map cr_id rs" for rs
    by (simp only: map_map comp_def)
  then show "store_ok st \<Longrightarrow> store_ok (snd (recover_interrupted now st))"
    by (auto simp: store_ok_def recover_interrupted_def interrupt_run_ok simp del: map_map)
qed

lemma resumed_run_ok: "run_ok r \<Longrightarrow> run_ok (resumed_run now r)"
proof -
  assume ok: "run_ok r"
  then have "valid_progress (cr_steps r) (butlast (cr_step_results r))"
    using valid_progress_butlast by (auto simp: run_ok_def)
  with ok show ?thesis by (auto simp: run_ok_def resumed_run_def Let_def known_status_def)
qed

lemma store_get_ok: "store_ok st \<Longrightarrow> store_get st k = Some r \<Longrightarrow> run_ok r \<and> cr_id r = k \<and> r \<in> set (st_runs st)"
  by (auto simp: store_ok_def store_get_def find_Some_iff)

lemma begin_resume_ok: "store_ok st \<Longrightarrow> store_ok (snd (begin_resume now rid st))"
proof -
  assume ok: "store_ok st"
  have "cr_id (resumed_run now r) = cr_id r" for r by (simp add: resumed_run_def Let_def)
  then have "store_ok (store_modify rid (resumed_run now) st)"
    using ok store_get_ok [OF ok] resumed_run_ok by (intro modify_ok) blast+
  with ok show ?thesis by (auto simp: begin_resume_def split: option.splits)
qed

text \<open>
  Pruning drops history, never state: every run that is not completed or failed survives in its
  order, at most 200 completed or failed runs remain, and they are the newest ones.
\<close>
theorem prune_keeps_live_runs:
  "filter (\<lambda>r. \<not> prunable r) (st_runs (prune st)) = filter (\<lambda>r. \<not> prunable r) (st_runs st)
   \<and> filter prunable (st_runs (prune st)) = keep_last 200 (filter prunable (st_runs st))
   \<and> subseq (st_runs (prune st)) (st_runs st)"
  by (simp add: prune_def retain_filter keep_last_def MAX_TERMINAL_RUNS_def retain_subseq)

text \<open>
  Resuming never repeats a completed stage: it is granted exactly for a known run that was
  interrupted or cancelled; then the results that were complete are kept as they are, the plan is
  unchanged, the unfinished attempt, if any, moves to the superseded results, and the run is queued
  at the stage that follows its completed ones. Every other run is untouched.
\<close>
lemma begin_resume_keeps_completed:
  assumes "store_ok st" and "begin_resume now rid st = (res, st')"
  shows "(is_ok res \<longleftrightarrow> (\<exists>r. store_get st rid = Some r \<and> resumable r))
    \<and> (\<not> is_ok res \<longrightarrow> st' = st)
    \<and> (\<forall>r r'. store_get st rid = Some r \<longrightarrow> res = Inr r' \<longrightarrow>
          store_get st' rid = Some r' \<and> cr_status r' = QUEUED \<and> cr_steps r' = cr_steps r
          \<and> cr_step_results r' = filter (\<lambda>x. sr_status x = COMPLETED) (cr_step_results r)
          \<and> cr_superseded_results r' @ cr_step_results r' = cr_superseded_results r @
              filter (\<lambda>x. sr_status x \<noteq> COMPLETED) (cr_step_results r)
              @ filter (\<lambda>x. sr_status x = COMPLETED) (cr_step_results r))
    \<and> (\<forall>k. k \<noteq> rid \<longrightarrow> store_get st' k = store_get st k)"
proof -
  have keep: "cr_step_results (resumed_run now r) = filter (\<lambda>x. sr_status x = COMPLETED) (cr_step_results r)
      \<and> cr_superseded_results (resumed_run now r) = cr_superseded_results r @
          filter (\<lambda>x. sr_status x \<noteq> COMPLETED) (cr_step_results r)" if "run_ok r" for r
  proof (cases "cr_step_results r" rule: rev_cases)
    case Nil
    then show ?thesis by (simp add: resumed_run_def Let_def)
  next
    case (snoc ys x)
    then have "\<forall>y \<in> set ys. sr_status y = COMPLETED"
      using that by (simp add: run_ok_def valid_progress_snoc)
    then have "filter (\<lambda>x. sr_status x = COMPLETED) ys = ys" "filter (\<lambda>x. sr_status x \<noteq> COMPLETED) ys = []"
      by (simp_all add: filter_id_conv filter_empty_conv)
    with snoc show ?thesis by (simp add: resumed_run_def Let_def)
  qed
  have id: "cr_id (resumed_run now r) = cr_id r" for r by (simp add: resumed_run_def Let_def)
  show ?thesis
  proof (cases "store_get st rid")
    case None
    then show ?thesis using assms(2) by (auto simp: begin_resume_def)
  next
    case (Some r)
    note ok = store_get_ok [OF assms(1) Some]
    show ?thesis
    proof (cases "resumable r")
      case False
      then show ?thesis using assms(2) Some by (auto simp: begin_resume_def)
    next
      case True
      then have res: "res = Inr (resumed_run now r)" "st' = store_modify rid (resumed_run now) st"
        using assms(2) Some by (auto simp: begin_resume_def)
      have "cr_status (resumed_run now r) = QUEUED" "cr_steps (resumed_run now r) = cr_steps r"
        by (simp_all add: resumed_run_def Let_def)
      with res Some True keep [of r] ok show ?thesis
        by (simp add: modify_get [of "resumed_run now", OF id])
    qed
  qed
qed

end
