(* ===== verification/Persistent.thy ===== *)
theory Persistent
  imports Interfaces
begin

text \<open>
  \<open>crates/asmodeus-control-plane/src/persistent.rs\<close>: the transactional JSON snapshot that holds the
  campaign catalog, the campaign runs and the schedules. A cell is the value in memory and the file,
  if a path is configured; serde_json is an argument. A write goes to a temporary file that is
  renamed over the snapshot, so its outcome is success or the old file. The \<open>writer\<close> mutex makes
  updates sequential: a run of the cell is a list of updates with their I/O outcomes.
\<close>

section \<open>The cell\<close>

record 'a json_codec =
  js_enc :: "'a \<Rightarrow> string"
  js_dec :: "string \<Rightarrow> 'a option"

text \<open>What the code relies on: the text of a value parses back to it.\<close>

definition json_ok :: "'a json_codec \<Rightarrow> bool" where
  "json_ok C \<longleftrightarrow> (\<forall>x. js_dec C (js_enc C x) = Some x)"

datatype disk = Absent | Bytes string | Unreadable

datatype write_outcome = WriteOk | WriteFailed

record 'a persistent =
  pe_value :: 'a
  pe_disk :: "disk option"

definition pe_load :: "'a json_codec \<Rightarrow> disk option \<Rightarrow> 'a \<Rightarrow> string + 'a persistent" where
  "pe_load C path dflt =
     (case path of
        None \<Rightarrow> Inr \<lparr>pe_value = dflt, pe_disk = None\<rparr>
      | Some (Bytes bytes) \<Rightarrow>
          (case js_dec C bytes of
             Some v \<Rightarrow> Inr \<lparr>pe_value = v, pe_disk = path\<rparr>
           | None \<Rightarrow> Inl ''invalid snapshot'')
      | Some Unreadable \<Rightarrow> Inl ''io error''
      | Some Absent \<Rightarrow> Inr \<lparr>pe_value = dflt, pe_disk = path\<rparr>)"

text \<open>
  The change runs on a clone; the file is written unless the text is unchanged and the file exists;
  memory is replaced last.
\<close>

definition pe_update ::
  "'a json_codec \<Rightarrow> ('a \<Rightarrow> (string + 'r) \<times> 'a) \<Rightarrow> write_outcome \<Rightarrow> 'a persistent
     \<Rightarrow> (string + 'r) \<times> 'a persistent" where
  "pe_update C change io p =
     (case change (pe_value p) of
        (Inl e, _) \<Rightarrow> (Inl e, p)
      | (Inr result, nxt) \<Rightarrow>
          (case pe_disk p of
             None \<Rightarrow> (Inr result, p\<lparr>pe_value := nxt\<rparr>)
           | Some file \<Rightarrow>
               (if js_enc C nxt = js_enc C (pe_value p) \<and> file \<noteq> Absent
                then (Inr result, p\<lparr>pe_value := nxt\<rparr>)
                else (case io of
                    WriteFailed \<Rightarrow> (Inl ''io error'', p)
                  | WriteOk \<Rightarrow> (Inr result, p\<lparr>pe_value := nxt, pe_disk := Some (Bytes (js_enc C nxt))\<rparr>)))))"

section \<open>Memory and disk agree\<close>

definition pe_inv :: "'a json_codec \<Rightarrow> 'a \<Rightarrow> ('a \<Rightarrow> bool) \<Rightarrow> 'a persistent \<Rightarrow> bool" where
  "pe_inv C dflt ok p \<longleftrightarrow> ok (pe_value p)
     \<and> (case pe_disk p of
          None \<Rightarrow> True
        | Some Absent \<Rightarrow> pe_value p = dflt
        | Some Unreadable \<Rightarrow> False
        | Some (Bytes b) \<Rightarrow> js_dec C b = Some (pe_value p))"

lemma pe_update_cases:
  assumes "pe_update C change io p = (res, p')"
  obtains e where "res = Inl e" and "p' = p"
  | r nxt where "change (pe_value p) = (Inr r, nxt)" and "res = Inr r" and "pe_value p' = nxt"
  using assms
  by (cases "change (pe_value p)"; cases "fst (change (pe_value p))")
    (auto simp: pe_update_def split: option.splits if_splits write_outcome.splits)

lemma pe_update_inv:
  assumes "json_ok C" and "pe_inv C dflt ok p"
    and "\<And>r v. ok (pe_value p) \<Longrightarrow> change (pe_value p) = (Inr r, v) \<Longrightarrow> ok v"
  shows "pe_inv C dflt ok (snd (pe_update C change io p))"
proof (cases "change (pe_value p)")
  case (Pair res nxt)
  show ?thesis
  proof (cases res)
    case (Inl e)
    with Pair assms(2) show ?thesis by (simp add: pe_update_def)
  next
    case (Inr r)
    with Pair assms(2,3) have "ok nxt" by (simp add: pe_inv_def)
    moreover have "nxt = pe_value p" if "js_enc C nxt = js_enc C (pe_value p)"
      using assms(1) that unfolding json_ok_def by (metis option.inject)
    ultimately show ?thesis
      using Pair Inr assms(1,2)
      by (auto simp: pe_update_def pe_inv_def json_ok_def split: option.splits write_outcome.splits disk.splits)
  qed
qed

lemma pe_load_inv:
  assumes "pe_load C path dflt = Inr p" and "ok (pe_value p)"
  shows "pe_inv C dflt ok p"
  using assms by (auto simp: pe_load_def pe_inv_def split: option.splits disk.splits)

lemma pe_inv_reload:
  assumes "pe_inv C dflt ok p" and "pe_disk p \<noteq> None"
  shows "pe_load C (pe_disk p) dflt = Inr p"
  using assms by (auto simp: pe_inv_def pe_load_def split: disk.splits option.splits)

text \<open>A cell driven by updates: each is a change that keeps the content's invariant, with an outcome.\<close>

definition keeps :: "('a \<Rightarrow> bool) \<Rightarrow> ('a \<Rightarrow> (string + 'r) \<times> 'a) \<Rightarrow> bool" where
  "keeps ok change \<longleftrightarrow> (\<forall>v r v'. ok v \<longrightarrow> change v = (Inr r, v') \<longrightarrow> ok v')"

text \<open>
  The file is never ahead of or behind memory: what the last acknowledged update published is what
  a restart finds.
\<close>

lemma pe_run_inv:
  assumes "json_ok C" and "pe_inv C dflt ok p" and "\<forall>x \<in> set xs. keeps ok (fst x)"
  shows "pe_inv C dflt ok (fold (\<lambda>(change, io) p. snd (pe_update C change io p)) xs p)"
  using assms(2,3)
proof (induction xs arbitrary: p)
  case (Cons x xs)
  obtain change io where x: "x = (change, io)" by (cases x)
  have "pe_inv C dflt ok (snd (pe_update C change io p))"
    using Cons.prems(2) x by (intro pe_update_inv [OF assms(1) Cons.prems(1)]) (auto simp: keeps_def)
  with Cons x show ?case by simp
qed simp

text \<open>
  The updates that were acknowledged, applied to the value alone: what a client may believe.
\<close>

fun acknowledged ::
  "'a json_codec \<Rightarrow> (('a \<Rightarrow> (string + 'r) \<times> 'a) \<times> write_outcome) list \<Rightarrow> 'a persistent
     \<Rightarrow> ('a \<Rightarrow> (string + 'r) \<times> 'a) list" where
  "acknowledged C [] p = []"
| "acknowledged C ((change, io) # xs) p =
     (let (res, p') = pe_update C change io p
      in (if is_ok res then [change] else []) @ acknowledged C xs p')"

text \<open>
  C23: A snapshot is transactional: however the writes of a sequence of updates fail or succeed, the
  value in memory is the result of exactly the acknowledged updates, in their order, and with a path
  configured a restart loads exactly that value (with no file yet, the value is still the default).
\<close>
theorem persistent_restart_exact:
  assumes "json_ok C" and "pe_load C path dflt = Inr p" and "path \<noteq> None"
    and "fold (\<lambda>(change, io) p. snd (pe_update C change io p)) xs p = p'"
  shows "pe_value p' = fold (\<lambda>change v. snd (change v)) (acknowledged C xs p) (pe_value p)
    \<and> pe_load C (pe_disk p') dflt = Inr p'"
proof -
  have value_run: "pe_value (fold (\<lambda>(change, io) p. snd (pe_update C change io p)) xs q)
      = fold (\<lambda>change v. snd (change v)) (acknowledged C xs q) (pe_value q)" for q
  proof (induction xs arbitrary: q)
    case (Cons x xs)
    obtain change io where x: "x = (change, io)" by (cases x)
    obtain res q' where u: "pe_update C change io q = (res, q')" by (cases "pe_update C change io q")
    from u have "pe_value q' = (if is_ok res then snd (change (pe_value q)) else pe_value q)"
      by (rule pe_update_cases) auto
    with Cons.IH [of q'] x u show ?case by simp
  qed simp
  have inv: "pe_inv C dflt (\<lambda>_. True) p" by (rule pe_load_inv [OF assms(2)]) simp
  have "pe_inv C dflt (\<lambda>_. True) p'"
    using pe_run_inv [OF assms(1) inv, of xs] assms(4) by (simp add: keeps_def)
  moreover have "pe_disk q \<noteq> None \<Longrightarrow>
      pe_disk (fold (\<lambda>(change, io) p. snd (pe_update C change io p)) ys q) \<noteq> None" for ys q
  proof (induction ys arbitrary: q)
    case (Cons y ys)
    obtain change io where y: "y = (change, io)" by (cases y)
    have "pe_disk (snd (pe_update C change io q)) \<noteq> None"
      using Cons.prems by (auto simp: pe_update_def split: option.splits sum.splits prod.splits write_outcome.splits)
    with Cons.IH [of "snd (pe_update C change io q)"] y show ?case by simp
  qed simp
  moreover have "pe_disk p \<noteq> None"
    using assms(2,3) by (auto simp: pe_load_def split: option.splits disk.splits)
  ultimately show ?thesis
    using value_run [of p] assms(4) pe_inv_reload [of C dflt "\<lambda>_. True" p'] by auto
qed

text \<open>A codec of unary numerals, and three updates of which the second is lost.\<close>

definition unary :: "nat json_codec" where
  "unary = \<lparr>js_enc = (\<lambda>n. replicate n CHR ''I''), js_dec = (\<lambda>s. Some (length s))\<rparr>"

definition add_change :: "nat \<Rightarrow> nat \<Rightarrow> (string + unit) \<times> nat" where
  "add_change k v = (Inr (), v + k)"

lemma unary_ok: "json_ok unary"
  by (simp add: json_ok_def unary_def)

theorem persistent_restart_exact_witness:
  "pe_value (fold (\<lambda>(change, io) p. snd (pe_update unary change io p))
      [(add_change 2, WriteOk), (add_change 5, WriteFailed), (add_change 1, WriteOk)]
      \<lparr>pe_value = 0, pe_disk = Some Absent\<rparr>) = 3"
  using persistent_restart_exact [OF unary_ok, of "Some Absent" 0 "\<lparr>pe_value = 0, pe_disk = Some Absent\<rparr>"
      "[(add_change 2, WriteOk), (add_change 5, WriteFailed), (add_change 1, WriteOk)]"]
  by (simp add: pe_load_def pe_update_def unary_def add_change_def is_ok_def numeral_eq_Suc)

end
