(* ===== verification/Campaign_Exec.thy ===== *)
theory Campaign_Exec
  imports Campaigns Audit_Store Persistent Domain
begin

text \<open>
  \<open>crates/asmodeus-control-plane/src/campaign_execution.rs\<close> and \<open>run_control.rs\<close>: the campaign
  worker, resumption against the audit trail, and the control handle that cancellation and stage
  admission share.

  The worker owns its run while it lives, so \<open>execute\<close> is a function of the run and of what its
  environment answers at each stage (\<open>stage_env\<close>): whether a cancel request is visible at each of
  the three points where the worker looks, whether each durable write succeeds, whether the catalog
  knows the scenario, its start and completion, and the audit record found afterwards. It returns
  the result and the trace of durable writes and admissions. It terminates because every round
  records one stage result.
\<close>

section \<open>The control handle\<close>

record control_state =
  cc_cancelled :: bool
  cc_current :: "string option"

definition control_default :: control_state where
  "control_default = \<lparr>cc_cancelled = False, cc_current = None\<rparr>"

text \<open>Both operations answer with the stage run the caller must cancel, if any.\<close>

definition control_cancel :: "control_state \<Rightarrow> string option \<times> control_state" where
  "control_cancel s = (cc_current s, s\<lparr>cc_cancelled := True\<rparr>)"

definition set_current :: "string option \<Rightarrow> control_state \<Rightarrow> bool \<times> control_state" where
  "set_current r s = (cc_cancelled s \<and> r \<noteq> None, s\<lparr>cc_current := r\<rparr>)"

datatype control_op = CcCancel | CcSet "string option"

fun control_step :: "control_op \<Rightarrow> control_state \<times> string list \<Rightarrow> control_state \<times> string list" where
  "control_step CcCancel (s, out) =
     (let (r, s') = control_cancel s in (s', out @ (case r of None \<Rightarrow> [] | Some k \<Rightarrow> [k])))"
| "control_step (CcSet r) (s, out) =
     (let (must, s') = set_current r s in
      (s', out @ (if must then (case r of None \<Rightarrow> [] | Some k \<Rightarrow> [k]) else [])))"

definition no_lost_cancel :: "control_state \<times> string list \<Rightarrow> bool" where
  "no_lost_cancel x \<longleftrightarrow> (\<forall>k. cc_cancelled (fst x) \<longrightarrow> cc_current (fst x) = Some k \<longrightarrow> k \<in> set (snd x))"

lemma no_lost_cancel_step: "no_lost_cancel x \<Longrightarrow> no_lost_cancel (control_step y x)"
  by (cases x; cases y)
    (auto simp: no_lost_cancel_def control_cancel_def set_current_def Let_def split: option.splits)

interpretation control: guarded_system control_step no_lost_cancel "\<lambda>x. cc_cancelled (fst x)"
proof
  show "no_lost_cancel x \<Longrightarrow> no_lost_cancel (control_step y x)" for x y by (rule no_lost_cancel_step)
  show "no_lost_cancel x \<Longrightarrow> cc_cancelled (fst x) \<Longrightarrow> cc_cancelled (fst (control_step y x))" for x y
    by (cases x; cases y) (auto simp: control_cancel_def set_current_def Let_def)
qed

text \<open>
  A campaign cancel request is never lost: in every interleaving of cancel requests with stage
  admissions and completions, once a cancel was requested any stage run that is current has been
  handed out for cancellation, by the canceller if it was admitted before and by the worker if it
  was admitted after; and the request stays in force.
\<close>
theorem cancel_never_lost:
  assumes "CcCancel \<in> set xs" and "fold control_step xs (control_default, []) = (s, out)"
    and "cc_current s = Some k"
  shows "k \<in> set out \<and> cc_cancelled s"
proof -
  have base: "no_lost_cancel (control_default, [])" by (simp add: no_lost_cancel_def control_default_def)
  obtain ys zs where xs: "xs = (ys @ [CcCancel]) @ zs" using assms(1) by (auto simp: in_set_conv_decomp)
  have "cc_cancelled (fst (fold control_step (ys @ [CcCancel]) (control_default, [])))"
    by (cases "fold control_step ys (control_default, [])") (simp add: control_cancel_def Let_def)
  then have "cc_cancelled (fst (fold control_step xs (control_default, [])))"
    unfolding xs by (rule control.settled_after [OF base])
  moreover have "no_lost_cancel (fold control_step xs (control_default, []))"
    by (rule control.inv_run [OF base])
  ultimately show ?thesis using assms(2,3) by (auto simp: no_lost_cancel_def)
qed

theorem cancel_never_lost_witness:
  "''run_7'' \<in> set (snd (fold control_step [CcCancel, CcSet (Some ''run_7'')] (control_default, [])))"
proof -
  have "fold control_step [CcCancel, CcSet (Some ''run_7'')] (control_default, [])
      = (\<lparr>cc_cancelled = True, cc_current = Some ''run_7''\<rparr>, [''run_7''])"
    by (simp add: control_cancel_def set_current_def control_default_def)
  from cancel_never_lost [OF _ this] this show ?thesis by simp
qed

section \<open>Authorisation\<close>

datatype campaign_error = CampNotFound string | CampForbidden string | CampConflict string
  | CampPersistence string

text \<open>\<open>cat\<close> gives the category of a catalog entry.\<close>

fun authorize_steps :: "(string \<Rightarrow> category option) \<Rightarrow> role \<Rightarrow> campaign_step list \<Rightarrow> campaign_error + unit" where
  "authorize_steps cat role [] = Inr ()"
| "authorize_steps cat role (step # steps) =
     (case cat (cs_scenario_id step) of
        None \<Rightarrow> Inl (CampNotFound (''scenario not found: '' @ cs_scenario_id step))
      | Some category \<Rightarrow>
          (if \<not> can role (required_capability category)
           then Inl (CampForbidden ''role may not execute every campaign category'')
           else authorize_steps cat role steps))"

definition authorize :: "(string \<Rightarrow> category option) \<Rightarrow> campaign_run \<Rightarrow> role \<Rightarrow> campaign_error + unit" where
  "authorize cat run role =
     (if \<not> can role RunRedTeam \<and> \<not> can role InjectChaos
      then Inl (CampForbidden ''role may not launch attack campaigns'')
      else authorize_steps cat role (cr_steps run))"

lemma authorize_steps_ok:
  "is_ok (authorize_steps cat role steps) \<longleftrightarrow>
     (\<forall>s \<in> set steps. \<exists>c. cat (cs_scenario_id s) = Some c \<and> can role (required_capability c))"
  by (induction steps) (auto simp: is_ok_def split: option.splits)

section \<open>Resuming against the audit trail\<close>

definition simulated_record :: "audit_record \<Rightarrow> bool" where
  "simulated_record r \<longleftrightarrow>
     (case ar_evidence r of None \<Rightarrow> False | Some e \<Rightarrow> ev_execution_mode e = ''simulated'')"

definition cleaned_record :: "audit_record \<Rightarrow> bool" where
  "cleaned_record r \<longleftrightarrow> ar_cleanup_status r = ''SUCCESS'' \<or> ar_cleanup_status r = ''NOT_APPLICABLE''"

text \<open>The stage that was committed before the process died: its result is taken from the record.\<close>

definition adopt_record :: "audit_record \<Rightarrow> campaign_run \<Rightarrow> campaign_run" where
  "adopt_record rec r =
     r\<lparr>cr_step_results := butlast (cr_step_results r) @
         [(last (cr_step_results r))\<lparr>sr_status := ar_status rec,
            sr_mttd_ms := ms_mttd_ms (ar_measurements rec), sr_mttr_ms := ms_mttr_ms (ar_measurements rec),
            sr_detected := ms_blue_team_detected (ar_measurements rec), sr_evidence := ar_evidence rec\<rparr>]\<rparr>"

definition prepare_resume ::
  "string \<Rightarrow> (string \<Rightarrow> audit_record option) \<Rightarrow> string \<Rightarrow> campaign_run_store
     \<Rightarrow> (resume_error + campaign_run) \<times> campaign_run_store" where
  "prepare_resume now audit rid st =
     (case store_get st rid of
        None \<Rightarrow> (Inl ResumeNotFound, st)
      | Some current \<Rightarrow>
          (if \<not> resumable current then (Inl (NotResumable (cr_status current)), st)
           else if cr_step_results current \<noteq> [] \<and> sr_status (last (cr_step_results current)) \<noteq> COMPLETED then
             (let lst = last (cr_step_results current) in
              case audit (sr_run_id lst) of
                Some rec \<Rightarrow>
                  (if \<not> ar_is_terminal rec \<or> (\<not> simulated_record rec \<and> \<not> cleaned_record rec)
                   then (Inl (NotResumable ''stage cleanup is unconfirmed''), st)
                   else begin_resume now rid
                     (if ar_status rec = COMPLETED then store_modify rid (adopt_record rec) st else st))
              | None \<Rightarrow>
                  (if sr_status lst = CANCELLED \<and> sr_run_id lst = [] then begin_resume now rid st
                   else (Inl (NotResumable ''previous stage audit is unavailable; cannot prove safe retry''), st)))
           else begin_resume now rid st))"

section \<open>The worker\<close>

record stage_env =
  en_cancel_before :: bool
  en_intent_ok :: bool
  en_cancel_admit :: bool
  en_known :: bool
  en_started :: bool
  en_completed_ok :: bool
  en_audit :: "audit_record option"
  en_cancel_after :: bool
  en_commit_ok :: bool
  en_run_id :: string
  en_now :: string

datatype exec_event = Saved campaign_run | Admitted string string

text \<open>
  \<open>update\<close>: the change, a new timestamp, a copy of the run for the worker, then the pruning. With an
  owned run in the store its outcome is \<open>saved\<close>, the form the worker below uses.
\<close>

definition campaign_update ::
  "string \<Rightarrow> string \<Rightarrow> (campaign_run \<Rightarrow> campaign_run) \<Rightarrow> campaign_run_store
     \<Rightarrow> (string + campaign_run) \<times> campaign_run_store" where
  "campaign_update now rid change st =
     (case store_get st rid of
        None \<Rightarrow> (Inl ''campaign run disappeared'', st)
      | Some run \<Rightarrow>
          (let run' = (change run)\<lparr>cr_updated_utc := now\<rparr>
           in (Inr run', prune (store_modify rid (\<lambda>_. run') st))))"

definition saved :: "bool \<Rightarrow> string \<Rightarrow> campaign_run \<Rightarrow> (string + campaign_run) \<times> exec_event list" where
  "saved ok now r =
     (let r' = r\<lparr>cr_updated_utc := now\<rparr> in if ok then (Inr r', [Saved r']) else (Inl ''io error'', []))"

definition push_pending :: "string \<Rightarrow> campaign_step \<Rightarrow> campaign_run \<Rightarrow> campaign_run" where
  "push_pending run_id step r =
     r\<lparr>cr_status := RUNNING, cr_step_results := cr_step_results r @
        [\<lparr>sr_step_order = cs_order step, sr_scenario_id = cs_scenario_id step, sr_run_id = run_id,
          sr_status = RUNNING, sr_mttd_ms = 0, sr_mttr_ms = 0, sr_detected = False, sr_evidence = None\<rparr>]\<rparr>"

definition cancel_pending :: "campaign_run \<Rightarrow> campaign_run" where
  "cancel_pending r =
     r\<lparr>cr_status := CANCELLED, cr_step_results := butlast (cr_step_results r) @
        [(last (cr_step_results r))\<lparr>sr_status := CANCELLED, sr_run_id := []\<rparr>]\<rparr>"

definition stage_result :: "string \<Rightarrow> campaign_step \<Rightarrow> audit_record option \<Rightarrow> campaign_step_result" where
  "stage_result run_id step audit =
     \<lparr>sr_step_order = cs_order step, sr_scenario_id = cs_scenario_id step, sr_run_id = run_id,
      sr_status = (case audit of Some r \<Rightarrow> ar_status r | None \<Rightarrow> FAILED),
      sr_mttd_ms = (case audit of Some r \<Rightarrow> ms_mttd_ms (ar_measurements r) | None \<Rightarrow> 0),
      sr_mttr_ms = (case audit of Some r \<Rightarrow> ms_mttr_ms (ar_measurements r) | None \<Rightarrow> 0),
      sr_detected = (case audit of Some r \<Rightarrow> ms_blue_team_detected (ar_measurements r) | None \<Rightarrow> False),
      sr_evidence = Option.bind audit ar_evidence\<rparr>"

definition stage_status :: "bool \<Rightarrow> string \<Rightarrow> bool \<Rightarrow> nat \<Rightarrow> nat \<Rightarrow> string" where
  "stage_status outcome status cancelled n_done n_all =
     (if \<not> outcome \<and> (status = QUEUED \<or> status = RUNNING) then INTERRUPTED
      else if status = CANCELLED then CANCELLED
      else if status \<noteq> COMPLETED \<or> \<not> outcome then FAILED
      else if cancelled then CANCELLED
      else if n_done = n_all then COMPLETED
      else RUNNING)"

definition commit_result :: "campaign_step_result \<Rightarrow> string \<Rightarrow> campaign_run \<Rightarrow> campaign_run" where
  "commit_result res status r =
     r\<lparr>cr_step_results := butlast (cr_step_results r) @ [res], cr_status := status\<rparr>"

text \<open>
  One round of the loop. Every return from inside the round leaves the run in a status other than
  RUNNING, so the test after the commit also covers the early returns.
\<close>

definition run_stage ::
  "stage_env \<Rightarrow> campaign_step \<Rightarrow> campaign_run \<Rightarrow> (string + campaign_run) \<times> exec_event list" where
  "run_stage e step run =
     (if en_cancel_before e then saved (en_commit_ok e) (en_now e) (run\<lparr>cr_status := CANCELLED\<rparr>)
      else (case saved (en_intent_ok e) (en_now e) (push_pending (en_run_id e) step run) of
        (Inl err, ev) \<Rightarrow> (Inl err, ev)
      | (Inr run1, ev1) \<Rightarrow>
          (if en_cancel_admit e then
             (let (res, ev) = saved (en_commit_ok e) (en_now e) (cancel_pending run1) in (res, ev1 @ ev))
           else
             (let admitted = (if en_known e \<and> en_started e
                              then [Admitted (cs_scenario_id step) (en_run_id e)] else []);
                  outcome = (en_known e \<and> en_started e \<and> en_completed_ok e);
                  result = stage_result (en_run_id e) step (en_audit e);
                  status = stage_status outcome (sr_status result) (en_cancel_after e)
                             (next_step run1) (length (cr_steps run1));
                  (res, ev2) = saved (en_commit_ok e) (en_now e) (commit_result result status run1)
              in (res, ev1 @ admitted @ ev2)))))"

lemma stage_continues:
  assumes "run_stage e step run = (Inr run', ev)" and "cr_status run' = RUNNING"
  shows "cr_steps run' = cr_steps run \<and> next_step run' = Suc (next_step run)"
  using assms
  by (auto simp: run_stage_def saved_def push_pending_def cancel_pending_def commit_result_def next_step_def
      Let_def split: if_splits)

function execute ::
  "(nat \<Rightarrow> stage_env) \<Rightarrow> campaign_run \<Rightarrow> (string + campaign_run) \<times> exec_event list" where
  "execute env run =
     (if next_step run < length (cr_steps run) then
        (case run_stage (env (next_step run)) (cr_steps run ! next_step run) run of
           (Inl err, ev) \<Rightarrow> (Inl err, ev)
         | (Inr run', ev) \<Rightarrow>
             (if cr_status run' \<noteq> RUNNING then (Inr run', ev)
              else (let (res, ev') = execute env run' in (res, ev @ ev'))))
      else saved (en_commit_ok (env (next_step run))) (en_now (env (next_step run)))
             (run\<lparr>cr_status := COMPLETED\<rparr>))"
  by pat_completeness auto
termination
  by (relation "measure (\<lambda>(env, run). length (cr_steps run) - next_step run)") (auto dest!: stage_continues [OF sym])

declare execute.simps [simp del]

section \<open>The worker keeps its run valid and writes intent first\<close>

text \<open>A run its worker may continue: valid, and every stage so far completed.\<close>

definition worker_ready :: "campaign_run \<Rightarrow> bool" where
  "worker_ready r \<longleftrightarrow> run_ok r \<and> (cr_status r = QUEUED \<or> cr_status r = RUNNING)
     \<and> (\<forall>x \<in> set (cr_step_results r). sr_status x = COMPLETED)"

text \<open>
  A monitor of the trace: a stage run is admitted only right after the write that records it as the
  running last stage, and that write admits one run.
\<close>

definition records_intent :: "campaign_run \<Rightarrow> string \<Rightarrow> string \<Rightarrow> bool" where
  "records_intent r scenario run_id \<longleftrightarrow> cr_step_results r \<noteq> []
     \<and> sr_scenario_id (last (cr_step_results r)) = scenario \<and> sr_run_id (last (cr_step_results r)) = run_id
     \<and> sr_status (last (cr_step_results r)) = RUNNING"

fun durable_intent :: "campaign_run option \<Rightarrow> exec_event list \<Rightarrow> bool" where
  "durable_intent p [] = True"
| "durable_intent p (Saved r # ev) = durable_intent (Some r) ev"
| "durable_intent None (Admitted s k # ev) = False"
| "durable_intent (Some r) (Admitted s k # ev) = (records_intent r s k \<and> durable_intent None ev)"

lemma durable_intent_append:
  "durable_intent p xs \<Longrightarrow> (\<And>q. durable_intent q ys) \<Longrightarrow> durable_intent p (xs @ ys)"
  by (induction p xs rule: durable_intent.induct) auto

fun saved_runs :: "exec_event list \<Rightarrow> campaign_run list" where
  "saved_runs [] = []"
| "saved_runs (Saved r # ev) = r # saved_runs ev"
| "saved_runs (Admitted s k # ev) = saved_runs ev"

fun admissions :: "exec_event list \<Rightarrow> string list" where
  "admissions [] = []"
| "admissions (Saved r # ev) = admissions ev"
| "admissions (Admitted s k # ev) = s # admissions ev"

lemma trace_append [simp]:
  "saved_runs (xs @ ys) = saved_runs xs @ saved_runs ys" "admissions (xs @ ys) = admissions xs @ admissions ys"
  by (induction xs rule: saved_runs.induct) auto

lemma run_ok_restamp [simp]:
  "run_ok (r\<lparr>cr_updated_utc := t\<rparr>) = run_ok r" "worker_ready (r\<lparr>cr_updated_utc := t\<rparr>) = worker_ready r"
  "records_intent (r\<lparr>cr_updated_utc := t\<rparr>) s k = records_intent r s k"
  by (simp_all add: run_ok_def worker_ready_def records_intent_def)

lemma known_stage_status: "known_status (stage_status b s c m n)"
  by (simp add: stage_status_def known_status_def)

lemma stage_status_iff:
  "stage_status b s c m n = COMPLETED \<longleftrightarrow> b \<and> s = COMPLETED \<and> \<not> c \<and> m = n"
  "stage_status b s c m n = RUNNING \<longleftrightarrow> b \<and> s = COMPLETED \<and> \<not> c \<and> m \<noteq> n"
  "stage_status b s c m n \<noteq> QUEUED"
  by (auto simp: stage_status_def)

text \<open>The state of the run at each write of a round.\<close>

lemma ready_prefix:
  assumes "worker_ready r" and "next_step r < length (cr_steps r)"
    and "sr_step_order x = cs_order (cr_steps r ! next_step r)"
    and "sr_scenario_id x = cs_scenario_id (cr_steps r ! next_step r)"
  shows "valid_progress (cr_steps r) (cr_step_results r @ [x])"
proof -
  have "valid_progress (cr_steps r) (cr_step_results r)" using assms(1) by (simp add: worker_ready_def run_ok_def)
  then have "\<forall>i < length (cr_step_results r). cs_order (cr_steps r ! i) = sr_step_order (cr_step_results r ! i)
      \<and> cs_scenario_id (cr_steps r ! i) = sr_scenario_id (cr_step_results r ! i)"
    by (auto simp: valid_progress_def list_all_iff)
  with assms show ?thesis by (auto simp: valid_progress_snoc worker_ready_def next_step_def)
qed

lemma run_ok_cancelled: "worker_ready r \<Longrightarrow> run_ok (r\<lparr>cr_status := CANCELLED\<rparr>)"
  by (simp add: worker_ready_def run_ok_def known_status_def)

lemma run_ok_completed:
  "worker_ready r \<Longrightarrow> \<not> next_step r < length (cr_steps r) \<Longrightarrow> run_ok (r\<lparr>cr_status := COMPLETED\<rparr>)"
  by (auto simp: worker_ready_def run_ok_def known_status_def next_step_def)

lemma run_ok_pending:
  assumes "worker_ready r" and "next_step r < length (cr_steps r)"
  shows "run_ok (push_pending k (cr_steps r ! next_step r) r)"
  using assms ready_prefix [OF assms]
  by (auto simp: worker_ready_def run_ok_def push_pending_def known_status_def next_step_def)

lemma run_ok_cancel_pending:
  assumes "worker_ready r" and "next_step r < length (cr_steps r)"
  shows "run_ok (cancel_pending ((push_pending k (cr_steps r ! next_step r) r)\<lparr>cr_updated_utc := t\<rparr>))"
  using assms ready_prefix [OF assms]
  by (auto simp: worker_ready_def run_ok_def push_pending_def cancel_pending_def known_status_def next_step_def)

lemma commit_pending_eq:
  "commit_result x s ((push_pending k step r)\<lparr>cr_updated_utc := t\<rparr>) =
     r\<lparr>cr_step_results := cr_step_results r @ [x], cr_status := s, cr_updated_utc := t\<rparr>"
  by (simp add: commit_result_def push_pending_def)

lemma run_ok_commit:
  assumes "worker_ready r" and "next_step r < length (cr_steps r)"
    and "x = stage_result k (cr_steps r ! next_step r) a"
    and "s = stage_status b (sr_status x) c (Suc (next_step r)) (length (cr_steps r))"
  shows "run_ok (r\<lparr>cr_step_results := cr_step_results r @ [x], cr_status := s, cr_updated_utc := t\<rparr>)
    \<and> (s = RUNNING \<longrightarrow> worker_ready (r\<lparr>cr_step_results := cr_step_results r @ [x], cr_status := s, cr_updated_utc := t\<rparr>))"
proof -
  have "valid_progress (cr_steps r) (cr_step_results r @ [x])"
    using assms(3) by (intro ready_prefix [OF assms(1,2)]) (simp_all add: stage_result_def)
  then show ?thesis
    using assms(1,2,4) stage_status_iff(1,2) [of b "sr_status x" c "Suc (next_step r)" "length (cr_steps r)"]
    by (auto simp: worker_ready_def run_ok_def next_step_def known_stage_status)
qed

text \<open>One round, for a run that is ready and has a stage left.\<close>

definition extends :: "campaign_run \<Rightarrow> campaign_run \<Rightarrow> bool" where
  "extends r r' \<longleftrightarrow> cr_id r' = cr_id r \<and> cr_steps r' = cr_steps r
     \<and> cr_superseded_results r' = cr_superseded_results r \<and> cr_resume_count r' = cr_resume_count r
     \<and> (\<exists>xs. cr_step_results r' = cr_step_results r @ xs)"

lemma extends_trans: "extends r r' \<Longrightarrow> extends r' r'' \<Longrightarrow> extends r r''"
  by (auto simp: extends_def)

lemma extends_simps [simp]:
  "extends r (r\<lparr>cr_status := s\<rparr>)" "extends r (r\<lparr>cr_status := s, cr_updated_utc := t\<rparr>)"
  "extends r (r'\<lparr>cr_updated_utc := t\<rparr>) = extends r r'"
  "extends r (push_pending k step r)"
  "extends r (cancel_pending ((push_pending k step r)\<lparr>cr_updated_utc := t\<rparr>))"
  "extends r (r\<lparr>cr_step_results := cr_step_results r @ [x], cr_status := s\<rparr>)"
  by (auto simp: extends_def push_pending_def cancel_pending_def)

lemma pending_simps [simp]:
  "cr_steps (push_pending k step r) = cr_steps r" "next_step (push_pending k step r) = Suc (next_step r)"
  "next_step (r\<lparr>cr_updated_utc := t\<rparr>) = next_step r"
  by (simp_all add: push_pending_def next_step_def)

lemma intent_pending [simp]: "records_intent (push_pending k step r) (cs_scenario_id step) k"
  by (simp add: records_intent_def push_pending_def)

lemma stage_trace:
  assumes "worker_ready r" and "next_step r < length (cr_steps r)"
    and "run_stage e (cr_steps r ! next_step r) r = (res, ev)"
  shows "durable_intent p ev \<and> (\<forall>x \<in> set (saved_runs ev). run_ok x \<and> extends r x)
    \<and> admissions ev = (if admissions ev = [] then [] else [cs_scenario_id (cr_steps r ! next_step r)])"
  using assms(3) run_ok_cancelled [OF assms(1)] run_ok_pending [OF assms(1,2)]
    run_ok_cancel_pending [OF assms(1,2)] run_ok_commit [OF assms(1,2) refl refl]
  by (auto simp: run_stage_def saved_def commit_pending_eq Let_def split: if_splits)

lemma stage_result_run:
  assumes "worker_ready r" and "next_step r < length (cr_steps r)"
    and "run_stage e (cr_steps r ! next_step r) r = (Inr r', ev)"
  shows "saved_runs ev \<noteq> [] \<and> last (saved_runs ev) = r' \<and> cr_status r' \<noteq> QUEUED
    \<and> (cr_status r' = RUNNING \<or> cr_status r' = COMPLETED \<longrightarrow>
         admissions ev = [cs_scenario_id (cr_steps r ! next_step r)])
    \<and> (cr_status r' = RUNNING \<longrightarrow> worker_ready r')
    \<and> (cr_status r' = COMPLETED \<longrightarrow> Suc (next_step r) = length (cr_steps r))"
proof -
  let ?x = "stage_result (en_run_id e) (cr_steps r ! next_step r) (en_audit e)"
  let ?s = "stage_status (en_known e \<and> en_started e \<and> en_completed_ok e) (sr_status ?x)
      (en_cancel_after e) (Suc (next_step r)) (length (cr_steps r))"
  have "?s = RUNNING \<Longrightarrow> worker_ready (r\<lparr>cr_step_results := cr_step_results r @ [?x], cr_status := ?s\<rparr>)"
    using run_ok_commit [where b = "en_known e \<and> en_started e \<and> en_completed_ok e" and c = "en_cancel_after e"
        and k = "en_run_id e" and a = "en_audit e", OF assms(1,2) refl refl]
    by simp
  then show ?thesis
    using assms(3)
    by (auto simp: run_stage_def saved_def commit_pending_eq cancel_pending_def Let_def stage_status_iff
        split: if_splits)
qed

lemma execute_trace:
  assumes "worker_ready run" and "execute env run = (res, ev)"
  shows "(\<forall>p. durable_intent p ev) \<and> (\<forall>x \<in> set (saved_runs ev). run_ok x \<and> extends run x)
    \<and> (\<exists>n. admissions ev = map cs_scenario_id (take n (drop (next_step run) (cr_steps run))))"
  using assms
proof (induction env run arbitrary: res ev rule: execute.induct)
  case (1 env run)
  show ?case
  proof (cases "next_step run < length (cr_steps run)")
    case False
    with "1.prems" have "execute env run = saved (en_commit_ok (env (next_step run)))
        (en_now (env (next_step run))) (run\<lparr>cr_status := COMPLETED\<rparr>)"
      by (subst execute.simps) simp
    with "1.prems" False run_ok_completed [OF "1.prems"(1)] show ?thesis
      by (auto simp: saved_def Let_def split: if_splits intro: exI [where x = 0])
  next
    case True
    let ?e = "env (next_step run)" and ?s = "cr_steps run ! next_step run"
    obtain r0 ev0 where stage: "run_stage ?e ?s run = (r0, ev0)" by (cases "run_stage ?e ?s run")
    note head = stage_trace [OF "1.prems"(1) True stage]
    have drop: "drop (next_step run) (cr_steps run) = ?s # drop (Suc (next_step run)) (cr_steps run)"
      using True by (simp add: Cons_nth_drop_Suc)
    have one: "\<exists>n. admissions ev0 = map cs_scenario_id (take n (drop (next_step run) (cr_steps run)))"
    proof (cases "admissions ev0 = []")
      case True
      then show ?thesis by (intro exI [where x = 0]) simp
    next
      case False
      with head drop show ?thesis by (intro exI [where x = "Suc 0"]) simp
    qed
    show ?thesis
    proof (cases "\<exists>r'. r0 = Inr r' \<and> cr_status r' = RUNNING")
      case False
      then have "ev = ev0"
        using "1.prems"(2) True stage by (subst (asm) execute.simps) (auto split: sum.splits)
      with head one show ?thesis by blast
    next
      case True
      then obtain r' where r': "r0 = Inr r'" "cr_status r' = RUNNING" by blast
      obtain res' ev' where rest: "execute env r' = (res', ev')" by (cases "execute env r'")
      have ev: "ev = ev0 @ ev'"
        using "1.prems"(2) \<open>next_step run < length (cr_steps run)\<close> stage r' rest
        by (subst (asm) execute.simps) simp
      note run = stage_result_run [OF "1.prems"(1) \<open>next_step run < length (cr_steps run)\<close>
          stage [unfolded r'(1)]]
      note cont = stage_continues [OF stage [unfolded r'(1)] r'(2)]
      have ext: "extends run r'"
        using head run by (metis last_in_set)
      have IH: "(\<forall>p. durable_intent p ev') \<and> (\<forall>x \<in> set (saved_runs ev'). run_ok x \<and> extends r' x)
          \<and> (\<exists>n. admissions ev' = map cs_scenario_id (take n (drop (next_step r') (cr_steps r'))))"
        using "1.IH" [OF \<open>next_step run < length (cr_steps run)\<close>, of r0 ev0 r'] stage r' run rest by auto
      then obtain n where "admissions ev' = map cs_scenario_id (take n (drop (Suc (next_step run)) (cr_steps run)))"
        using cont by auto
      then have "admissions ev = map cs_scenario_id (take (Suc n) (drop (next_step run) (cr_steps run)))"
        using ev run r'(2) drop by simp
      moreover have "\<forall>p. durable_intent p ev" using ev head IH durable_intent_append by blast
      moreover have "\<forall>x \<in> set (saved_runs ev). run_ok x \<and> extends run x"
        using ev head IH extends_trans [OF ext] by auto
      ultimately show ?thesis by blast
    qed
  qed
qed

lemma execute_result:
  assumes "worker_ready run" and "execute env run = (Inr r', ev)"
  shows "cr_is_terminal r' \<and> last_opt (saved_runs ev) = Some r'
    \<and> (cr_status r' = COMPLETED \<longrightarrow>
         admissions ev = map cs_scenario_id (drop (next_step run) (cr_steps run)))"
  using assms
proof (induction env run arbitrary: ev rule: execute.induct)
  case (1 env run)
  show ?case
  proof (cases "next_step run < length (cr_steps run)")
    case False
    with "1.prems"(2) have "saved (en_commit_ok (env (next_step run))) (en_now (env (next_step run)))
        (run\<lparr>cr_status := COMPLETED\<rparr>) = (Inr r', ev)"
      by (subst (asm) execute.simps) simp
    with False show ?thesis by (auto simp: saved_def Let_def cr_is_terminal_def last_opt_def split: if_splits)
  next
    case True
    let ?e = "env (next_step run)" and ?s = "cr_steps run ! next_step run"
    have drop: "drop (next_step run) (cr_steps run) = ?s # drop (Suc (next_step run)) (cr_steps run)"
      using True by (simp add: Cons_nth_drop_Suc)
    obtain r0 ev0 where stage: "run_stage ?e ?s run = (r0, ev0)" by (cases "run_stage ?e ?s run")
    with "1.prems"(2) True obtain r1 where r1: "r0 = Inr r1"
      by (subst (asm) execute.simps) (auto split: sum.splits)
    note run = stage_result_run [OF "1.prems"(1) True stage [unfolded r1]]
    show ?thesis
    proof (cases "cr_status r1 = RUNNING")
      case False
      then have eq: "r' = r1" "ev = ev0"
        using "1.prems"(2) True stage r1 by (subst (asm) execute.simps, simp)+
      with run False drop True show ?thesis by (auto simp: cr_is_terminal_def last_opt_def)
    next
      case True
      note cont = stage_continues [OF stage [unfolded r1] True]
      from True stage r1 "1.prems"(2) \<open>next_step run < length (cr_steps run)\<close>
      obtain ev' where rest: "execute env r1 = (Inr r', ev')" "ev = ev0 @ ev'"
        by (subst (asm) execute.simps) (auto split: prod.splits)
      have "cr_is_terminal r' \<and> last_opt (saved_runs ev') = Some r'
          \<and> (cr_status r' = COMPLETED \<longrightarrow>
               admissions ev' = map cs_scenario_id (drop (next_step r1) (cr_steps r1)))"
        using "1.IH" [OF \<open>next_step run < length (cr_steps run)\<close>, of r0 ev0 r1] stage r1 run True rest(1) by auto
      with run True rest(2) cont drop show ?thesis by (auto simp: last_opt_def split: if_splits)
    qed
  qed
qed

text \<open>
  C5: The campaign worker: whatever cancel requests, catalog, start-ups, completions, audit records
  and write failures it meets, every run it saves passes the start-up validation and only extends
  the results it was given; a scenario is admitted only right after the durable write that records
  it as the running stage; scenarios are admitted in plan order, without a gap or a repetition; and
  when it returns a run, that run is terminal, is the last one saved, and is marked completed only
  if every remaining stage of the plan was admitted.
\<close>
theorem campaign_worker_safe:
  assumes "worker_ready run" and "execute env run = (res, ev)"
  shows "durable_intent None ev
    \<and> (\<forall>x \<in> set (saved_runs ev). run_ok x \<and> extends run x)
    \<and> (\<exists>n. admissions ev = map cs_scenario_id (take n (drop (next_step run) (cr_steps run))))
    \<and> (\<forall>r'. res = Inr r' \<longrightarrow> cr_is_terminal r' \<and> last_opt (saved_runs ev) = Some r'
          \<and> (cr_status r' = COMPLETED \<longrightarrow>
               admissions ev = map cs_scenario_id (drop (next_step run) (cr_steps run))))"
  using execute_trace [OF assms] execute_result [OF assms(1)] assms(2) by blast

definition example_run :: campaign_run where
  "example_run = \<lparr>cr_id = ''crun_1'', cr_campaign_id = ''CAMP'', cr_campaign_name = ''chain'',
     cr_initiator = ''admin'', cr_target_override = None, cr_timeout_sec = None,
     cr_steps = [\<lparr>cs_order = 1, cs_scenario_id = ''A''\<rparr>, \<lparr>cs_order = 2, cs_scenario_id = ''B''\<rparr>],
     cr_status = QUEUED, cr_step_results = [], cr_superseded_results = [], cr_resume_count = 0,
     cr_created_utc = ''t0'', cr_updated_utc = ''t0''\<rparr>"

definition example_env :: "nat \<Rightarrow> stage_env" where
  "example_env n = \<lparr>en_cancel_before = False, en_intent_ok = True, en_cancel_admit = False,
     en_known = True, en_started = True, en_completed_ok = True,
     en_audit = Some (example_record\<lparr>ar_status := COMPLETED\<rparr>), en_cancel_after = (n = 1),
     en_commit_ok = True, en_run_id = ''r'' @ show_nat n, en_now = ''t1''\<rparr>"

lemma example_ready: "worker_ready example_run"
  by (simp add: worker_ready_def run_ok_def example_run_def known_status_def valid_plan_def)

theorem campaign_worker_safe_witness:
  "durable_intent None (snd (execute example_env example_run))
   \<and> (\<exists>n. admissions (snd (execute example_env example_run)) = map cs_scenario_id (take n (cr_steps example_run)))"
  using campaign_worker_safe [OF example_ready, of example_env "fst (execute example_env example_run)"
      "snd (execute example_env example_run)"]
  by (simp add: example_run_def next_step_def)

section \<open>The worker's writes on the store\<close>

lemma store_get_member:
  "store_ok st \<Longrightarrow> r \<in> set (st_runs st) \<Longrightarrow> store_get st (cr_id r) = Some r"
proof -
  have "distinct (map cr_id rs) \<Longrightarrow> r \<in> set rs \<Longrightarrow> find (\<lambda>x. cr_id x = cr_id r) rs = Some r" for rs
    by (induction rs) (auto simp: image_iff)
  then show "store_ok st \<Longrightarrow> r \<in> set (st_runs st) \<Longrightarrow> store_get st (cr_id r) = Some r"
    by (simp add: store_ok_def store_get_def)
qed

lemma prune_get_live:
  assumes "store_ok st" and "store_get st k = Some r" and "\<not> prunable r"
  shows "store_get (prune st) k = Some r"
proof -
  note r = store_get_ok [OF assms(1,2)]
  have "r \<in> set (filter (\<lambda>r. \<not> prunable r) (st_runs (prune st)))"
    using r assms(3) by (simp add: prune_def retain_filter)
  then show ?thesis using store_get_member [OF prune_ok [OF assms(1)], of r] r by simp
qed

lemma prune_get_other:
  assumes "store_ok st" and "store_get (prune st) k = Some r"
  shows "store_get st k = Some r"
proof -
  note r = store_get_ok [OF prune_ok [OF assms(1)] assms(2)]
  then have "r \<in> set (st_runs st)"
    using subseq_set [OF retain_subseq] by (auto simp: prune_def)
  then show ?thesis using store_get_member [OF assms(1)] r by blast
qed

text \<open>
  For the run a worker owns, the store and the worker's copy move together, and a run that is not
  completed or failed is still there for the next write.
\<close>

lemma campaign_update_saved:
  assumes "store_ok st" and "store_get st rid = Some r" and "run_ok (f r)" and "cr_id (f r) = rid"
    and "campaign_update now rid f st = (res, st')"
  shows "store_ok st' \<and> (\<exists>r'. res = Inr r' \<and> saved True now (f r) = (Inr r', [Saved r'])
      \<and> (\<not> prunable r' \<longrightarrow> store_get st' rid = Some r'))"
proof -
  let ?r = "(f r)\<lparr>cr_updated_utc := now\<rparr>"
  let ?m = "store_modify rid (\<lambda>x. if cr_id x = rid then ?r else x) st"
  have const: "map_first (\<lambda>x. cr_id x = rid) (\<lambda>_. ?r) rs
      = map_first (\<lambda>x. cr_id x = rid) (\<lambda>x. if cr_id x = rid then ?r else x) rs" for rs
    by (induction rs) auto
  have id: "cr_id (if cr_id x = rid then ?r else x) = cr_id x" for x using assms(4) by simp
  have ok: "store_ok ?m"
    using store_get_ok [OF assms(1)] assms(3) by (intro modify_ok [OF assms(1)] id) auto
  have get: "store_get ?m rid = Some ?r"
    using modify_get [of "\<lambda>x. if cr_id x = rid then ?r else x" rid st rid, OF id] assms(2)
      store_get_ok [OF assms(1,2)] by simp
  have "res = Inr ?r" "st' = prune ?m"
    using assms(2,5) const by (auto simp: campaign_update_def store_modify_def Let_def)
  then show ?thesis using prune_ok [OF ok] prune_get_live [OF ok get] by (simp add: saved_def Let_def)
qed

section \<open>Resumption\<close>

lemma adopt_ok:
  assumes "run_ok r" and "resumable r" and "cr_step_results r \<noteq> []" and "ar_status rec = COMPLETED"
  shows "run_ok (adopt_record rec r)"
proof -
  obtain xs x where x: "cr_step_results r = xs @ [x]" using assms(3) by (cases "cr_step_results r" rule: rev_cases) auto
  with assms show ?thesis
    by (auto simp: run_ok_def adopt_record_def resumable_def valid_progress_snoc)
qed

lemma resumed_run_id [simp]: "cr_id (resumed_run now r) = cr_id r" "cr_steps (resumed_run now r) = cr_steps r"
  "cr_status (resumed_run now r) = QUEUED"
  by (simp_all add: resumed_run_def Let_def)

lemma resumed_ready:
  assumes "run_ok r"
  shows "worker_ready (resumed_run now r)"
proof -
  have "\<forall>x \<in> set (cr_step_results (resumed_run now r)). sr_status x = COMPLETED"
  proof (cases "cr_step_results r" rule: rev_cases)
    case (snoc xs x)
    then have "\<forall>y \<in> set xs. sr_status y = COMPLETED" using assms by (simp add: run_ok_def valid_progress_snoc)
    with snoc show ?thesis by (auto simp: resumed_run_def Let_def)
  qed (auto simp: resumed_run_def Let_def)
  then show ?thesis
    using resumed_run_ok [OF assms] by (simp add: worker_ready_def)
qed

text \<open>When a stage that did not complete may be run again.\<close>

definition retry_safe :: "(string \<Rightarrow> audit_record option) \<Rightarrow> campaign_step_result \<Rightarrow> bool" where
  "retry_safe audit x =
     (case audit (sr_run_id x) of
        Some rec \<Rightarrow> ar_is_terminal rec \<and> (simulated_record rec \<or> cleaned_record rec)
      | None \<Rightarrow> sr_status x = CANCELLED \<and> sr_run_id x = [])"

definition committed :: "(string \<Rightarrow> audit_record option) \<Rightarrow> campaign_step_result \<Rightarrow> bool" where
  "committed audit x \<longleftrightarrow> sr_status x = COMPLETED
     \<or> (case audit (sr_run_id x) of Some rec \<Rightarrow> ar_status rec = COMPLETED | None \<Rightarrow> False)"

lemma begin_resume_Inr:
  assumes "begin_resume now rid st = (Inr r', st')"
  obtains r where "store_get st rid = Some r" and "resumable r" and "r' = resumed_run now r"
    and "st' = store_modify rid (resumed_run now) st"
  using assms by (auto simp: begin_resume_def split: option.splits if_splits)

lemma resumed_results:
  "run_ok r \<Longrightarrow> cr_step_results (resumed_run now r) =
     (if cr_step_results r \<noteq> [] \<and> sr_status (last (cr_step_results r)) \<noteq> COMPLETED
      then butlast (cr_step_results r) else cr_step_results r)"
  by (simp add: resumed_run_def Let_def)

lemma adopt_simps [simp]:
  "cr_id (adopt_record rec r) = cr_id r" "cr_steps (adopt_record rec r) = cr_steps r"
  "cr_status (adopt_record rec r) = cr_status r" "cr_step_results (adopt_record rec r) \<noteq> []"
  "sr_status (last (cr_step_results (adopt_record rec r))) = ar_status rec"
  "length (cr_step_results (adopt_record rec r)) = Suc (length (cr_step_results r) - 1)"
  by (simp_all add: adopt_record_def)

lemma begin_resume_granted:
  assumes "store_ok st" and "store_get st rid = Some r" and "resumable r"
    and "begin_resume now rid st = (res, st')"
  shows "res = Inr (resumed_run now r) \<and> store_ok st' \<and> worker_ready (resumed_run now r)
    \<and> store_get st' rid = Some (resumed_run now r)
    \<and> (\<forall>k. k \<noteq> rid \<longrightarrow> store_get st' k = store_get st k)"
proof -
  note r = store_get_ok [OF assms(1,2)]
  have res: "res = Inr (resumed_run now r)" "st' = store_modify rid (resumed_run now) st"
    using assms by (auto simp: begin_resume_def)
  moreover have "store_ok st'" using begin_resume_ok [OF assms(1), of now rid] assms(4) by simp
  ultimately show ?thesis
    using modify_get [of "resumed_run now", OF resumed_run_id(1)] assms(2) resumed_ready [of r] r by simp
qed

lemma adopt_granted:
  assumes "store_ok st" and "store_get st rid = Some r" and "resumable r" and "cr_step_results r \<noteq> []"
    and "ar_status rec = COMPLETED"
    and "begin_resume now rid (store_modify rid (adopt_record rec) st) = (res, st')"
  shows "res = Inr (resumed_run now (adopt_record rec r)) \<and> store_ok st'
    \<and> worker_ready (resumed_run now (adopt_record rec r))
    \<and> store_get st' rid = Some (resumed_run now (adopt_record rec r))
    \<and> (\<forall>k. k \<noteq> rid \<longrightarrow> store_get st' k = store_get st k)
    \<and> next_step (resumed_run now (adopt_record rec r)) = length (cr_step_results r)"
proof -
  let ?st = "store_modify rid (adopt_record rec) st"
  have run: "run_ok (adopt_record rec r)"
    using adopt_ok store_get_ok [OF assms(1,2)] assms(3,4,5) by blast
  have get: "store_get ?st k = (if k = rid then Some (adopt_record rec r) else store_get st k)" for k
    using modify_get [of "adopt_record rec" rid st k] assms(2) by simp
  have ok: "store_ok ?st" using run assms(2) by (intro modify_ok [OF assms(1)]) auto
  have "resumable (adopt_record rec r)" using assms(3) by (simp add: resumable_def)
  moreover have "next_step (resumed_run now (adopt_record rec r)) = length (cr_step_results r)"
    using assms(4,5) resumed_results [OF run] by (simp add: next_step_def)
  ultimately show ?thesis
    using begin_resume_granted [OF ok _ _ assms(6), of "adopt_record rec r"] get by simp
qed

lemma prepare_resume_cases:
  assumes "prepare_resume now audit rid st = (res, st')" and "store_get st rid = Some r"
  obtains e where "res = Inl e" and "st' = st"
  | "resumable r" and "begin_resume now rid st = (res, st')"
      and "cr_step_results r = [] \<or> sr_status (last (cr_step_results r)) = COMPLETED
        \<or> \<not> committed audit (last (cr_step_results r)) \<and> retry_safe audit (last (cr_step_results r))"
  | rec where "resumable r" and "cr_step_results r \<noteq> []" and "committed audit (last (cr_step_results r))"
      and "sr_status (last (cr_step_results r)) \<noteq> COMPLETED" and "ar_status rec = COMPLETED"
      and "begin_resume now rid (store_modify rid (adopt_record rec) st) = (res, st')"
proof (cases "resumable r \<and> cr_step_results r \<noteq> [] \<and> sr_status (last (cr_step_results r)) \<noteq> COMPLETED")
  case False
  with assms that(1,2) show ?thesis by (auto simp: prepare_resume_def split: if_splits)
next
  case True
  with assms have body: "(case audit (sr_run_id (last (cr_step_results r))) of
      Some rec \<Rightarrow>
        (if \<not> ar_is_terminal rec \<or> (\<not> simulated_record rec \<and> \<not> cleaned_record rec)
         then (Inl (NotResumable ''stage cleanup is unconfirmed''), st)
         else begin_resume now rid
           (if ar_status rec = COMPLETED then store_modify rid (adopt_record rec) st else st))
    | None \<Rightarrow>
        (if sr_status (last (cr_step_results r)) = CANCELLED \<and> sr_run_id (last (cr_step_results r)) = []
         then begin_resume now rid st
         else (Inl (NotResumable ''previous stage audit is unavailable; cannot prove safe retry''), st)))
    = (res, st')"
    by (simp add: prepare_resume_def Let_def)
  show ?thesis
  proof (cases "audit (sr_run_id (last (cr_step_results r)))")
    case None
    with body True that(1,2) show ?thesis by (auto simp: committed_def retry_safe_def split: if_splits)
  next
    case (Some rec)
    with body True that show ?thesis by (auto simp: committed_def retry_safe_def split: if_splits)
  qed
qed

lemma prepare_resume_spec:
  assumes "store_ok st" and "prepare_resume now audit rid st = (res, st')"
  shows "store_ok st' \<and> (\<forall>k. k \<noteq> rid \<longrightarrow> store_get st' k = store_get st k)
    \<and> (\<forall>e. res = Inl e \<longrightarrow> st' = st)
    \<and> (\<forall>r'. res = Inr r' \<longrightarrow> (\<exists>r. store_get st rid = Some r \<and> resumable r
          \<and> store_get st' rid = Some r' \<and> worker_ready r' \<and> cr_steps r' = cr_steps r
          \<and> (let xs = cr_step_results r in
              (if xs = [] then next_step r' = 0
               else if committed audit (last xs) then next_step r' = length xs
               else next_step r' = length xs - 1 \<and> retry_safe audit (last xs)))))"
proof (cases "store_get st rid")
  case None
  with assms show ?thesis by (auto simp: prepare_resume_def)
next
  case (Some r)
  note r = store_get_ok [OF assms(1) Some]
  from assms(2) Some show ?thesis
  proof (cases rule: prepare_resume_cases)
    case 1
    with assms(1) show ?thesis by auto
  next
    case 2
    note g = begin_resume_granted [OF assms(1) Some 2(1,2)]
    have "committed audit x" if "sr_status x = COMPLETED" for x using that by (simp add: committed_def)
    with g 2 Some r show ?thesis by (auto simp: next_step_def resumed_results Let_def)
  next
    case (3 rec)
    note g = adopt_granted [OF assms(1) Some 3(1,2,5,6)]
    with 3 Some show ?thesis by (auto simp: Let_def)
  qed
qed

text \<open>
  C18: Resuming is safe: if a campaign run may be resumed, its last stage either was committed, and
  is then kept (its result taken from the audit record if the worker died before storing it) and not
  run again, or its audit record proves that it ended and was cleaned up, or was simulated, or it was
  never admitted; the run is then queued, valid and ready for the worker, at the first stage that is
  not committed. A refused resumption changes nothing, and no resumption touches another run.
\<close>
theorem prepare_resume_safe:
  assumes "store_ok st" and "prepare_resume now audit rid st = (res, st')"
  shows "store_ok st' \<and> (\<forall>k. k \<noteq> rid \<longrightarrow> store_get st' k = store_get st k)
    \<and> (\<forall>e. res = Inl e \<longrightarrow> st' = st)
    \<and> (\<forall>r'. res = Inr r' \<longrightarrow> (\<exists>r. store_get st rid = Some r \<and> resumable r
          \<and> store_get st' rid = Some r' \<and> worker_ready r' \<and> cr_steps r' = cr_steps r
          \<and> (let xs = cr_step_results r in
              (if xs = [] then next_step r' = 0
               else if committed audit (last xs) then next_step r' = length xs
               else next_step r' = length xs - 1 \<and> retry_safe audit (last xs)))))"
  using assms by (rule prepare_resume_spec)

text \<open>A run that died after its first stage was committed to the audit trail but before storing it.\<close>

definition died_run :: campaign_run where
  "died_run = example_run\<lparr>cr_status := INTERRUPTED, cr_step_results :=
     [\<lparr>sr_step_order = 1, sr_scenario_id = ''A'', sr_run_id = ''r0'', sr_status = INTERRUPTED,
       sr_mttd_ms = 0, sr_mttr_ms = 0, sr_detected = False, sr_evidence = None\<rparr>]\<rparr>"

definition died_audit :: "string \<Rightarrow> audit_record option" where
  "died_audit k = (if k = ''r0'' then Some (example_record\<lparr>ar_status := COMPLETED, ar_cleanup_status := ''SUCCESS''\<rparr>)
     else None)"

lemma died_store_ok: "store_ok \<lparr>st_version = 1, st_runs = [died_run]\<rparr>"
  by (simp add: store_ok_def died_run_def example_run_def run_ok_def known_status_def valid_plan_def valid_progress_def)

theorem prepare_resume_safe_witness:
  "\<exists>r'. fst (prepare_resume ''t2'' died_audit ''crun_1'' \<lparr>st_version = 1, st_runs = [died_run]\<rparr>) = Inr r'
     \<and> next_step r' = 1 \<and> worker_ready r'"
proof -
  let ?st = "\<lparr>st_version = 1, st_runs = [died_run]\<rparr>"
  let ?x = "prepare_resume ''t2'' died_audit ''crun_1'' ?st"
  have get: "store_get ?st ''crun_1'' = Some died_run"
    by (simp add: store_get_def died_run_def example_run_def)
  have rec: "died_audit ''r0'' = Some (example_record\<lparr>ar_status := COMPLETED, ar_cleanup_status := ''SUCCESS''\<rparr>)"
    by (simp add: died_audit_def)
  have "\<exists>r'. fst ?x = Inr r'"
    using get rec
    by (simp add: prepare_resume_def resumable_def died_run_def cleaned_record_def ar_is_terminal_def
        begin_resume_def store_modify_def store_get_def adopt_record_def example_run_def status_defs)
  then obtain r' where r': "fst ?x = Inr r'" by blast
  have "committed died_audit (last (cr_step_results died_run))"
    using rec by (simp add: committed_def died_run_def)
  with prepare_resume_safe [OF died_store_ok, of "''t2''" died_audit "''crun_1''" "fst ?x" "snd ?x"] r' get
  show ?thesis by (auto simp: Let_def died_run_def)
qed

section \<open>Launching\<close>

text \<open>
  The admission part of \<open>launch\<close>: the set of active workers, then one transaction on the campaign
  runs, then the answer to the caller. \<open>active\<close> holds the keys of \<open>campaign_controls\<close>.
\<close>

definition launch_change ::
  "bool \<Rightarrow> string \<Rightarrow> (string \<Rightarrow> audit_record option) \<Rightarrow> campaign_run \<Rightarrow> campaign_run_store
     \<Rightarrow> (string + (resume_error + campaign_run)) \<times> campaign_run_store" where
  "launch_change resume now audit run store =
     (if resume then (let (res, store') = prepare_resume now audit (cr_id run) store in (Inr res, store'))
      else (Inr (Inr run), store_insert run store))"

definition launch ::
  "campaign_run_store json_codec \<Rightarrow> bool \<Rightarrow> string \<Rightarrow> (string \<Rightarrow> audit_record option) \<Rightarrow> write_outcome
     \<Rightarrow> campaign_run \<Rightarrow> string list \<Rightarrow> campaign_run_store persistent
     \<Rightarrow> (campaign_error + campaign_run) \<times> string list \<times> campaign_run_store persistent" where
  "launch C resume now audit io run active cell =
     (if cr_id run \<in> set active then (Inl (CampConflict ''campaign worker already active''), active, cell)
      else (case pe_update C (launch_change resume now audit run) io cell of
          (Inr (Inr admitted), cell') \<Rightarrow> (Inr admitted, cr_id run # active, cell')
        | (Inr (Inl ResumeNotFound), cell') \<Rightarrow> (Inl (CampNotFound ''campaign run not found''), active, cell')
        | (Inr (Inl (NotResumable status)), cell') \<Rightarrow>
            (Inl (CampConflict (''campaign is '' @ status @ ''; cannot resume'')), active, cell')
        | (Inl e, cell') \<Rightarrow> (Inl (CampPersistence (''campaign run persistence: '' @ e)), active, cell')))"

text \<open>A new run's identifier is fresh: a random namespace of the process and a counter.\<close>

definition fresh_run :: "campaign_run \<Rightarrow> campaign_run_store \<Rightarrow> bool" where
  "fresh_run run st \<longleftrightarrow> store_get st (cr_id run) = None \<and> worker_ready run \<and> cr_step_results run = []"

lemma fresh_insert:
  assumes "store_ok st" and "fresh_run run st"
  shows "store_ok (store_insert run st) \<and> store_get (store_insert run st) (cr_id run) = Some run"
proof -
  have r: "run_ok run" "\<not> prunable run"
    using assms(2) by (auto simp: fresh_run_def worker_ready_def prunable_def)
  let ?st = "st\<lparr>st_runs := st_runs st @ [run]\<rparr>"
  have "store_ok ?st"
    using assms r by (auto simp: store_ok_def fresh_run_def store_get_def find_None_iff)
  moreover have "store_get ?st (cr_id run) = Some run"
    using assms(2) by (auto simp: store_get_def fresh_run_def find_append)
  ultimately show ?thesis
    using prune_ok prune_get_live r(2) by (simp add: store_insert_def)
qed

lemma launch_change_ok:
  assumes "store_ok st" and "\<not> resume \<Longrightarrow> fresh_run run st"
    and "launch_change resume now audit run st = (Inr res, st')"
  shows "store_ok st' \<and> (\<forall>e. res = Inl e \<longrightarrow> st' = st)
    \<and> (\<forall>r'. res = Inr r' \<longrightarrow> worker_ready r' \<and> store_get st' (cr_id run) = Some r')"
proof (cases resume)
  case False
  with assms fresh_insert [OF assms(1)] show ?thesis
    by (auto simp: launch_change_def fresh_run_def)
next
  case True
  with assms(3) obtain x where x: "prepare_resume now audit (cr_id run) st = (x, st')" "res = x"
    by (auto simp: launch_change_def split: prod.splits)
  from prepare_resume_spec [OF assms(1) x(1)] x(2) show ?thesis by auto
qed

lemma launch_change_total: "\<exists>res st'. launch_change resume now audit run st = (Inr res, st')"
  by (auto simp: launch_change_def split: prod.splits)

text \<open>
  A campaign is launched at most once and never from memory only: an admitted run had no active
  worker and has one now, is ready to execute, and is in the snapshot a restart would load, which
  passes the start-up validation; if the launch is refused, for a conflict, a failed write or an unsafe
  resumption, the stored runs, the file and the active workers are as before.
\<close>
theorem launch_durable:
  assumes "json_ok C" and "pe_inv C default_store store_ok cell" and "pe_disk cell \<noteq> None"
    and "\<not> resume \<Longrightarrow> fresh_run run (pe_value cell)"
    and "launch C resume now audit io run active cell = (res, active', cell')"
  shows "pe_inv C default_store store_ok cell'
    \<and> (\<forall>e. res = Inl e \<longrightarrow> active' = active \<and> pe_value cell' = pe_value cell)
    \<and> (\<forall>r. res = Inr r \<longrightarrow> cr_id run \<notin> set active \<and> active' = cr_id run # active \<and> worker_ready r
          \<and> store_get (pe_value cell') (cr_id run) = Some r
          \<and> pe_load C (pe_disk cell') default_store = Inr cell')"
proof (cases "cr_id run \<in> set active")
  case True
  with assms(2,5) show ?thesis by (auto simp: launch_def)
next
  case False
  obtain ures where u: "pe_update C (launch_change resume now audit run) io cell = (ures, cell')"
    using assms(5) False
    by (cases "pe_update C (launch_change resume now audit run) io cell")
      (auto simp: launch_def split: sum.splits resume_error.splits)
  have ok: "store_ok (pe_value cell)" using assms(2) by (simp add: pe_inv_def)
  note change = launch_change_ok [where now = now and audit = audit, OF ok assms(4)]
  have inv: "pe_inv C default_store store_ok cell'"
    using pe_update_inv [OF assms(1,2), of "launch_change resume now audit run" io] change u by auto
  have disk: "pe_disk cell' \<noteq> None"
    using u assms(3) by (auto simp: pe_update_def split: option.splits sum.splits prod.splits
        write_outcome.splits if_splits)
  note reload = pe_inv_reload [OF inv disk]
  from u show ?thesis
  proof (cases rule: pe_update_cases)
    case (1 e)
    with assms(5) False u inv show ?thesis by (auto simp: launch_def)
  next
    case (2 r nxt)
    show ?thesis
    proof (cases r)
      case (Inl e)
      with change 2 have "pe_value cell' = pe_value cell" by auto
      with assms(5) False u inv 2 Inl show ?thesis
        by (auto simp: launch_def split: resume_error.splits)
    next
      case (Inr r')
      with change 2 have "worker_ready r' \<and> store_get (pe_value cell') (cr_id run) = Some r'" by auto
      with assms(5) False u inv 2 Inr reload show ?thesis by (auto simp: launch_def)
    qed
  qed
qed

end
