(* ===== verification/Float32.thy ===== *)
theory Float32
  imports Rust_Prelude "HOL-Library.Log_Nat"
begin

text \<open>
  The single-precision arithmetic the source uses for ratios, percentages and scores: values are
  exact rationals and every operation rounds to 24 significant bits, ties to even, as IEEE 754 and
  Rust's \<open>f32\<close> do. The operands come from \<open>u64\<close> counters and quotients of two of them, between
  \<open>2 ^ -64\<close> and \<open>2 ^ 71\<close>, so overflow, subnormal numbers and infinities do not arise; the position of
  the leading bit is found after scaling by \<open>2 ^ 200\<close>.
\<close>

section \<open>Rounding\<close>

definition round_half_even :: "rat \<Rightarrow> int" where
  "round_half_even y =
     (let f = \<lfloor>y\<rfloor>; r = y - of_int f in
      if r < 1 / 2 then f else if r > 1 / 2 then f + 1 else if even f then f else f + 1)"

definition lead_bit :: "rat \<Rightarrow> int" where
  "lead_bit x = int (floorlog 2 (nat \<lfloor>x * 2 ^ 200\<rfloor>)) - 201"

definition f32_round :: "rat \<Rightarrow> rat" where
  "f32_round x =
     (if x \<le> 0 then 0
      else let u = 2 powi (lead_bit x - 23) in of_int (round_half_even (x / u)) * u)"

text \<open>The smallest value the scaling supports; normal numbers start at \<open>2 ^ -126\<close>.\<close>

definition f32_pos :: "rat \<Rightarrow> bool" where
  "f32_pos x \<longleftrightarrow> x \<ge> 2 powi (- 126)"

definition f32_of_nat :: "nat \<Rightarrow> rat" where
  "f32_of_nat n = f32_round (of_nat n)"

definition f32_add :: "rat \<Rightarrow> rat \<Rightarrow> rat" where
  "f32_add x y = f32_round (x + y)"

definition f32_mul :: "rat \<Rightarrow> rat \<Rightarrow> rat" where
  "f32_mul x y = f32_round (x * y)"

definition f32_div :: "rat \<Rightarrow> rat \<Rightarrow> rat" where
  "f32_div x y = f32_round (x / y)"

definition f32_clamp :: "rat \<Rightarrow> rat \<Rightarrow> rat \<Rightarrow> rat" where
  "f32_clamp lo hi x = (if x < lo then lo else if x > hi then hi else x)"

text \<open>\<open>as u8\<close>: truncation with saturation.\<close>

definition f32_as_u8 :: "rat \<Rightarrow> nat" where
  "f32_as_u8 x = (if x \<le> 0 then 0 else if x \<ge> 255 then 255 else nat \<lfloor>x\<rfloor>)"

section \<open>Rounding is monotone and keeps representable values\<close>

lemma round_half_even_mono: "x \<le> y \<Longrightarrow> round_half_even x \<le> round_half_even y"
proof -
  assume le: "x \<le> y"
  then have fl: "\<lfloor>x\<rfloor> \<le> \<lfloor>y\<rfloor>" by (rule floor_mono)
  show ?thesis
  proof (cases "\<lfloor>x\<rfloor> = \<lfloor>y\<rfloor>")
    case True
    with le show ?thesis by (auto simp: round_half_even_def Let_def)
  next
    case False
    with fl have "\<lfloor>x\<rfloor> + 1 \<le> \<lfloor>y\<rfloor>" by simp
    then show ?thesis by (auto simp: round_half_even_def Let_def)
  qed
qed

lemma round_half_even_int [simp]: "round_half_even (of_int k) = k"
  by (simp add: round_half_even_def)

lemma round_half_even_le: "y \<le> of_int k \<Longrightarrow> round_half_even y \<le> k"
  using round_half_even_mono [of y "of_int k"] by simp

lemma round_half_even_ge: "of_int k \<le> y \<Longrightarrow> k \<le> round_half_even y"
  using round_half_even_mono [of "of_int k" y] by simp

lemma round_half_even_less: "y < of_int k - 1 / 2 \<Longrightarrow> round_half_even y < k"
proof -
  assume y: "y < of_int k - 1 / 2"
  then have "\<lfloor>y\<rfloor> < k" by (simp add: floor_less_iff)
  moreover have "round_half_even y \<le> \<lfloor>y\<rfloor>" if "\<lfloor>y\<rfloor> = k - 1"
    using y that by (auto simp: round_half_even_def Let_def)
  moreover have "round_half_even y \<le> \<lfloor>y\<rfloor> + 1" by (simp add: round_half_even_def Let_def)
  ultimately show ?thesis by fastforce
qed

lemma pow2_pos [simp]: "(2::rat) powi k > 0" "(2::rat) powi k \<ge> 0" "(2::rat) powi k \<noteq> 0"
  by (simp_all add: zero_less_power_int less_imp_le)

lemma pow2_less: "(2::rat) powi a < 2 powi b \<longleftrightarrow> a < b"
proof
  show "a < b \<Longrightarrow> (2::rat) powi a < 2 powi b" by (rule power_int_strict_increasing) simp_all
  show "(2::rat) powi a < 2 powi b \<Longrightarrow> a < b"
    using power_int_increasing [of b a "2::rat"] by (simp add: not_le [symmetric] del: not_le) fastforce
qed

lemma pow2_le: "(2::rat) powi a \<le> 2 powi b \<longleftrightarrow> a \<le> b"
  using pow2_less [of b a] by (simp add: not_less [symmetric])

lemma pow2_add: "(2::rat) powi (a + b) = 2 powi a * 2 powi b"
  by (simp add: power_int_add)

lemma lead_bit_bounds:
  assumes "f32_pos x"
  shows "2 powi lead_bit x \<le> x \<and> x < 2 powi (lead_bit x + 1)"
proof -
  let ?n = "nat \<lfloor>x * 2 ^ 200\<rfloor>"
  have scale: "(2::rat) ^ 200 = 2 powi 200" by (simp add: power_int_def)
  have "(2::rat) powi (- 126) * 2 powi 200 = 2 powi 74" by (simp flip: pow2_add)
  moreover have "2 powi (- 126) * 2 powi 200 \<le> x * 2 powi 200"
    using assms by (intro mult_right_mono) (simp_all add: f32_pos_def)
  ultimately have big: "2 powi 74 \<le> x * 2 ^ 200" unfolding scale by simp
  then have one: "1 \<le> x * 2 ^ 200"
    using pow2_le [of 0 74] by simp
  then have n: "?n > 0" "of_nat ?n \<le> x * 2 ^ 200" "x * 2 ^ 200 < of_nat ?n + 1"
    by (simp_all add: le_floor_iff) linarith+
  let ?l = "floorlog 2 ?n"
  have b: "2 ^ (?l - 1) \<le> ?n" "?n < 2 ^ ?l" "?l > 0"
    using floorlog_bounds [of ?n 2] n(1) by (auto simp: floorlog_def)
  have low: "(2::rat) powi (int ?l - 1) \<le> x * 2 ^ 200"
  proof -
    have "(2::rat) powi (int ?l - 1) = of_nat (2 ^ (?l - 1))"
      using b(3) by (simp add: power_int_def nat_diff_distrib)
    also have "\<dots> \<le> of_nat ?n" using b(1) by (simp only: of_nat_le_iff)
    finally show ?thesis using n(2) by simp
  qed
  have high: "x * 2 ^ 200 < 2 powi (int ?l)"
  proof -
    have "x * 2 ^ 200 < of_nat ?n + 1" by (rule n(3))
    also have "\<dots> = of_nat (?n + 1)" by simp
    also have "\<dots> \<le> of_nat (2 ^ ?l)" using b(2) by (simp only: of_nat_le_iff)
    finally show ?thesis by (simp add: power_int_def)
  qed
  have e: "lead_bit x + 200 = int ?l - 1" by (simp add: lead_bit_def)
  have "2 powi lead_bit x * 2 powi 200 \<le> x * 2 powi 200"
    unfolding pow2_add [symmetric] e using low scale by simp
  moreover have "x * 2 powi 200 < 2 powi (lead_bit x + 1) * 2 powi 200"
    unfolding pow2_add [symmetric] using high scale e by (simp add: algebra_simps)
  ultimately show ?thesis by (simp add: mult_less_cancel_right mult_le_cancel_right)
qed

lemma f32_pos_gt: "f32_pos x \<Longrightarrow> x > 0"
  unfolding f32_pos_def using less_le_trans [OF pow2_pos(1) [of "- 126"]] by blast

lemma f32_pos_mono: "f32_pos x \<Longrightarrow> x \<le> y \<Longrightarrow> f32_pos y"
  by (simp add: f32_pos_def)

lemma f32_round_eq:
  "f32_pos x \<Longrightarrow> f32_round x =
     of_int (round_half_even (x / 2 powi (lead_bit x - 23))) * 2 powi (lead_bit x - 23)"
  using f32_pos_gt [of x] by (simp add: f32_round_def Let_def)

lemma lead_bit_mono: "f32_pos x \<Longrightarrow> x \<le> y \<Longrightarrow> lead_bit x \<le> lead_bit y"
proof -
  assume x: "f32_pos x" and le: "x \<le> y"
  have "2 powi lead_bit x < (2::rat) powi (lead_bit y + 1)"
    using lead_bit_bounds [OF x] lead_bit_bounds [OF f32_pos_mono [OF x le]] le by linarith
  then show ?thesis by (simp add: pow2_less)
qed

lemma f32_round_binade:
  assumes "f32_pos x"
  shows "2 powi lead_bit x \<le> f32_round x \<and> f32_round x \<le> 2 powi (lead_bit x + 1)"
proof -
  let ?l = "lead_bit x" and ?u = "(2::rat) powi (lead_bit x - 23)"
  have l: "2 powi ?l = 2 ^ 23 * ?u"
    using pow2_add [of "23" "?l - 23"] by simp
  have h: "2 powi (?l + 1) = 2 ^ 24 * ?u"
    using pow2_add [of "24" "?l - 23"] by (simp add: algebra_simps)
  have "of_int (2 ^ 23) \<le> x / ?u" "x / ?u \<le> of_int (2 ^ 24)"
    using lead_bit_bounds [OF assms] unfolding l h by (simp_all add: field_simps)
  then have "2 ^ 23 \<le> round_half_even (x / ?u)" "round_half_even (x / ?u) \<le> 2 ^ 24"
    by (simp_all only: round_half_even_ge round_half_even_le)
  then have "(2 ^ 23 :: rat) \<le> of_int (round_half_even (x / ?u))" "of_int (round_half_even (x / ?u)) \<le> (2 ^ 24 :: rat)"
    using of_int_le_iff [of "2 ^ 23" "round_half_even (x / ?u)", where 'a = rat]
      of_int_le_iff [of "round_half_even (x / ?u)" "2 ^ 24", where 'a = rat] by simp_all
  then show ?thesis unfolding f32_round_eq [OF assms] l h by (simp add: mult_right_mono)
qed

lemma f32_round_mono:
  assumes "f32_pos x" and "x \<le> y"
  shows "f32_round x \<le> f32_round y"
proof (cases "lead_bit x = lead_bit y")
  case True
  have y: "f32_pos y" using assms by (rule f32_pos_mono)
  have "x / 2 powi (lead_bit y - 23) \<le> y / 2 powi (lead_bit y - 23)"
    using assms(2) by (simp add: divide_right_mono)
  then have "round_half_even (x / 2 powi (lead_bit y - 23)) \<le> round_half_even (y / 2 powi (lead_bit y - 23))"
    by (rule round_half_even_mono)
  then show ?thesis unfolding f32_round_eq [OF assms(1)] f32_round_eq [OF y] True
    by (intro mult_right_mono) simp_all
next
  case False
  have y: "f32_pos y" using assms by (rule f32_pos_mono)
  have "lead_bit x + 1 \<le> lead_bit y" using lead_bit_mono [OF assms] False by simp
  then have "(2::rat) powi (lead_bit x + 1) \<le> 2 powi lead_bit y" by (simp add: pow2_le)
  then show ?thesis using f32_round_binade [OF assms(1)] f32_round_binade [OF y] by linarith
qed

lemma f32_round_exact:
  assumes "f32_pos c" and "c = of_int m * 2 powi k" and "m < 2 ^ 24"
  shows "f32_round c = c"
proof -
  have "(2::rat) powi lead_bit c \<le> of_int m * 2 powi k"
    using lead_bit_bounds [OF assms(1)] assms(2) by simp
  also have "\<dots> < 2 ^ 24 * 2 powi k"
    using assms(3) of_int_less_iff [of m "2 ^ 24", where 'a = rat] by simp
  also have "\<dots> = 2 powi (24 + k)" by (simp add: pow2_add)
  finally have "lead_bit c \<le> k + 23" by (simp add: pow2_less)
  then obtain n where n: "k = int n + (lead_bit c - 23)"
    using zle_iff_zadd [of "lead_bit c - 23" k] by auto
  define l where "l = lead_bit c - 23"
  have cc: "c = of_int (m * 2 ^ n) * 2 powi l"
    using assms(2) n by (simp add: l_def pow2_add)
  then have "round_half_even (c / 2 powi l) = m * 2 ^ n"
    using round_half_even_int [of "m * 2 ^ n"] by simp
  then have "f32_round c = of_int (m * 2 ^ n) * 2 powi l"
    using f32_round_eq [OF assms(1)] by (simp add: l_def)
  with cc show ?thesis by simp
qed

lemma f32_round_below:
  assumes "f32_pos x" and "c = of_int m * 2 powi k" and "2 ^ 23 < m" and "m < 2 ^ 24"
    and "x < c - 2 powi (k - 1)"
  shows "f32_round x < c"
proof -
  have half: "(2::rat) powi (k - 1) = 2 powi k / 2"
    using pow2_add [of "k - 1" 1] by simp
  have m: "(2 ^ 23 :: rat) < of_int m" "of_int m < (2 ^ 24 :: rat)"
    using assms(3,4) of_int_less_iff [of "2 ^ 23" m, where 'a = rat]
      of_int_less_iff [of m "2 ^ 24", where 'a = rat] by simp_all
  have c: "2 powi (k + 23) < c" "c < 2 powi (k + 24)"
    unfolding assms(2) using m pow2_add [of 23 k] pow2_add [of 24 k] by (simp_all add: add.commute)
  have "x < 2 powi (k + 24)" using assms(5) c(2) pow2_pos(1) [of "k - 1"] by linarith
  then have "2 powi lead_bit x < (2::rat) powi (k + 24)" using lead_bit_bounds [OF assms(1)] by linarith
  then have lead: "lead_bit x \<le> k + 23" by (simp add: pow2_less)
  show ?thesis
  proof (cases "lead_bit x = k + 23")
    case True
    have "x < (of_int m - 1 / 2) * 2 powi k"
      using assms(5) unfolding assms(2) half by (simp add: algebra_simps)
    then have "x / 2 powi k < of_int m - 1 / 2" by (simp add: pos_divide_less_eq)
    then have "round_half_even (x / 2 powi k) < m" by (rule round_half_even_less)
    then show ?thesis unfolding f32_round_eq [OF assms(1)] assms(2) using True by simp
  next
    case False
    then have "(2::rat) powi (lead_bit x + 1) \<le> 2 powi (k + 23)" using lead by (simp add: pow2_le)
    then show ?thesis using f32_round_binade [OF assms(1)] c(1) by linarith
  qed
qed

section \<open>Counters and ratios\<close>

lemma f32_pos_one: "1 \<le> x \<Longrightarrow> f32_pos x"
  unfolding f32_pos_def using pow2_le [of "- 126" 0] by simp

lemma f32_of_nat_0 [simp]: "f32_of_nat 0 = 0"
  by (simp add: f32_of_nat_def f32_round_def)

lemma f32_of_nat_exact: "n < 2 ^ 24 \<Longrightarrow> f32_of_nat n = of_nat n"
proof (cases "n = 0")
  case False
  assume "n < 2 ^ 24"
  with False show ?thesis
    unfolding f32_of_nat_def
    by (intro f32_round_exact [where m = "int n" and k = 0] f32_pos_one) auto
qed simp

text \<open>A quotient of two counters below \<open>2 ^ 24\<close> is a normal number.\<close>

lemma f32_pos_quotient:
  assumes "0 < a" and "0 < b" and "b < 2 ^ 24"
  shows "f32_pos (of_nat a / of_nat b)"
proof -
  have "(2::rat) powi (- 126) \<le> 2 powi (- 24)" by (simp add: pow2_le)
  also have "\<dots> = 1 / of_nat (2 ^ 24)" by (simp add: power_int_minus field_simps)
  also have "\<dots> \<le> 1 / of_nat b"
    using assms(2,3) by (intro divide_left_mono) (simp_all only: of_nat_le_iff, auto)
  also have "\<dots> \<le> of_nat a / of_nat b"
    using assms by (simp add: divide_right_mono)
  finally show ?thesis by (simp add: f32_pos_def)
qed

lemma f32_div_0 [simp]: "f32_div 0 y = 0"
  by (simp add: f32_div_def f32_round_def)

text \<open>
  A threshold of the form \<open>m / 2 ^ j\<close> decided on a rounded quotient is decided exactly, as long as the
  divisor is small enough for the quotient's distance from the threshold to be visible.
\<close>

lemma f32_div_threshold:
  assumes "a < 2 ^ 24" and "0 < b" and "b < 2 ^ 24" and "c = of_int m * 2 powi k"
    and "2 ^ 23 < m" and "m < 2 ^ 24" and "c \<ge> 1"
    and "of_nat a < c * of_nat b \<Longrightarrow> of_nat a / of_nat b < c - 2 powi (k - 1)"
  shows "c \<le> f32_div (f32_of_nat a) (f32_of_nat b) \<longleftrightarrow> c * of_nat b \<le> of_nat a"
proof -
  have q: "f32_div (f32_of_nat a) (f32_of_nat b) = f32_round (of_nat a / of_nat b)"
    using assms(1,3) by (simp add: f32_div_def f32_of_nat_exact)
  have c: "f32_round c = c" by (rule f32_round_exact [OF f32_pos_one [OF assms(7)] assms(4) assms(6)])
  show ?thesis
  proof
    assume "c * of_nat b \<le> of_nat a"
    then have "c \<le> of_nat a / of_nat b" using assms(2) by (simp add: pos_le_divide_eq)
    then show "c \<le> f32_div (f32_of_nat a) (f32_of_nat b)"
      unfolding q using f32_round_mono [OF f32_pos_one [OF assms(7)]] c by metis
  next
    assume le: "c \<le> f32_div (f32_of_nat a) (f32_of_nat b)"
    show "c * of_nat b \<le> of_nat a"
    proof (rule ccontr)
      assume "\<not> c * of_nat b \<le> of_nat a"
      then have below: "of_nat a / of_nat b < c - 2 powi (k - 1)" by (intro assms(8)) simp
      have "0 < a" using le assms(7) by (cases "a = 0") (auto simp: f32_div_def f32_round_def)
      then have "f32_round (of_nat a / of_nat b) < c"
        by (intro f32_round_below [OF f32_pos_quotient assms(4-6) below] assms(2,3))
      with le q show False by simp
    qed
  qed
qed

end
