(* ===== verification/Scheduler.thy ===== *)
theory Scheduler
  imports Float32 Persistent Audit_Trail Domain "HOL-Library.List_Lexorder" "HOL-Library.Char_ord"
begin

text \<open>
  \<open>crates/asmodeus-control-plane/src/scheduler.rs\<close>: the catalog of recurring jobs, the claim of due
  jobs, the outcomes that wait for their snapshot, the feedback that moves baselines and raises drift
  alerts, and one poll of the scheduler. The job map is the list of its jobs in the map's iteration
  order, which the statements leave open; clocks, start-ups and write outcomes are arguments.
\<close>

section \<open>The catalog\<close>

definition MAX_HISTORY_PER_JOB :: nat where
  "MAX_HISTORY_PER_JOB = 50"

definition MAX_ALERTS :: nat where
  "MAX_ALERTS = 200"

definition DRIFT_THRESHOLD :: rat where
  "DRIFT_THRESHOLD = 3 / 2"

record run_sample =
  sm_run_id :: "string option"
  sm_feedback_received :: bool
  sm_detected :: "bool option"
  sm_timestamp_utc :: string
  sm_status :: string
  sm_mttd_ms :: nat
  sm_drift_detected :: bool
  sm_drift_factor :: "rat option"

record scheduled_job =
  sj_generation :: string
  sj_id :: string
  sj_name :: string
  sj_scenario_id :: string
  sj_interval_sec :: nat
  sj_role :: role
  sj_target_override :: "string option"
  sj_enabled :: bool
  sj_created_at_utc :: string
  sj_last_run_utc :: "string option"
  sj_last_run_epoch_secs :: "nat option"
  sj_last_status :: "string option"
  sj_last_run_id :: "string option"
  sj_last_mttd_ms :: "nat option"
  sj_baseline_mttd_ms :: "nat option"
  sj_drift_detected :: bool
  sj_detection_missed :: bool
  sj_drift_factor :: "rat option"
  sj_run_history :: "run_sample list"

record drift_alert =
  al_detection_missed :: bool
  al_seq :: nat
  al_job_id :: string
  al_scenario_id :: string
  al_baseline_mttd_ms :: "nat option"
  al_observed_mttd_ms :: nat
  al_drift_factor :: rat
  al_timestamp_utc :: string

record schedule_catalog =
  sc_jobs :: "scheduled_job list"
  sc_alerts :: "drift_alert list"
  sc_alert_seq :: nat

definition schedule_new :: schedule_catalog where
  "schedule_new = \<lparr>sc_jobs = [], sc_alerts = [], sc_alert_seq = 0\<rparr>"

definition schedule_register :: "scheduled_job \<Rightarrow> schedule_catalog \<Rightarrow> schedule_catalog" where
  "schedule_register job c =
     c\<lparr>sc_jobs := (case position (\<lambda>j. sj_id j = sj_id job) (sc_jobs c) of
         Some i \<Rightarrow> (sc_jobs c)[i := job]
       | None \<Rightarrow> sc_jobs c @ [job])\<rparr>"

definition seed_job :: "string \<Rightarrow> string \<Rightarrow> string \<Rightarrow> nat \<Rightarrow> nat \<Rightarrow> scheduled_job" where
  "seed_job i name scenario interval baseline =
     \<lparr>sj_generation = [], sj_id = i, sj_name = name, sj_scenario_id = scenario,
      sj_interval_sec = interval, sj_role = RedTeam, sj_target_override = None, sj_enabled = False,
      sj_created_at_utc = ''2026-09-09T00:00:00Z'', sj_last_run_utc = None, sj_last_run_epoch_secs = None,
      sj_last_status = None, sj_last_run_id = None, sj_last_mttd_ms = None,
      sj_baseline_mttd_ms = Some baseline, sj_drift_detected = False, sj_detection_missed = False,
      sj_drift_factor = None, sj_run_history = []\<rparr>"

definition schedule_seed :: schedule_catalog where
  "schedule_seed =
     schedule_register (seed_job ''SCHED-BASE-C2-BEACON'' ''Continuous C2 Beaconing Baseline''
         ''C2_BEACONING_SIMULATION'' 180 150)
       (schedule_register (seed_job ''SCHED-BASE-RANSOMWARE'' ''Continuous Ransomware Canary Baseline''
         ''RANSOMWARE_CANARY_SPIKE'' 120 200) schedule_new)"

definition schedule_deregister :: "string \<Rightarrow> schedule_catalog \<Rightarrow> schedule_catalog \<times> bool" where
  "schedule_deregister jid c =
     (c\<lparr>sc_jobs := filter (\<lambda>j. sj_id j \<noteq> jid) (sc_jobs c)\<rparr>, list_ex (\<lambda>j. sj_id j = jid) (sc_jobs c))"

definition schedule_list :: "schedule_catalog \<Rightarrow> scheduled_job list" where
  "schedule_list c = sort_key sj_id (sc_jobs c)"

definition schedule_get :: "schedule_catalog \<Rightarrow> string \<Rightarrow> scheduled_job option" where
  "schedule_get c jid = find (\<lambda>j. sj_id j = jid) (sc_jobs c)"

definition schedule_modify ::
  "string \<Rightarrow> (scheduled_job \<Rightarrow> scheduled_job) \<Rightarrow> schedule_catalog \<Rightarrow> schedule_catalog" where
  "schedule_modify jid f c = c\<lparr>sc_jobs := map_first (\<lambda>j. sj_id j = jid) f (sc_jobs c)\<rparr>"

definition set_enabled :: "string \<Rightarrow> bool \<Rightarrow> schedule_catalog \<Rightarrow> bool option \<times> schedule_catalog" where
  "set_enabled jid enabled c =
     (case schedule_get c jid of
        None \<Rightarrow> (None, c)
      | Some _ \<Rightarrow> (Some enabled, schedule_modify jid (\<lambda>j. j\<lparr>sj_enabled := enabled\<rparr>) c))"

definition drift_alerts :: "schedule_catalog \<Rightarrow> drift_alert list" where
  "drift_alerts c = rev (sc_alerts c)"

section \<open>Claims, outcomes and recovery\<close>

definition is_due :: "nat \<Rightarrow> scheduled_job \<Rightarrow> bool" where
  "is_due now j \<longleftrightarrow> sj_enabled j \<and> sj_last_status j \<noteq> Some ''RUNNING''
     \<and> (case sj_last_run_epoch_secs j of None \<Rightarrow> True | Some lst \<Rightarrow> now \<ge> sat_add64 lst (sj_interval_sec j))"

definition claimed :: "nat \<Rightarrow> string \<Rightarrow> scheduled_job \<Rightarrow> scheduled_job" where
  "claimed now now_utc j = j\<lparr>sj_last_run_epoch_secs := Some now, sj_last_status := Some ''RUNNING'',
     sj_last_run_utc := Some now_utc\<rparr>"

definition claim_due :: "nat \<Rightarrow> string \<Rightarrow> schedule_catalog \<Rightarrow> scheduled_job list \<times> schedule_catalog" where
  "claim_due now now_utc c =
     (sort_key sj_id (map (claimed now now_utc) (filter (is_due now) (sc_jobs c))),
      c\<lparr>sc_jobs := map (\<lambda>j. if is_due now j then claimed now now_utc j else j) (sc_jobs c)\<rparr>)"

definition schedule_recover :: "schedule_catalog \<Rightarrow> schedule_catalog" where
  "schedule_recover c = c\<lparr>sc_jobs := map (\<lambda>j. if sj_last_status j = Some ''RUNNING''
     then j\<lparr>sj_last_status := Some ''INTERRUPTED''\<rparr> else j) (sc_jobs c)\<rparr>"

record pending_outcome =
  po_job_id :: string
  po_generation :: string
  po_run_id :: "string option"
  po_status :: string
  po_timestamp_utc :: string

definition outcome_job :: "pending_outcome \<Rightarrow> scheduled_job \<Rightarrow> scheduled_job" where
  "outcome_job o' j =
     (if sj_generation j \<noteq> po_generation o' then j
      else (let j1 = j\<lparr>sj_last_status := Some (po_status o')\<rparr> in
        if po_status o' = ''SKIPPED'' then j1
        else j1\<lparr>sj_last_run_id := po_run_id o', sj_last_run_utc := Some (po_timestamp_utc o'),
               sj_last_mttd_ms := None,
               sj_run_history := keep_last MAX_HISTORY_PER_JOB (sj_run_history j1 @
                 [\<lparr>sm_run_id = po_run_id o', sm_feedback_received = False, sm_detected = None,
                   sm_timestamp_utc = po_timestamp_utc o', sm_status = po_status o', sm_mttd_ms = 0,
                   sm_drift_detected = sj_drift_detected j1, sm_drift_factor = None\<rparr>])\<rparr>))"

definition outcome_apply :: "pending_outcome \<Rightarrow> schedule_catalog \<Rightarrow> schedule_catalog" where
  "outcome_apply o' c = schedule_modify (po_job_id o') (outcome_job o') c"

section \<open>Feedback and drift\<close>

definition drift_factor :: "nat \<Rightarrow> nat option \<Rightarrow> rat option" where
  "drift_factor mttd baseline =
     (case baseline of
        None \<Rightarrow> None
      | Some base \<Rightarrow> if base > 0 then Some (f32_div (f32_of_nat mttd) (f32_of_nat base)) else None)"

definition drifted :: "rat option \<Rightarrow> bool" where
  "drifted factor \<longleftrightarrow> (case factor of None \<Rightarrow> False | Some f \<Rightarrow> f \<ge> DRIFT_THRESHOLD)"

definition learned_baseline :: "nat \<Rightarrow> nat option \<Rightarrow> nat option" where
  "learned_baseline mttd baseline = (if baseline = None \<and> mttd > 0 then Some mttd else baseline)"

text \<open>The change of one job; the alert is still without its sequence number.\<close>

definition feedback_job :: "audit_record \<Rightarrow> scheduled_job \<Rightarrow> scheduled_job \<times> drift_alert option" where
  "feedback_job record j =
     (case position (\<lambda>s. sm_run_id s = Some (ar_run_id record)) (sj_run_history j) of
        None \<Rightarrow> (j, None)
      | Some i \<Rightarrow>
          (let sample = sj_run_history j ! i;
               det = ms_blue_team_detected (ar_measurements record);
               mttd = (if det then ms_mttd_ms (ar_measurements record) else 0)
           in if sm_feedback_received sample \<and> sm_mttd_ms sample = mttd \<and> sm_detected sample = Some det
              then (j, None)
              else (let sample1 = sample\<lparr>sm_feedback_received := True, sm_detected := Some det, sm_mttd_ms := mttd\<rparr>
                in if sj_last_run_id j \<noteq> Some (ar_run_id record)
                   then (j\<lparr>sj_run_history := (sj_run_history j)[i := sample1]\<rparr>, None)
                   else (let baseline = learned_baseline mttd (sj_baseline_mttd_ms j);
                             factor = drift_factor mttd baseline;
                             missed = (\<not> det);
                             drift = (missed \<or> drifted factor);
                             shown = (if det then factor else None);
                             sample2 = sample1\<lparr>sm_drift_detected := drift, sm_drift_factor := shown\<rparr>
                         in (j\<lparr>sj_last_mttd_ms := (if det then Some mttd else None),
                               sj_baseline_mttd_ms := baseline, sj_detection_missed := missed,
                               sj_drift_detected := drift, sj_drift_factor := shown,
                               sj_run_history := (sj_run_history j)[i := sample2]\<rparr>,
                             if drift \<and> (\<not> sj_drift_detected j \<or> (missed \<and> \<not> sj_detection_missed j))
                             then Some \<lparr>al_detection_missed = missed, al_seq = 0, al_job_id = sj_id j,
                                    al_scenario_id = sj_scenario_id j, al_baseline_mttd_ms = baseline,
                                    al_observed_mttd_ms = mttd,
                                    al_drift_factor = (case factor of None \<Rightarrow> 0 | Some f \<Rightarrow> f),
                                    al_timestamp_utc = ar_timestamp_utc record\<rparr>
                             else None)))))"

definition push_alert :: "drift_alert option \<Rightarrow> drift_alert list \<times> nat \<Rightarrow> drift_alert list \<times> nat" where
  "push_alert a x =
     (case a of
        None \<Rightarrow> x
      | Some al \<Rightarrow> (keep_last MAX_ALERTS (fst x @ [al\<lparr>al_seq := snd x + 1\<rparr>]), snd x + 1))"

fun feedback_jobs ::
  "audit_record \<Rightarrow> scheduled_job list \<Rightarrow> drift_alert list \<times> nat \<Rightarrow> scheduled_job list \<times> drift_alert list \<times> nat" where
  "feedback_jobs record [] x = ([], x)"
| "feedback_jobs record (j # js) x =
     (let (j', a) = feedback_job record j; (js', x') = feedback_jobs record js (push_alert a x)
      in (j' # js', x'))"

definition record_feedback :: "audit_record \<Rightarrow> schedule_catalog \<Rightarrow> schedule_catalog" where
  "record_feedback record c =
     (if \<not> ar_is_terminal record \<or> \<not> has_confirmed_feedback record then c
      else (let (js, as, n) = feedback_jobs record (sc_jobs c) (sc_alerts c, sc_alert_seq c)
            in c\<lparr>sc_jobs := js, sc_alerts := as, sc_alert_seq := n\<rparr>))"

section \<open>Creating a job\<close>

record create_schedule_request =
  cq_id :: "string option"
  cq_name :: string
  cq_scenario_id :: string
  cq_interval_sec :: nat
  cq_target_override :: "string option"
  cq_baseline_mttd_ms :: "nat option"
  cq_enabled :: "bool option"

text \<open>
  \<open>schedules_http.rs\<close>: the identifier of an unnamed job and the job itself. \<open>replace\<close> works on
  characters: a character outside ASCII gives one dash, so its continuation bytes are dropped.
\<close>

definition default_schedule_id :: "string \<Rightarrow> string" where
  "default_schedule_id name =
     ''SCHED-'' @ map (\<lambda>c. if is_ascii_alphanumeric c then c else CHR ''-'')
       (filter (\<lambda>c. \<not> (128 \<le> byte c \<and> byte c < 192)) (to_ascii_uppercase name))"

definition new_job :: "string \<Rightarrow> string \<Rightarrow> role \<Rightarrow> create_schedule_request \<Rightarrow> scheduled_job" where
  "new_job generation now_utc role req =
     \<lparr>sj_generation = generation,
      sj_id = (case cq_id req of Some i \<Rightarrow> i | None \<Rightarrow> default_schedule_id (cq_name req)),
      sj_name = cq_name req, sj_scenario_id = cq_scenario_id req, sj_interval_sec = cq_interval_sec req,
      sj_role = role, sj_target_override = cq_target_override req,
      sj_enabled = (case cq_enabled req of Some b \<Rightarrow> b | None \<Rightarrow> True),
      sj_created_at_utc = now_utc, sj_last_run_utc = None, sj_last_run_epoch_secs = None,
      sj_last_status = None, sj_last_run_id = None, sj_last_mttd_ms = None,
      sj_baseline_mttd_ms = cq_baseline_mttd_ms req, sj_drift_detected = False,
      sj_detection_missed = False, sj_drift_factor = None, sj_run_history = []\<rparr>"

text \<open>The transaction of \<open>create_schedule\<close>: an existing job is never replaced.\<close>

definition create_change :: "scheduled_job \<Rightarrow> schedule_catalog \<Rightarrow> (string + bool) \<times> schedule_catalog" where
  "create_change job c =
     (if schedule_get c (sj_id job) \<noteq> None then (Inr False, c) else (Inr True, schedule_register job c))"

section \<open>One poll\<close>

text \<open>Write outcomes are consumed one per transaction; when the list runs out, writes succeed.\<close>

definition next_io :: "write_outcome list \<Rightarrow> write_outcome" where
  "next_io ios = (case ios of [] \<Rightarrow> WriteOk | io # _ \<Rightarrow> io)"

definition flush_change ::
  "(string \<Rightarrow> audit_record option) \<Rightarrow> pending_outcome \<Rightarrow> schedule_catalog \<Rightarrow> (string + unit) \<times> schedule_catalog" where
  "flush_change audit o' c =
     (let c1 = outcome_apply o' c in
      (Inr (), case Option.bind (po_run_id o') audit of None \<Rightarrow> c1 | Some record \<Rightarrow> record_feedback record c1))"

fun flush_outcomes ::
  "schedule_catalog json_codec \<Rightarrow> (string \<Rightarrow> audit_record option) \<Rightarrow> write_outcome list
     \<Rightarrow> pending_outcome list \<Rightarrow> schedule_catalog persistent
     \<Rightarrow> bool \<times> pending_outcome list \<times> schedule_catalog persistent" where
  "flush_outcomes C audit ios [] cell = (True, [], cell)"
| "flush_outcomes C audit ios (o' # pending) cell =
     (case pe_update C (flush_change audit o') (next_io ios) cell of
        (Inl e, cell') \<Rightarrow> (False, o' # pending, cell')
      | (Inr _, cell') \<Rightarrow> flush_outcomes C audit (tl ios) pending cell')"

text \<open>
  What the environment answers for one claimed job: the run that was started (none when the catalog
  does not know the scenario or the start fails), the status its completion returned, the audit
  trail, the clock and the outcomes of the writes of the following flush.
\<close>

record job_env =
  je_started :: "string option"
  je_result :: "string option"
  je_audit :: "string \<Rightarrow> audit_record option"
  je_now :: string
  je_ios :: "write_outcome list"

definition still_current :: "schedule_catalog \<Rightarrow> scheduled_job \<Rightarrow> bool" where
  "still_current c job \<longleftrightarrow>
     (case schedule_get c (sj_id job) of
        None \<Rightarrow> False
      | Some current \<Rightarrow> sj_enabled current \<and> sj_generation current = sj_generation job)"

definition outcome_of :: "scheduled_job \<Rightarrow> job_env \<Rightarrow> bool \<Rightarrow> pending_outcome" where
  "outcome_of job e current =
     (if \<not> current then
        \<lparr>po_job_id = sj_id job, po_generation = sj_generation job, po_run_id = None,
         po_status = ''SKIPPED'', po_timestamp_utc = je_now e\<rparr>
      else
        \<lparr>po_job_id = sj_id job, po_generation = sj_generation job, po_run_id = je_started e,
         po_status = (case je_started e of
             None \<Rightarrow> ''FAILED''
           | Some k \<Rightarrow> (case je_result e of
                Some status \<Rightarrow> status
              | None \<Rightarrow> (case je_audit e k of
                    None \<Rightarrow> ''FAILED''
                  | Some r \<Rightarrow> if ar_is_terminal r then ar_status r else ''FAILED''))),
         po_timestamp_utc = je_now e\<rparr>)"

text \<open>The jobs of one poll, with the jobs that were dispatched.\<close>

fun run_jobs ::
  "schedule_catalog json_codec \<Rightarrow> (scheduled_job \<Rightarrow> job_env) \<Rightarrow> scheduled_job list \<Rightarrow> pending_outcome list
     \<Rightarrow> schedule_catalog persistent \<Rightarrow> scheduled_job list \<times> pending_outcome list \<times> schedule_catalog persistent" where
  "run_jobs C env [] pending cell = ([], pending, cell)"
| "run_jobs C env (job # jobs) pending cell =
     (let e = env job;
          current = still_current (pe_value cell) job;
          (_, pending1, cell1) =
            flush_outcomes C (je_audit e) (je_ios e) (pending @ [outcome_of job e current]) cell;
          (started, pending2, cell2) = run_jobs C env jobs pending1 cell1
      in (if current then job # started else started, pending2, cell2))"

definition claim_change :: "nat \<Rightarrow> string \<Rightarrow> schedule_catalog \<Rightarrow> (string + scheduled_job list) \<times> schedule_catalog" where
  "claim_change now now_utc c = (let (due, c') = claim_due now now_utc c in (Inr due, c'))"

definition poll ::
  "schedule_catalog json_codec \<Rightarrow> (string \<Rightarrow> audit_record option) \<Rightarrow> write_outcome list \<Rightarrow> write_outcome
     \<Rightarrow> nat \<Rightarrow> string \<Rightarrow> (scheduled_job \<Rightarrow> job_env) \<Rightarrow> pending_outcome list \<Rightarrow> schedule_catalog persistent
     \<Rightarrow> scheduled_job list \<times> pending_outcome list \<times> schedule_catalog persistent" where
  "poll C audit ios io now now_utc env pending cell =
     (case flush_outcomes C audit ios pending cell of
        (False, pending1, cell1) \<Rightarrow> ([], pending1, cell1)
      | (True, pending1, cell1) \<Rightarrow>
          (case pe_update C (claim_change now now_utc) io cell1 of
             (Inl e, cell2) \<Rightarrow> ([], pending1, cell2)
           | (Inr jobs, cell2) \<Rightarrow> run_jobs C env jobs pending1 cell2))"

end
