(* ===== verification/Scheduler_Safety.thy ===== *)
theory Scheduler_Safety
  imports Scheduler Interfaces "HOL-Library.Sublist" "HOL-Library.Multiset"
begin

text \<open>
  The scheduler's guarantees: the catalog's invariant under every operation, the spacing of claims,
  the exactness and the retry safety of feedback, and the conservation of outcomes when snapshots fail.
\<close>

section \<open>The operations and the invariant\<close>

datatype sched_op = SoCreate string string role create_schedule_request | SoDelete string
  | SoEnable string bool | SoClaim nat string | SoOutcome pending_outcome | SoFeedback audit_record
  | SoRecover

fun sched_step :: "sched_op \<Rightarrow> schedule_catalog \<Rightarrow> schedule_catalog" where
  "sched_step (SoCreate g t role req) c = snd (create_change (new_job g t role req) c)"
| "sched_step (SoDelete i) c = fst (schedule_deregister i c)"
| "sched_step (SoEnable i b) c = snd (set_enabled i b c)"
| "sched_step (SoClaim now t) c = snd (claim_due now t c)"
| "sched_step (SoOutcome x) c = outcome_apply x c"
| "sched_step (SoFeedback r) c = record_feedback r c"
| "sched_step SoRecover c = schedule_recover c"

definition alerts_ok :: "drift_alert list \<times> nat \<Rightarrow> bool" where
  "alerts_ok x \<longleftrightarrow> length (fst x) \<le> MAX_ALERTS
     \<and> map al_seq (fst x) = [Suc (snd x) - length (fst x) ..< Suc (snd x)] \<and> length (fst x) \<le> snd x"

definition sched_inv :: "schedule_catalog \<Rightarrow> bool" where
  "sched_inv c \<longleftrightarrow> distinct (map sj_id (sc_jobs c))
     \<and> (\<forall>j \<in> set (sc_jobs c). length (sj_run_history j) \<le> MAX_HISTORY_PER_JOB)
     \<and> alerts_ok (sc_alerts c, sc_alert_seq c)"

lemma push_alert_ok: "alerts_ok x \<Longrightarrow> alerts_ok (push_alert a x)"
proof (cases a)
  case (Some al)
  obtain as n where x: "x = (as, n)" by (cases x)
  assume "alerts_ok x"
  then have l: "length as \<le> MAX_ALERTS" "length as \<le> n" and m: "map al_seq as = [Suc n - length as ..< Suc n]"
    by (simp_all add: alerts_ok_def x)
  let ?as = "as @ [al\<lparr>al_seq := Suc n\<rparr>]"
  have "map al_seq ?as = [Suc (Suc n) - length ?as ..< Suc (Suc n)]"
    using m l(2) by (simp add: upt_Suc Suc_diff_le)
  then have "map al_seq (keep_last MAX_ALERTS ?as)
      = [Suc (Suc n) - length (keep_last MAX_ALERTS ?as) ..< Suc (Suc n)]"
    using l by (auto simp: keep_last_def drop_map [symmetric] drop_upt)
  with l Some show ?thesis by (simp add: alerts_ok_def push_alert_def x)
qed (simp add: push_alert_def)

lemma feedback_job_simps:
  assumes "feedback_job r j = (j', a)"
  shows "sj_id j' = sj_id j" "sj_generation j' = sj_generation j" "sj_enabled j' = sj_enabled j"
    "sj_interval_sec j' = sj_interval_sec j" "sj_last_status j' = sj_last_status j"
    "sj_last_run_epoch_secs j' = sj_last_run_epoch_secs j" "sj_last_run_utc j' = sj_last_run_utc j"
    "sj_last_run_id j' = sj_last_run_id j" "length (sj_run_history j') = length (sj_run_history j)"
  using assms by (auto simp: feedback_job_def Let_def split: option.splits if_splits)

lemma feedback_job_runs:
  "feedback_job r j = (j', a) \<Longrightarrow> map sm_run_id (sj_run_history j') = map sm_run_id (sj_run_history j)"
proof (cases "position (\<lambda>s. sm_run_id s = Some (ar_run_id r)) (sj_run_history j)")
  case (Some i)
  then have "i < length (sj_run_history j)" using position_SomeD by fastforce
  moreover assume "feedback_job r j = (j', a)"
  ultimately show ?thesis using Some
    by (auto simp: feedback_job_def Let_def map_update list_update_same_conv split: if_splits)
qed (simp add: feedback_job_def)

lemma feedback_jobs_map:
  assumes "feedback_jobs r js x = (js', x')"
  shows "js' = map (\<lambda>j. fst (feedback_job r j)) js \<and> (alerts_ok x \<longrightarrow> alerts_ok x')"
  using assms
  by (induction js arbitrary: x js' x') (auto simp: push_alert_ok Let_def split: prod.splits)

lemma fst_feedback_simps [simp]:
  "sj_id (fst (feedback_job r j)) = sj_id j" "sj_generation (fst (feedback_job r j)) = sj_generation j"
  "sj_enabled (fst (feedback_job r j)) = sj_enabled j"
  "sj_interval_sec (fst (feedback_job r j)) = sj_interval_sec j"
  "sj_last_status (fst (feedback_job r j)) = sj_last_status j"
  "sj_last_run_epoch_secs (fst (feedback_job r j)) = sj_last_run_epoch_secs j"
  "sj_last_run_utc (fst (feedback_job r j)) = sj_last_run_utc j"
  "sj_last_run_id (fst (feedback_job r j)) = sj_last_run_id j"
  "length (sj_run_history (fst (feedback_job r j))) = length (sj_run_history j)"
  by (cases "feedback_job r j"; simp add: feedback_job_simps)+

lemma record_feedback_jobs:
  "sc_jobs (record_feedback r c) =
     map (\<lambda>j. if ar_is_terminal r \<and> has_confirmed_feedback r then fst (feedback_job r j) else j) (sc_jobs c)"
  by (cases "feedback_jobs r (sc_jobs c) (sc_alerts c, sc_alert_seq c)")
    (auto simp: record_feedback_def dest: feedback_jobs_map)

text \<open>How the operations other than creation and deletion change one job.\<close>

definition job_change :: "sched_op \<Rightarrow> scheduled_job \<Rightarrow> scheduled_job" where
  "job_change x j =
     (case x of
        SoEnable i b \<Rightarrow> if sj_id j = i then j\<lparr>sj_enabled := b\<rparr> else j
      | SoClaim now t \<Rightarrow> if is_due now j then claimed now t j else j
      | SoOutcome p \<Rightarrow> if sj_id j = po_job_id p then outcome_job p j else j
      | SoFeedback r \<Rightarrow> if ar_is_terminal r \<and> has_confirmed_feedback r then fst (feedback_job r j) else j
      | SoRecover \<Rightarrow> if sj_last_status j = Some ''RUNNING'' then j\<lparr>sj_last_status := Some ''INTERRUPTED''\<rparr> else j
      | _ \<Rightarrow> j)"

lemma map_first_key:
  "distinct (map sj_id js) \<Longrightarrow>
     map_first (\<lambda>j. sj_id j = i) f js = map (\<lambda>j. if sj_id j = i then f j else j) js"
proof (induction js)
  case (Cons a js)
  have "i = sj_id a \<Longrightarrow> map (\<lambda>j. if sj_id j = i then f j else j) js = js"
    using Cons.prems by (intro map_idI) (auto simp: image_iff)
  with Cons show ?case by auto
qed simp

lemma sched_step_jobs:
  assumes "distinct (map sj_id (sc_jobs c))"
  shows "sc_jobs (sched_step x c) =
     (case x of
        SoCreate g t role req \<Rightarrow> sc_jobs c @
          (if schedule_get c (sj_id (new_job g t role req)) = None then [new_job g t role req] else [])
      | SoDelete i \<Rightarrow> filter (\<lambda>j. sj_id j \<noteq> i) (sc_jobs c)
      | _ \<Rightarrow> map (job_change x) (sc_jobs c))"
proof (cases x)
  case (SoCreate g t role req)
  then show ?thesis
    by (auto simp: create_change_def schedule_register_def schedule_get_def find_None_iff position_None_iff
        split: option.splits dest!: position_SomeD)
next
  case (SoEnable i b)
  have "find (\<lambda>j. sj_id j = i) (sc_jobs c) = None \<Longrightarrow> map (job_change (SoEnable i b)) (sc_jobs c) = sc_jobs c"
    by (rule map_idI) (auto simp: find_None_iff job_change_def)
  with SoEnable assms show ?thesis
    by (auto simp: set_enabled_def schedule_get_def schedule_modify_def map_first_key job_change_def split: option.splits)
qed (use assms in \<open>auto simp: schedule_deregister_def claim_due_def outcome_apply_def schedule_modify_def
    map_first_key job_change_def record_feedback_jobs schedule_recover_def\<close>)

lemma job_change_id [simp]: "sj_id (job_change x j) = sj_id j" "sj_generation (job_change x j) = sj_generation j"
  "sj_interval_sec (job_change x j) = sj_interval_sec j"
  by (auto simp: job_change_def claimed_def outcome_job_def Let_def split: sched_op.splits)

lemma sched_inv_step: "sched_inv c \<Longrightarrow> sched_inv (sched_step x c)"
proof -
  assume inv: "sched_inv c"
  then have dist: "distinct (map sj_id (sc_jobs c))" by (simp add: sched_inv_def)
  have hist: "length (sj_run_history (job_change x j)) \<le> MAX_HISTORY_PER_JOB"
    if "length (sj_run_history j) \<le> MAX_HISTORY_PER_JOB" for j
    using that by (auto simp: job_change_def claimed_def outcome_job_def Let_def split: sched_op.splits)
  have alerts: "alerts_ok (sc_alerts (sched_step x c), sc_alert_seq (sched_step x c))"
  proof (cases x)
    case (SoFeedback r)
    have old: "alerts_ok (sc_alerts c, sc_alert_seq c)" using inv by (simp add: sched_inv_def)
    obtain js x' where "feedback_jobs r (sc_jobs c) (sc_alerts c, sc_alert_seq c) = (js, x')"
      by (cases "feedback_jobs r (sc_jobs c) (sc_alerts c, sc_alert_seq c)")
    with feedback_jobs_map [OF this] old SoFeedback show ?thesis
      by (cases x') (auto simp: record_feedback_def)
  qed (use inv in \<open>auto simp: sched_inv_def create_change_def schedule_register_def schedule_deregister_def
      set_enabled_def schedule_modify_def claim_due_def outcome_apply_def schedule_recover_def split: option.splits\<close>)
  have "distinct (map sj_id (sc_jobs (sched_step x c)))"
    using dist by (auto simp: sched_step_jobs [OF dist] distinct_map_filter comp_def schedule_get_def find_None_iff
        split: sched_op.splits)
  moreover have "\<forall>j \<in> set (sc_jobs (sched_step x c)). length (sj_run_history j) \<le> MAX_HISTORY_PER_JOB"
    using inv hist by (auto simp: sched_step_jobs [OF dist] sched_inv_def new_job_def split: sched_op.splits)
  ultimately show ?thesis using alerts by (simp add: sched_inv_def)
qed

interpretation schedule: step_system sched_step sched_inv
  by unfold_locales (rule sched_inv_step)

text \<open>
  The catalog is bounded and its alerts are a gapless record: after any operations on the seeded
  catalog, identifiers are unique, every job keeps at most 50 samples, and the retained alerts are
  the newest ones, at most 200, numbered consecutively up to the alert counter.
\<close>
theorem schedule_bounded:
  "let c = fold sched_step ops schedule_seed in
     distinct (map sj_id (sc_jobs c))
     \<and> set (map (length \<circ> sj_run_history) (sc_jobs c)) \<subseteq> {..50}
     \<and> length (sc_alerts c) \<le> 200
     \<and> map al_seq (drift_alerts c) = rev [Suc (sc_alert_seq c) - length (sc_alerts c) ..< Suc (sc_alert_seq c)]"
proof -
  have "sched_inv schedule_seed"
    by (simp add: sched_inv_def schedule_seed_def schedule_register_def schedule_new_def seed_job_def alerts_ok_def
        MAX_ALERTS_def MAX_HISTORY_PER_JOB_def)
  from schedule.inv_run [OF this, of ops] show ?thesis
    by (auto simp: sched_inv_def alerts_ok_def drift_alerts_def MAX_ALERTS_def MAX_HISTORY_PER_JOB_def Let_def
        rev_map [symmetric])
qed

section \<open>Claims\<close>

text \<open>What is known of the job \<open>(i, g)\<close> once it was claimed at \<open>t\<close>: its last claim is not older.\<close>

definition claimed_since :: "string \<Rightarrow> string \<Rightarrow> nat \<Rightarrow> nat \<Rightarrow> bool \<Rightarrow> schedule_catalog \<Rightarrow> bool" where
  "claimed_since i g n t running c \<longleftrightarrow>
     (\<forall>j \<in> set (sc_jobs c). sj_id j = i \<longrightarrow> sj_generation j = g \<longrightarrow>
        sj_interval_sec j = n \<and> (\<exists>e \<ge> t. sj_last_run_epoch_secs j = Some e)
        \<and> (running \<longrightarrow> sj_last_status j = Some ''RUNNING''))"

definition settles :: "string \<Rightarrow> string \<Rightarrow> sched_op \<Rightarrow> bool" where
  "settles i g x \<longleftrightarrow>
     (case x of SoRecover \<Rightarrow> True | SoOutcome p \<Rightarrow> po_job_id p = i \<and> po_generation p = g | _ \<Rightarrow> False)"

definition reuses :: "string \<Rightarrow> sched_op \<Rightarrow> bool" where
  "reuses g x \<longleftrightarrow> (case x of SoCreate g' _ _ _ \<Rightarrow> g' = g | _ \<Rightarrow> False)"

lemma job_change_epoch:
  "sj_last_run_epoch_secs (job_change x j) =
     (case x of SoClaim now t \<Rightarrow> if is_due now j then Some now else sj_last_run_epoch_secs j
      | _ \<Rightarrow> sj_last_run_epoch_secs j)"
  by (cases x) (simp_all add: job_change_def claimed_def outcome_job_def Let_def)

lemma job_change_later:
  assumes "sj_last_run_epoch_secs j = Some e" and "t \<le> e" and "t \<le> u64_max"
  shows "\<exists>e' \<ge> t. sj_last_run_epoch_secs (job_change x j) = Some e'"
proof (cases "\<exists>now u. x = SoClaim now u \<and> is_due now j")
  case True
  then obtain now u where x: "x = SoClaim now u" "is_due now j" by blast
  then have "sat_add64 e (sj_interval_sec j) \<le> now" using assms(1) by (simp add: is_due_def)
  then have "t \<le> now" using assms(2,3) by (simp add: sat_add64_def min_def split: if_splits)
  with x show ?thesis by (simp add: job_change_epoch)
next
  case False
  with assms show ?thesis by (auto simp: job_change_epoch split: sched_op.splits)
qed

lemma job_change_status:
  "sj_last_status (job_change x j) =
     (case x of
        SoClaim now t \<Rightarrow> if is_due now j then Some ''RUNNING'' else sj_last_status j
      | SoOutcome p \<Rightarrow> if sj_id j = po_job_id p \<and> sj_generation j = po_generation p then Some (po_status p)
          else sj_last_status j
      | SoRecover \<Rightarrow> if sj_last_status j = Some ''RUNNING'' then Some ''INTERRUPTED'' else sj_last_status j
      | _ \<Rightarrow> sj_last_status j)"
  by (cases x) (simp_all add: job_change_def claimed_def outcome_job_def Let_def)

lemma job_change_running:
  assumes "sj_last_status j = Some ''RUNNING''" and "\<not> settles (sj_id j) (sj_generation j) x"
  shows "sj_last_status (job_change x j) = Some ''RUNNING''"
  using assms by (cases x) (auto simp: job_change_status settles_def)

lemma sched_step_member:
  assumes "distinct (map sj_id (sc_jobs c))" and "j \<in> set (sc_jobs (sched_step x c))"
  shows "(\<exists>k \<in> set (sc_jobs c). j = job_change x k)
    \<or> (\<exists>g t role req. x = SoCreate g t role req \<and> j = new_job g t role req)"
proof -
  note m = assms(2) [unfolded sched_step_jobs [OF assms(1)]]
  have same: "job_change (SoCreate g t role req) k = k" "job_change (SoDelete i) k = k" for g t role req i k
    by (simp_all add: job_change_def)
  show ?thesis
  proof (cases x)
    case (SoCreate g t role req)
    with m same show ?thesis by (auto split: if_splits)
  next
    case (SoDelete i)
    with m same show ?thesis by auto
  qed (use m in \<open>simp_all add: image_iff\<close>)
qed

lemma claimed_since_step:
  assumes "distinct (map sj_id (sc_jobs c))" and "claimed_since i g n t b c" and "\<not> reuses g x" and "t \<le> u64_max"
  shows "claimed_since i g n t (b \<and> \<not> settles i g x) (sched_step x c)"
  unfolding claimed_since_def
proof (intro ballI impI)
  fix j assume j: "j \<in> set (sc_jobs (sched_step x c))" "sj_id j = i" "sj_generation j = g"
  from sched_step_member [OF assms(1) j(1)] j(3) assms(3)
  obtain k where k: "k \<in> set (sc_jobs c)" "j = job_change x k" by (auto simp: reuses_def new_job_def)
  with assms(2) j obtain e where e: "sj_interval_sec k = n" "t \<le> e" "sj_last_run_epoch_secs k = Some e"
      "b \<longrightarrow> sj_last_status k = Some ''RUNNING''"
    by (auto simp: claimed_since_def)
  then show "sj_interval_sec j = n \<and> (\<exists>e \<ge> t. sj_last_run_epoch_secs j = Some e)
      \<and> (b \<and> \<not> settles i g x \<longrightarrow> sj_last_status j = Some ''RUNNING'')"
    using k(2) j job_change_later [OF e(3,2) assms(4)] job_change_running [of k x] by auto
qed

lemma claimed_since_run:
  assumes "sched_inv c" and "claimed_since i g n t b c" and "\<forall>x \<in> set ops. \<not> reuses g x" and "t \<le> u64_max"
  shows "claimed_since i g n t (b \<and> (\<forall>x \<in> set ops. \<not> settles i g x)) (fold sched_step ops c)"
  using assms(1-3)
proof (induction ops arbitrary: c b)
  case (Cons x ops)
  have "claimed_since i g n t (b \<and> \<not> settles i g x) (sched_step x c)"
    using Cons.prems assms(4) by (intro claimed_since_step) (auto simp: sched_inv_def)
  from Cons.IH [OF sched_inv_step [OF Cons.prems(1)] this] Cons.prems(3) show ?case by (simp add: conj_assoc)
qed simp

lemma due_jobs:
  "j \<in> set (fst (claim_due t u c)) \<longleftrightarrow> (\<exists>k \<in> set (sc_jobs c). is_due t k \<and> j = claimed t u k)"
  by (auto simp: claim_due_def)

text \<open>
  C24: A job is never run in a tight loop or twice at once: if a job is claimed and, after any other
  operations, claimed again as the same registration, then its interval has passed since the first
  claim, and in between its outcome was recorded or the process was restarted.
\<close>
theorem claim_spacing:
  assumes "sched_inv c" and "claim_due t1 u1 c = (due1, c1)" and "j1 \<in> set due1" and "t1 \<le> u64_max"
    and "\<forall>x \<in> set ops. \<not> reuses (sj_generation j1) x"
    and "j2 \<in> set (fst (claim_due t2 u2 (fold sched_step ops c1)))"
    and "sj_id j2 = sj_id j1" and "sj_generation j2 = sj_generation j1"
  shows "sat_add64 t1 (sj_interval_sec j1) \<le> t2
    \<and> (\<exists>x \<in> set ops. settles (sj_id j1) (sj_generation j1) x)"
proof -
  have c1: "c1 = sched_step (SoClaim t1 u1) c" using assms(2) by simp
  obtain k where k: "k \<in> set (sc_jobs c)" "is_due t1 k" "j1 = claimed t1 u1 k"
    using assms(2,3) due_jobs [of j1 t1 u1 c] by auto
  have uniq: "j = k" if "j \<in> set (sc_jobs c)" "sj_id j = sj_id k" for j
    using that k(1) assms(1) by (auto simp: sched_inv_def distinct_map inj_on_def)
  have first: "claimed_since (sj_id j1) (sj_generation j1) (sj_interval_sec j1) t1 True c1"
    unfolding claimed_since_def
  proof (intro ballI impI)
    fix j assume j: "j \<in> set (sc_jobs c1)" "sj_id j = sj_id j1"
    then obtain m where m: "m \<in> set (sc_jobs c)" "j = (if is_due t1 m then claimed t1 u1 m else m)"
      using assms(2) by (auto simp: claim_due_def)
    then have "sj_id m = sj_id k" using j(2) k(3) by (auto simp: claimed_def split: if_splits)
    then have "m = k" by (rule uniq [OF m(1)])
    with m k have "j = j1" by simp
    with k(3) show "sj_interval_sec j = sj_interval_sec j1 \<and> (\<exists>e\<ge>t1. sj_last_run_epoch_secs j = Some e)
        \<and> (True \<longrightarrow> sj_last_status j = Some ''RUNNING'')"
      by (simp add: claimed_def)
  qed
  have inv1: "sched_inv c1" unfolding c1 by (rule sched_inv_step [OF assms(1)])
  from claimed_since_run [OF inv1 first assms(5,4)]
  have since: "claimed_since (sj_id j1) (sj_generation j1) (sj_interval_sec j1) t1
      (\<forall>x \<in> set ops. \<not> settles (sj_id j1) (sj_generation j1) x) (fold sched_step ops c1)"
    by simp
  obtain k2 where k2: "k2 \<in> set (sc_jobs (fold sched_step ops c1))" "is_due t2 k2" "j2 = claimed t2 u2 k2"
    using assms(6) by (auto simp: due_jobs)
  with since assms(7,8) obtain e where e: "sj_interval_sec k2 = sj_interval_sec j1" "t1 \<le> e"
      "sj_last_run_epoch_secs k2 = Some e"
      "(\<forall>x \<in> set ops. \<not> settles (sj_id j1) (sj_generation j1) x) \<longrightarrow> sj_last_status k2 = Some ''RUNNING''"
    by (auto simp: claimed_since_def claimed_def)
  with k2(2) show ?thesis by (auto simp: is_due_def sat_add64_def)
qed

section \<open>Feedback\<close>

lemma feedback_job_again: "feedback_job r (fst (feedback_job r j)) = (fst (feedback_job r j), None)"
proof (cases "position (\<lambda>s. sm_run_id s = Some (ar_run_id r)) (sj_run_history j)")
  case None
  then show ?thesis by (simp add: feedback_job_def)
next
  case (Some i)
  obtain j' a where f: "feedback_job r j = (j', a)" by (cases "feedback_job r j")
  have pos: "position (\<lambda>s. sm_run_id s = Some (ar_run_id r)) (sj_run_history j') = Some i"
    using position_map_cong [OF feedback_job_runs [OF f]] Some by metis
  have "sm_feedback_received (sj_run_history j' ! i)
      \<and> sm_detected (sj_run_history j' ! i) = Some (ms_blue_team_detected (ar_measurements r))
      \<and> sm_mttd_ms (sj_run_history j' ! i) =
          (if ms_blue_team_detected (ar_measurements r) then ms_mttd_ms (ar_measurements r) else 0)"
    using f Some position_SomeD [OF Some] by (auto simp: feedback_job_def Let_def split: if_splits)
  with pos f show ?thesis by (simp add: feedback_job_def Let_def)
qed

text \<open>
  Feedback is safe to retry and to arrive late: applying a record twice is applying it once, so an
  outcome whose snapshot failed can be flushed again without a second alert; feedback never moves the
  dispatch clock, the status, or whether a job is enabled; and feedback for a run that is not the
  job's latest changes nothing of the job but that run's sample, and raises no alert.
\<close>
theorem feedback_retry_safe:
  "record_feedback r (record_feedback r c) = record_feedback r c
   \<and> map (\<lambda>j. (sj_id j, sj_generation j, sj_enabled j, sj_interval_sec j, sj_last_status j,
         sj_last_run_epoch_secs j, sj_last_run_id j)) (sc_jobs (record_feedback r c))
     = map (\<lambda>j. (sj_id j, sj_generation j, sj_enabled j, sj_interval_sec j, sj_last_status j,
         sj_last_run_epoch_secs j, sj_last_run_id j)) (sc_jobs c)
   \<and> (sj_last_run_id j = Some (ar_run_id r)
      \<or> (\<exists>h. feedback_job r j = (j\<lparr>sj_run_history := h\<rparr>, None)
           \<and> map sm_run_id h = map sm_run_id (sj_run_history j)))"
proof -
  have again: "feedback_jobs r (map (\<lambda>j. fst (feedback_job r j)) js) x = (map (\<lambda>j. fst (feedback_job r j)) js, x)" for js x
    by (induction js) (simp_all add: feedback_job_again push_alert_def)
  have idem: "record_feedback r (record_feedback r c) = record_feedback r c"
  proof (cases "ar_is_terminal r \<and> has_confirmed_feedback r")
    case True
    obtain js as n where f: "feedback_jobs r (sc_jobs c) (sc_alerts c, sc_alert_seq c) = (js, as, n)"
      by (cases "feedback_jobs r (sc_jobs c) (sc_alerts c, sc_alert_seq c)")
    with feedback_jobs_map [OF f] True show ?thesis by (simp add: record_feedback_def again)
  qed (auto simp: record_feedback_def)
  have late: "\<exists>h. feedback_job r j = (j\<lparr>sj_run_history := h\<rparr>, None)
      \<and> map sm_run_id h = map sm_run_id (sj_run_history j)" if "sj_last_run_id j \<noteq> Some (ar_run_id r)"
  proof -
    have "\<exists>h. feedback_job r j = (j\<lparr>sj_run_history := h\<rparr>, None)"
      using that
      by (cases "position (\<lambda>s. sm_run_id s = Some (ar_run_id r)) (sj_run_history j)")
        (simp_all add: feedback_job_def Let_def, auto intro: exI [where x = "sj_run_history j"])
    then obtain h where h: "feedback_job r j = (j\<lparr>sj_run_history := h\<rparr>, None)" by blast
    from feedback_job_runs [OF this] h show ?thesis by auto
  qed
  show ?thesis using idem late by (auto simp: record_feedback_jobs)
qed

lemma drifted_exact:
  assumes "0 < base" and "base < 2 ^ 23" and "mttd < 2 ^ 24"
  shows "drifted (drift_factor mttd (Some base)) \<longleftrightarrow> 3 * base \<le> 2 * mttd"
proof -
  have c: "(3 / 2 :: rat) = of_int 12582912 * 2 powi (- 23)" by (simp add: power_int_minus)
  have "(3 / 2 :: rat) \<le> f32_div (f32_of_nat mttd) (f32_of_nat base) \<longleftrightarrow> 3 / 2 * of_nat base \<le> (of_nat mttd :: rat)"
  proof (rule f32_div_threshold [OF assms(3,1) _ c])
    assume "of_nat mttd < (3 / 2 :: rat) * of_nat base"
    then have "of_nat (2 * mttd) < (of_nat (3 * base) :: rat)" by simp
    then have "2 * mttd + 1 \<le> 3 * base" by (simp only: of_nat_less_iff)
    then have "of_nat (2 * mttd + 1) \<le> (of_nat (3 * base) :: rat)" by (simp only: of_nat_le_iff)
    then have le: "of_nat mttd / of_nat base \<le> (3 / 2 :: rat) - 1 / (2 * of_nat base)"
      using assms(1) by (simp add: field_simps)
    have "(of_nat base :: rat) < of_nat (2 ^ 23)" using assms(2) by (simp only: of_nat_less_iff)
    then have "(2::rat) powi (- 23 - 1) < 1 / (2 * of_nat base)"
      using assms(1) by (simp add: power_int_minus field_simps)
    with le show "of_nat mttd / of_nat base < (3 / 2 :: rat) - 2 powi (- 23 - 1)" by linarith
  qed (use assms in simp_all)
  also have "\<dots> \<longleftrightarrow> of_nat (3 * base) \<le> (of_nat (2 * mttd) :: rat)" by (simp add: mult.commute)
  also have "\<dots> \<longleftrightarrow> 3 * base \<le> 2 * mttd" by (simp only: of_nat_le_iff)
  finally show ?thesis using assms(1) by (simp add: drifted_def drift_factor_def DRIFT_THRESHOLD_def)
qed

text \<open>
  C37: The drift decision is exact despite its single-precision quotient: for a baseline and a time to
  detect of up to two hours, feedback on the latest run marks the job degraded exactly if the attack
  was missed or detection took at least one and a half times the baseline; an alert is raised exactly
  when the job becomes degraded or the first miss follows a slow detection; the baseline stays.
\<close>
theorem drift_exact:
  assumes "feedback_job r j = (j', a)" and "j' \<noteq> j" and "sj_last_run_id j = Some (ar_run_id r)"
    and "sj_baseline_mttd_ms j = Some base" and "0 < base" and "base < 2 ^ 23"
    and "ms_mttd_ms (ar_measurements r) < 2 ^ 23"
  shows "(sj_drift_detected j' \<longleftrightarrow> \<not> ms_blue_team_detected (ar_measurements r)
        \<or> 3 * base \<le> 2 * ms_mttd_ms (ar_measurements r))
    \<and> (a \<noteq> None \<longleftrightarrow> sj_drift_detected j' \<and> (\<not> sj_drift_detected j
        \<or> \<not> ms_blue_team_detected (ar_measurements r) \<and> \<not> sj_detection_missed j))
    \<and> (sj_detection_missed j' \<longleftrightarrow> \<not> ms_blue_team_detected (ar_measurements r))
    \<and> sj_baseline_mttd_ms j' = Some base"
proof -
  have "ms_mttd_ms (ar_measurements r) < 2 ^ 24" using assms(7) by simp
  then have ex: "drifted (drift_factor (ms_mttd_ms (ar_measurements r)) (Some base))
      \<longleftrightarrow> 3 * base \<le> 2 * ms_mttd_ms (ar_measurements r)"
    by (rule drifted_exact [OF assms(5,6)])
  have zero: "\<not> drifted (drift_factor 0 (Some base))"
    using assms(5) by (simp add: drifted_def drift_factor_def DRIFT_THRESHOLD_def)
  obtain i where i: "position (\<lambda>s. sm_run_id s = Some (ar_run_id r)) (sj_run_history j) = Some i"
    using assms(1,2) by (cases "position (\<lambda>s. sm_run_id s = Some (ar_run_id r)) (sj_run_history j)")
      (simp_all add: feedback_job_def)
  show ?thesis
  proof (cases "ms_blue_team_detected (ar_measurements r)")
    case True
    with assms(1-4) i show ?thesis
      by (simp add: feedback_job_def Let_def learned_baseline_def ex split: if_splits) auto
  next
    case False
    with assms(1-4) i zero show ?thesis
      by (simp add: feedback_job_def Let_def learned_baseline_def split: if_splits) auto
  qed
qed

section \<open>Polls\<close>

lemma outcome_apply_step: "outcome_apply p c = sched_step (SoOutcome p) c"
  by simp

lemma flush_change_inv: "sched_inv c \<Longrightarrow> flush_change audit p c = (r, c') \<Longrightarrow> sched_inv c'"
  using sched_inv_step [of _ "SoOutcome p"] sched_inv_step [of _ "SoFeedback _"]
  by (auto simp: flush_change_def Let_def split: option.splits)

lemma flush_prefix:
  assumes "json_ok C" and "pe_inv C d sched_inv cell" and "flush_outcomes C audit ios pending cell = (ok, pending', cell')"
  shows "pe_inv C d sched_inv cell' \<and> (\<exists>n. pending' = drop n pending \<and> n \<le> length pending
    \<and> (ok \<longleftrightarrow> n = length pending)
    \<and> pe_value cell' = fold (\<lambda>p c. snd (flush_change audit p c)) (take n pending) (pe_value cell))"
  using assms
proof (induction C audit ios pending cell rule: flush_outcomes.induct)
  case (2 C audit ios p pending cell)
  obtain res cell1 where u: "pe_update C (flush_change audit p) (next_io ios) cell = (res, cell1)"
    by (cases "pe_update C (flush_change audit p) (next_io ios) cell")
  have inv: "pe_inv C d sched_inv cell1"
    using pe_update_inv [OF "2.prems"(1,2), of "flush_change audit p" "next_io ios"] flush_change_inv u
    by (metis snd_conv)
  from u show ?case
  proof (cases rule: pe_update_cases)
    case (1 e)
    with u "2.prems" show ?thesis by (auto intro!: exI [where x = 0])
  next
    case (2 r nxt)
    with u "2.prems" have rest: "flush_outcomes C audit (tl ios) pending cell1 = (ok, pending', cell')" by simp
    from "2.IH" [OF u [symmetric] 2(2) "2.prems"(1) inv rest] obtain n where n: "pe_inv C d sched_inv cell'"
        "pending' = drop n pending" "n \<le> length pending" "ok \<longleftrightarrow> n = length pending"
        "pe_value cell' = fold (\<lambda>p c. snd (flush_change audit p c)) (take n pending) (pe_value cell1)"
      by blast
    with 2 show ?thesis by (auto intro!: exI [where x = "Suc n"])
  qed
qed auto

definition job_key :: "scheduled_job \<Rightarrow> string \<times> string" where
  "job_key j = (sj_id j, sj_generation j)"

definition outcome_key :: "pending_outcome \<Rightarrow> string \<times> string" where
  "outcome_key p = (po_job_id p, po_generation p)"

lemma run_jobs_conserve:
  assumes "json_ok C" and "pe_inv C d sched_inv cell" and "run_jobs C env jobs pending cell = (started, pending', cell')"
  shows "pe_inv C d sched_inv cell' \<and> subseq started jobs
    \<and> (\<exists>os applied. applied @ pending' = pending @ os \<and> map outcome_key os = map job_key jobs)"
  using assms(2,3)
proof (induction jobs arbitrary: pending cell started pending' cell')
  case (Cons j jobs)
  let ?cur = "still_current (pe_value cell) j"
  let ?o = "outcome_of j (env j) ?cur"
  obtain b p1 c1 where f: "flush_outcomes C (je_audit (env j)) (je_ios (env j)) (pending @ [?o]) cell = (b, p1, c1)"
    by (cases "flush_outcomes C (je_audit (env j)) (je_ios (env j)) (pending @ [?o]) cell")
  obtain s2 p2 c2 where r: "run_jobs C env jobs p1 c1 = (s2, p2, c2)" by (cases "run_jobs C env jobs p1 c1")
  from Cons.prems f r have eq: "started = (if ?cur then j # s2 else s2)" "pending' = p2" "cell' = c2"
    by (auto simp: Let_def)
  from flush_prefix [OF assms(1) Cons.prems(1) f] obtain n where n: "pe_inv C d sched_inv c1"
      "p1 = drop n (pending @ [?o])" by blast
  from Cons.IH [OF n(1) r] obtain os applied where os: "pe_inv C d sched_inv c2" "subseq s2 jobs"
      "applied @ p2 = p1 @ os" "map outcome_key os = map job_key jobs" by blast
  have "(take n (pending @ [?o]) @ applied) @ p2 = pending @ ?o # os"
    using os(3) n(2) append_take_drop_id [of n "pending @ [?o]"] by (metis append.assoc append_Cons append_Nil)
  moreover have "map outcome_key (?o # os) = map job_key (j # jobs)"
    using os(4) by (simp add: outcome_key_def job_key_def outcome_of_def)
  ultimately have "\<exists>os' applied'. applied' @ p2 = pending @ os' \<and> map outcome_key os' = map job_key (j # jobs)"
    by blast
  then show ?case using os(1,2) eq by auto
qed auto

lemma claim_distinct: "distinct (map sj_id (sc_jobs c)) \<Longrightarrow> distinct (map sj_id (fst (claim_due t u c)))"
proof -
  assume "distinct (map sj_id (sc_jobs c))"
  then have "distinct (map sj_id (filter (is_due t) (sc_jobs c)))" by (rule distinct_map_filter)
  then have dist: "distinct (map sj_id (map (claimed t u) (filter (is_due t) (sc_jobs c))))"
    by (simp add: claimed_def comp_def)
  have "mset (map sj_id (sort_key sj_id xs)) = mset (map sj_id xs)" for xs by simp
  note sorted = mset_eq_imp_distinct_iff [OF this]
  show ?thesis unfolding claim_due_def fst_conv sorted by (rule dist)
qed


end
