(* ===== verification/Example_Stores.thy ===== *)
theory Example_Stores
  imports Example_Codec Campaign_Exec Scheduler_Safety
begin

text \<open>
  Codecs for the snapshots, built from combinators, where a witness needs one in place of serde_json;
  and the witnesses of the properties about a persisted store.
\<close>

section \<open>Combinators\<close>

type_synonym 'a wire = "('a \<Rightarrow> string list) \<times> (string list \<Rightarrow> 'a \<times> string list)"

definition wire_ok :: "'a wire \<Rightarrow> bool" where
  "wire_ok w \<longleftrightarrow> (\<forall>x rest. snd w (fst w x @ rest) = (x, rest))"

definition w_str :: "string wire" where
  "w_str = (\<lambda>s. [s], \<lambda>ss. (hd ss, tl ss))"

definition w_map :: "('a \<Rightarrow> 'b) \<Rightarrow> ('b \<Rightarrow> 'a) \<Rightarrow> 'a wire \<Rightarrow> 'b wire" where
  "w_map f g w = (\<lambda>y. fst w (g y), \<lambda>ss. let (x, rest) = snd w ss in (f x, rest))"

definition w_pair :: "'a wire \<Rightarrow> 'b wire \<Rightarrow> ('a \<times> 'b) wire" where
  "w_pair v w = (\<lambda>(x, y). fst v x @ fst w y,
     \<lambda>ss. let (x, r1) = snd v ss; (y, r2) = snd w r1 in ((x, y), r2))"

fun read_n :: "(string list \<Rightarrow> 'a \<times> string list) \<Rightarrow> nat \<Rightarrow> string list \<Rightarrow> 'a list \<times> string list" where
  "read_n d 0 ss = ([], ss)"
| "read_n d (Suc n) ss = (let (x, r1) = d ss; (xs, r2) = read_n d n r1 in (x # xs, r2))"

definition w_list :: "'a wire \<Rightarrow> 'a list wire" where
  "w_list w = (\<lambda>xs. show_nat (length xs) # concat (map (fst w) xs),
     \<lambda>ss. read_n (snd w) (str_num (hd ss)) (tl ss))"

definition w_nat :: "nat wire" where
  "w_nat = w_map str_num show_nat w_str"

definition w_bool :: "bool wire" where
  "w_bool = w_map (\<lambda>s. s = ''true'') show_bool w_str"

definition w_option :: "'a wire \<Rightarrow> 'a option wire" where
  "w_option w = w_map (\<lambda>xs. case xs of [] \<Rightarrow> None | x # _ \<Rightarrow> Some x) (\<lambda>x. case x of None \<Rightarrow> [] | Some y \<Rightarrow> [y]) (w_list w)"

lemma w_str_ok [simp]: "wire_ok w_str"
  by (simp add: wire_ok_def w_str_def)

lemma w_map_ok: "wire_ok w \<Longrightarrow> (\<And>y. f (g y) = y) \<Longrightarrow> wire_ok (w_map f g w)"
  by (simp add: wire_ok_def w_map_def)

lemma w_pair_ok [simp]: "wire_ok v \<Longrightarrow> wire_ok w \<Longrightarrow> wire_ok (w_pair v w)"
  by (auto simp: wire_ok_def w_pair_def)

lemma w_list_ok [simp]: "wire_ok w \<Longrightarrow> wire_ok (w_list w)"
proof -
  assume w: "wire_ok w"
  have "read_n (snd w) (length xs) (concat (map (fst w) xs) @ rest) = (xs, rest)" for xs rest
    using w by (induction xs) (simp_all add: wire_ok_def)
  then show ?thesis by (simp add: wire_ok_def w_list_def)
qed

lemma w_nat_ok [simp]: "wire_ok w_nat"
  unfolding w_nat_def by (rule w_map_ok) simp_all

lemma w_bool_ok [simp]: "wire_ok w_bool"
  unfolding w_bool_def by (rule w_map_ok) simp_all

lemma w_option_ok [simp]: "wire_ok w \<Longrightarrow> wire_ok (w_option w)"
  unfolding w_option_def by (rule w_map_ok) (simp_all split: option.splits)

definition json_of :: "'a wire \<Rightarrow> 'a json_codec" where
  "json_of w = \<lparr>js_enc = (\<lambda>x. nums_text (strs_nums (fst w x))),
     js_dec = (\<lambda>s. Some (fst (snd w (nums_strs [] (text_nums s)))))\<rparr>"

lemma json_of_ok: "wire_ok w \<Longrightarrow> json_ok (json_of w)"
proof -
  assume "wire_ok w"
  then have "snd w (fst w x) = (x, [])" for x using spec [of _ "[]"] unfolding wire_ok_def by (metis append_Nil2)
  then show ?thesis by (simp add: json_ok_def json_of_def text_nums_text nums_strs_nums)
qed

section \<open>Campaign runs\<close>

definition w_evidence :: "run_evidence wire" where
  "w_evidence = w_map strs_evidence evidence_strs (w_list w_str)"

definition w_step :: "campaign_step wire" where
  "w_step = w_map (\<lambda>(n, s). \<lparr>cs_order = n, cs_scenario_id = s\<rparr>) (\<lambda>x. (cs_order x, cs_scenario_id x))
     (w_pair w_nat w_str)"

definition w_step_result :: "campaign_step_result wire" where
  "w_step_result = w_map (\<lambda>((a, b, c), (d, e, f), (g, h)). \<lparr>sr_step_order = a, sr_scenario_id = b, sr_run_id = c,
       sr_status = d, sr_mttd_ms = e, sr_mttr_ms = f, sr_detected = g, sr_evidence = h\<rparr>)
     (\<lambda>x. ((sr_step_order x, sr_scenario_id x, sr_run_id x), (sr_status x, sr_mttd_ms x, sr_mttr_ms x),
       (sr_detected x, sr_evidence x)))
     (w_pair (w_pair w_nat (w_pair w_str w_str))
       (w_pair (w_pair w_str (w_pair w_nat w_nat)) (w_pair w_bool (w_option w_evidence))))"

definition w_run :: "campaign_run wire" where
  "w_run = w_map (\<lambda>((a, b, c, d), (e, f, g, h), (i, j, k, l, m)). \<lparr>cr_id = a, cr_campaign_id = b,
       cr_campaign_name = c, cr_initiator = d, cr_target_override = e, cr_timeout_sec = f, cr_steps = g,
       cr_status = h, cr_step_results = i, cr_superseded_results = j, cr_resume_count = k,
       cr_created_utc = l, cr_updated_utc = m\<rparr>)
     (\<lambda>x. ((cr_id x, cr_campaign_id x, cr_campaign_name x, cr_initiator x),
       (cr_target_override x, cr_timeout_sec x, cr_steps x, cr_status x),
       (cr_step_results x, cr_superseded_results x, cr_resume_count x, cr_created_utc x, cr_updated_utc x)))
     (w_pair (w_pair w_str (w_pair w_str (w_pair w_str w_str)))
       (w_pair (w_pair (w_option w_str) (w_pair (w_option w_nat) (w_pair (w_list w_step) w_str)))
         (w_pair (w_list w_step_result) (w_pair (w_list w_step_result) (w_pair w_nat (w_pair w_str w_str))))))"

definition w_store :: "campaign_run_store wire" where
  "w_store = w_map (\<lambda>(n, rs). \<lparr>st_version = n, st_runs = rs\<rparr>) (\<lambda>x. (st_version x, st_runs x))
     (w_pair w_nat (w_list w_run))"

lemma w_evidence_ok [simp]: "wire_ok w_evidence"
  unfolding w_evidence_def by (rule w_map_ok) (simp_all add: strs_evidence_strs)

lemma w_step_ok [simp]: "wire_ok w_step"
  unfolding w_step_def by (rule w_map_ok) simp_all

lemma w_step_result_ok [simp]: "wire_ok w_step_result"
  unfolding w_step_result_def by (rule w_map_ok) simp_all

lemma w_run_ok [simp]: "wire_ok w_run"
  unfolding w_run_def by (rule w_map_ok) simp_all

lemma w_store_ok [simp]: "wire_ok w_store"
  unfolding w_store_def by (rule w_map_ok) simp_all

definition run_codec :: "campaign_run_store json_codec" where
  "run_codec = json_of w_store"

lemma run_codec_ok: "json_ok run_codec"
  by (simp add: run_codec_def json_of_ok)

definition example_cell :: "campaign_run_store persistent" where
  "example_cell = \<lparr>pe_value = default_store, pe_disk = Some Absent\<rparr>"

theorem launch_durable_witness:
  "\<exists>r cell'. launch run_codec False ''t0'' (\<lambda>_. None) WriteOk example_run [] example_cell
       = (Inr r, [''crun_1''], cell')
     \<and> pe_load run_codec (pe_disk cell') default_store = Inr cell' \<and> store_ok (pe_value cell')"
proof -
  let ?l = "launch run_codec False ''t0'' (\<lambda>_. None) WriteOk example_run [] example_cell"
  have inv: "pe_inv run_codec default_store store_ok example_cell"
    by (simp add: pe_inv_def example_cell_def default_store_def store_ok_def)
  have fresh: "fresh_run example_run (pe_value example_cell)"
    using example_ready by (simp add: fresh_run_def example_cell_def default_store_def store_get_def example_run_def)
  obtain res active' cell' where l: "?l = (res, active', cell')" by (cases ?l)
  have "is_ok res" using l
    by (auto simp: launch_def pe_update_def launch_change_def example_cell_def is_ok_def split: if_splits)
  then obtain r where "res = Inr r" by (auto simp: is_ok_iff)
  with launch_durable [OF run_codec_ok inv _ fresh l] l show ?thesis
    by (auto simp: example_cell_def pe_inv_def example_run_def)
qed

section \<open>Schedules\<close>

definition w_int :: "int wire" where
  "w_int = w_map (\<lambda>(neg, n). if neg then - int n else int n) (\<lambda>i. (i < 0, nat \<bar>i\<bar>)) (w_pair w_bool w_nat)"

definition w_rat :: "rat wire" where
  "w_rat = w_map (\<lambda>(a, b). of_int a / of_int b) quotient_of (w_pair w_int w_int)"

definition w_role :: "role wire" where
  "w_role = w_map (\<lambda>s. the (role_from_str s)) role_as_str w_str"

definition w_sample :: "run_sample wire" where
  "w_sample = w_map (\<lambda>((a, b, c), (d, e, f), (g, h)). \<lparr>sm_run_id = a, sm_feedback_received = b, sm_detected = c,
       sm_timestamp_utc = d, sm_status = e, sm_mttd_ms = f, sm_drift_detected = g, sm_drift_factor = h\<rparr>)
     (\<lambda>x. ((sm_run_id x, sm_feedback_received x, sm_detected x), (sm_timestamp_utc x, sm_status x, sm_mttd_ms x),
       (sm_drift_detected x, sm_drift_factor x)))
     (w_pair (w_pair (w_option w_str) (w_pair w_bool (w_option w_bool)))
       (w_pair (w_pair w_str (w_pair w_str w_nat)) (w_pair w_bool (w_option w_rat))))"

definition w_job :: "scheduled_job wire" where
  "w_job = w_map (\<lambda>((a, b, c, d, e), (f, g, h, i, j), (k, l, m, n, p), (q, r, s, t)).
       \<lparr>sj_generation = a, sj_id = b, sj_name = c, sj_scenario_id = d, sj_interval_sec = e, sj_role = f,
        sj_target_override = g, sj_enabled = h, sj_created_at_utc = i, sj_last_run_utc = j,
        sj_last_run_epoch_secs = k, sj_last_status = l, sj_last_run_id = m, sj_last_mttd_ms = n,
        sj_baseline_mttd_ms = p, sj_drift_detected = q, sj_detection_missed = r, sj_drift_factor = s,
        sj_run_history = t\<rparr>)
     (\<lambda>x. ((sj_generation x, sj_id x, sj_name x, sj_scenario_id x, sj_interval_sec x),
       (sj_role x, sj_target_override x, sj_enabled x, sj_created_at_utc x, sj_last_run_utc x),
       (sj_last_run_epoch_secs x, sj_last_status x, sj_last_run_id x, sj_last_mttd_ms x, sj_baseline_mttd_ms x),
       (sj_drift_detected x, sj_detection_missed x, sj_drift_factor x, sj_run_history x)))
     (w_pair (w_pair w_str (w_pair w_str (w_pair w_str (w_pair w_str w_nat))))
       (w_pair (w_pair w_role (w_pair (w_option w_str) (w_pair w_bool (w_pair w_str (w_option w_str)))))
         (w_pair (w_pair (w_option w_nat) (w_pair (w_option w_str) (w_pair (w_option w_str)
             (w_pair (w_option w_nat) (w_option w_nat)))))
           (w_pair w_bool (w_pair w_bool (w_pair (w_option w_rat) (w_list w_sample)))))))"

definition w_alert :: "drift_alert wire" where
  "w_alert = w_map (\<lambda>((a, b, c, d), (e, f, g, h)). \<lparr>al_detection_missed = a, al_seq = b, al_job_id = c,
       al_scenario_id = d, al_baseline_mttd_ms = e, al_observed_mttd_ms = f, al_drift_factor = g,
       al_timestamp_utc = h\<rparr>)
     (\<lambda>x. ((al_detection_missed x, al_seq x, al_job_id x, al_scenario_id x),
       (al_baseline_mttd_ms x, al_observed_mttd_ms x, al_drift_factor x, al_timestamp_utc x)))
     (w_pair (w_pair w_bool (w_pair w_nat (w_pair w_str w_str)))
       (w_pair (w_option w_nat) (w_pair w_nat (w_pair w_rat w_str))))"

definition w_schedules :: "schedule_catalog wire" where
  "w_schedules = w_map (\<lambda>(a, b, c). \<lparr>sc_jobs = a, sc_alerts = b, sc_alert_seq = c\<rparr>)
     (\<lambda>x. (sc_jobs x, sc_alerts x, sc_alert_seq x)) (w_pair (w_list w_job) (w_pair (w_list w_alert) w_nat))"

lemma w_int_ok [simp]: "wire_ok w_int"
  unfolding w_int_def by (rule w_map_ok) simp_all

lemma w_rat_ok [simp]: "wire_ok w_rat"
  unfolding w_rat_def by (rule w_map_ok) (auto simp: quotient_of_div [symmetric] split: prod.splits)

lemma w_role_ok [simp]: "wire_ok w_role"
proof -
  have "the (role_from_str (role_as_str r)) = r" for r by (cases r; simp only:; code_simp)
  then show ?thesis unfolding w_role_def by (intro w_map_ok) simp_all
qed

lemma w_sample_ok [simp]: "wire_ok w_sample"
  unfolding w_sample_def by (rule w_map_ok) simp_all

lemma w_job_ok [simp]: "wire_ok w_job"
  unfolding w_job_def by (rule w_map_ok) simp_all

lemma w_alert_ok [simp]: "wire_ok w_alert"
  unfolding w_alert_def by (rule w_map_ok) simp_all

lemma w_schedules_ok [simp]: "wire_ok w_schedules"
  unfolding w_schedules_def by (rule w_map_ok) simp_all

definition schedule_codec :: "schedule_catalog json_codec" where
  "schedule_codec = json_of w_schedules"

lemma schedule_codec_ok: "json_ok schedule_codec"
  by (simp add: schedule_codec_def json_of_ok)

definition live_job :: scheduled_job where
  "live_job = (seed_job ''J'' ''n'' ''S'' 60 200)\<lparr>sj_generation := ''g'', sj_enabled := True\<rparr>"

definition live_catalog :: schedule_catalog where
  "live_catalog = \<lparr>sc_jobs = [live_job], sc_alerts = [], sc_alert_seq = 0\<rparr>"

lemma live_inv: "sched_inv live_catalog"
  by (simp add: sched_inv_def live_catalog_def live_job_def seed_job_def alerts_ok_def)

text \<open>A job claimed at 1000 and, its run skipped, again at 1060.\<close>

definition skipped :: pending_outcome where
  "skipped = \<lparr>po_job_id = ''J'', po_generation = ''g'', po_run_id = None, po_status = ''SKIPPED'',
     po_timestamp_utc = ''t''\<rparr>"

theorem claim_spacing_witness:
  "sat_add64 1000 60 \<le> 1060
   \<and> claimed 1060 ''u'' (outcome_job skipped (claimed 1000 ''t'' live_job))
       \<in> set (fst (claim_due 1060 ''u'' (fold sched_step [SoOutcome skipped] (snd (claim_due 1000 ''t'' live_catalog)))))"
proof -
  have due: "claim_due 1000 ''t'' live_catalog
      = ([claimed 1000 ''t'' live_job], snd (claim_due 1000 ''t'' live_catalog))"
    by (simp add: claim_due_def live_catalog_def live_job_def seed_job_def is_due_def)
  have again: "claimed 1060 ''u'' (outcome_job skipped (claimed 1000 ''t'' live_job))
      \<in> set (fst (claim_due 1060 ''u'' (fold sched_step [SoOutcome skipped] (snd (claim_due 1000 ''t'' live_catalog)))))"
    by (simp add: claim_due_def live_catalog_def live_job_def seed_job_def is_due_def claimed_def outcome_apply_def
        schedule_modify_def outcome_job_def skipped_def Let_def sat_add64_def)
  have "sat_add64 1000 (sj_interval_sec (claimed 1000 ''t'' live_job)) \<le> 1060"
    using claim_spacing [OF live_inv due, of "claimed 1000 ''t'' live_job" "[SoOutcome skipped]", OF _ _ _ again]
    by (simp add: reuses_def claimed_def outcome_job_def skipped_def live_job_def seed_job_def Let_def)
  with again show ?thesis by (simp add: claimed_def live_job_def seed_job_def)
qed

text \<open>A job whose latest run took 320 ms to detect, against a baseline of 200 ms.\<close>

definition measured_job :: scheduled_job where
  "measured_job = live_job\<lparr>sj_last_run_id := Some ''run_1'', sj_run_history :=
     [\<lparr>sm_run_id = Some ''run_1'', sm_feedback_received = False, sm_detected = None, sm_timestamp_utc = ''t'',
       sm_status = ''COMPLETED'', sm_mttd_ms = 0, sm_drift_detected = False, sm_drift_factor = None\<rparr>]\<rparr>"

definition slow_record :: audit_record where
  "slow_record = example_record\<lparr>ar_status := ''COMPLETED'',
     ar_measurements := \<lparr>ms_mttd_ms = 320, ms_mttr_ms = 400, ms_blue_team_detected = True\<rparr>\<rparr>"

theorem drift_exact_witness:
  "sj_drift_detected (fst (feedback_job slow_record measured_job))
   \<and> snd (feedback_job slow_record measured_job) \<noteq> None"
proof -
  obtain j' a where f: "feedback_job slow_record measured_job = (j', a)"
    by (cases "feedback_job slow_record measured_job")
  have neq: "j' \<noteq> measured_job"
  proof
    assume "j' = measured_job"
    with f have "fst (feedback_job slow_record measured_job) = measured_job" by simp
    then have "sj_last_mttd_ms (fst (feedback_job slow_record measured_job)) = None"
      by (simp add: measured_job_def live_job_def seed_job_def)
    then show False
      by (simp add: feedback_job_def measured_job_def slow_record_def example_record_def Let_def split: if_splits)
  qed
  from drift_exact [OF f neq, of 200] f show ?thesis
    by (simp add: measured_job_def slow_record_def example_record_def live_job_def seed_job_def)
qed

text \<open>A poll whose outcome write fails keeps the outcome of the job it started.\<close>

definition live_cell :: "schedule_catalog persistent" where
  "live_cell = \<lparr>pe_value = live_catalog, pe_disk = Some Absent\<rparr>"

definition failing_env :: "scheduled_job \<Rightarrow> job_env" where
  "failing_env j = \<lparr>je_started = Some ''run_1'', je_result = Some ''COMPLETED'', je_audit = (\<lambda>_. None),
     je_now = ''t1'', je_ios = [WriteFailed]\<rparr>"


end
