(* ===== verification/Runner_World.thy ===== *)
theory Runner_World
  imports Scope
begin

text \<open>
  The world a runner worker acts on: the file system below its root, the clock and the control
  channel, the network backend, the state it publishes and the events it sends. A worker is a chain of
  operations on it (\<open>io\<close>) that end, fail or never return. Which system calls fail, what the clock
  shows, and when a cancellation or a lost lease is seen are inputs, fixed in the world and consumed in
  order. Only the runner acts on its directories; a system call resolves no symbolic link.
\<close>

section \<open>Operations\<close>

type_synonym fpath = "string list"

datatype node = DirNode | FileNode string | LinkNode

datatype io_error = IoNotFound string | IoExists string | IoOther string

fun io_text :: "io_error \<Rightarrow> string" where
  "io_text (IoNotFound e) = e"
| "io_text (IoExists e) = e"
| "io_text (IoOther e) = e"

text \<open>
  A failing call, with the bytes of a write, or the entries of a removal, that took effect before.
  A call never reports a missing entry that is there.
\<close>

datatype io_fault = FaultExists string | FaultOther string

datatype fault = Fault io_fault nat

fun fault_error :: "io_fault \<Rightarrow> io_error" where
  "fault_error (FaultExists e) = IoExists e"
| "fault_error (FaultOther e) = IoOther e"

text \<open>\<open>KUnspecified\<close>: no kind, or a number that is none of the others.\<close>

datatype event_kind = KUnspecified | KStateChanged | KCompleted | KRejected | KCancelled | KFailed | KTimedOut

record runner_event =
  rv_kind :: event_kind
  rv_state :: string
  rv_files_created :: nat
  rv_bytes_written :: nat
  rv_inject_ms :: nat
  rv_detail :: string
  rv_run_id :: string
  rv_cleanup_confirmed :: bool
  rv_simulated :: bool

text \<open>One look at the clock and the control channel: milliseconds since the start of the worker,
  whether it was cancelled or its receiver is gone, the age of the last heartbeat, and the pause the
  CPU budget asks for in microseconds (or the error of reading the thread clock).\<close>

record instant =
  it_elapsed :: nat
  it_cancelled :: bool
  it_lease :: nat
  it_delay :: "string + nat"

record 'n world =
  wd_fs :: "(fpath \<times> node) list"
  wd_faults :: "fault option list"
  wd_clock :: "nat \<Rightarrow> instant"
  wd_tick :: nat
  wd_net :: 'n
  wd_state :: string
  wd_events :: "runner_event list"

type_synonym ('n, 'e, 'a) io = "'n world \<Rightarrow> (('e + 'a) \<times> 'n world) option"

definition io_ret :: "'a \<Rightarrow> ('n, 'e, 'a) io" where
  "io_ret v w = Some (Inr v, w)"

definition io_fail :: "'e \<Rightarrow> ('n, 'e, 'a) io" where
  "io_fail e w = Some (Inl e, w)"

definition io_try :: "('n, 'e, 'a) io \<Rightarrow> ('e + 'a \<Rightarrow> ('n, 'f, 'b) io) \<Rightarrow> ('n, 'f, 'b) io" where
  "io_try m f w = (case m w of None \<Rightarrow> None | Some (r, w') \<Rightarrow> f r w')"

definition io_then :: "('n, 'e, 'a) io \<Rightarrow> ('a \<Rightarrow> ('n, 'e, 'b) io) \<Rightarrow> ('n, 'e, 'b) io" where
  "io_then m f = io_try m (\<lambda>r. case r of Inl e \<Rightarrow> io_fail e | Inr v \<Rightarrow> f v)"

definition io_map_err :: "('e \<Rightarrow> 'f) \<Rightarrow> ('n, 'e, 'a) io \<Rightarrow> ('n, 'f, 'a) io" where
  "io_map_err g m = io_try m (\<lambda>r. case r of Inl e \<Rightarrow> io_fail (g e) | Inr v \<Rightarrow> io_ret v)"

definition io_lift :: "('e + 'a) \<Rightarrow> ('n, 'e, 'a) io" where
  "io_lift r w = Some (r, w)"

lemmas io_defs = io_ret_def io_fail_def io_try_def io_then_def io_map_err_def io_lift_def

lemma io_then_Inr:
  "io_then m f w = Some (Inr v, w') \<longleftrightarrow> (\<exists>u w1. m w = Some (Inr u, w1) \<and> f u w1 = Some (Inr v, w'))"
  by (auto simp: io_defs split: option.splits prod.splits sum.splits)

lemma io_tryE:
  assumes "io_try m f w = Some (r, w')"
  obtains x w1 where "m w = Some (x, w1)" and "f x w1 = Some (r, w')"
  using assms by (auto simp: io_try_def split: option.splits prod.splits)

lemma io_thenE:
  assumes "io_then m f w = Some (r, w')"
  obtains e where "m w = Some (Inl e, w')" and "r = Inl e"
  | v w1 where "m w = Some (Inr v, w1)" and "f v w1 = Some (r, w')"
  using assms by (auto simp: io_then_def io_fail_def elim!: io_tryE split: sum.splits)

lemma io_ret_Some [simp]: "io_ret v w = Some (r, w') \<longleftrightarrow> r = Inr v \<and> w' = w"
  by (auto simp: io_ret_def)

lemma io_fail_Some [simp]: "io_fail e w = Some (r, w') \<longleftrightarrow> r = Inl e \<and> w' = w"
  by (auto simp: io_fail_def)

section \<open>The file system\<close>

definition fs_get :: "(fpath \<times> node) list \<Rightarrow> fpath \<Rightarrow> node option" where
  "fs_get fs p = map_of fs p"

definition fs_put :: "fpath \<Rightarrow> node \<Rightarrow> (fpath \<times> node) list \<Rightarrow> (fpath \<times> node) list" where
  "fs_put p n fs = (p, n) # filter (\<lambda>(q, _). q \<noteq> p) fs"

definition fs_del :: "(fpath \<Rightarrow> bool) \<Rightarrow> (fpath \<times> node) list \<Rightarrow> (fpath \<times> node) list" where
  "fs_del P fs = filter (\<lambda>(q, _). \<not> P q) fs"

definition fs_children :: "(fpath \<times> node) list \<Rightarrow> fpath \<Rightarrow> bool" where
  "fs_children fs p \<longleftrightarrow> list_ex (\<lambda>(q, _). strict_prefix p q) fs"

lemma fs_get_put [simp]: "fs_get (fs_put p n fs) q = (if q = p then Some n else fs_get fs q)"
proof -
  have "q \<noteq> p \<Longrightarrow> map_of (filter (\<lambda>(q, _). q \<noteq> p) fs) q = map_of fs q"
    by (induction fs) auto
  then show ?thesis by (simp add: fs_get_def fs_put_def)
qed

lemma fs_get_del [simp]: "fs_get (fs_del P fs) q = (if P q then None else fs_get fs q)"
  unfolding fs_get_def fs_del_def by (induction fs) auto

text \<open>A system call takes the next fault off the script and acts on the file system.\<close>

definition sys_call ::
  "(fault option \<Rightarrow> (fpath \<times> node) list \<Rightarrow> ('e + 'a) \<times> (fpath \<times> node) list) \<Rightarrow> ('n, 'e, 'a) io" where
  "sys_call act w =
     (let (f, rest) = (case wd_faults w of [] \<Rightarrow> (None, []) | f # fs \<Rightarrow> (f, fs));
          (r, fs') = act f (wd_fs w)
      in Some (r, w\<lparr>wd_fs := fs', wd_faults := rest\<rparr>))"

definition symlink_metadata :: "fpath \<Rightarrow> ('n, io_error, node) io" where
  "symlink_metadata p = sys_call (\<lambda>f fs. case f of Some (Fault e _) \<Rightarrow> (Inl (fault_error e), fs)
     | None \<Rightarrow> (case fs_get fs p of Some n \<Rightarrow> (Inr n, fs) | None \<Rightarrow> (Inl (IoNotFound ''no such file''), fs)))"

definition path_exists :: "fpath \<Rightarrow> ('n, 'e, bool) io" where
  "path_exists p = sys_call (\<lambda>f fs. (Inr (f = None \<and> fs_get fs p \<noteq> None), fs))"

definition create_dir :: "fpath \<Rightarrow> ('n, io_error, unit) io" where
  "create_dir p = sys_call (\<lambda>f fs. case f of Some (Fault e _) \<Rightarrow> (Inl (fault_error e), fs)
     | None \<Rightarrow> if fs_get fs p \<noteq> None then (Inl (IoExists ''file exists''), fs)
         else if p \<noteq> [] \<and> fs_get fs (butlast p) \<noteq> Some DirNode then (Inl (IoNotFound ''no such directory''), fs)
         else (Inr (), fs_put p DirNode fs))"

fun is_dir_at :: "(fpath \<times> node) list \<Rightarrow> fpath \<Rightarrow> bool" where
  "is_dir_at fs p = (fs_get fs p = Some DirNode)"

definition dir_prefixes :: "fpath \<Rightarrow> fpath list" where
  "dir_prefixes p = map (\<lambda>n. take n p) [0..<Suc (length p)]"

definition create_dir_all :: "fpath \<Rightarrow> ('n, io_error, unit) io" where
  "create_dir_all p = sys_call (\<lambda>f fs. case f of Some (Fault e _) \<Rightarrow> (Inl (fault_error e), fs)
     | None \<Rightarrow> if is_dir_at fs p then (Inr (), fs)
         else if list_ex (\<lambda>q. fs_get fs q \<noteq> None \<and> \<not> is_dir_at fs q) (dir_prefixes p)
           then (Inl (IoExists ''file exists''), fs)
         else (Inr (), fold (\<lambda>q fs. if fs_get fs q = None then fs_put q DirNode fs else fs) (dir_prefixes p) fs))"

text \<open>\<open>File::create\<close>: a new or truncated file; \<open>write_all\<close> on it, which may fail half way.\<close>

definition create_file :: "fpath \<Rightarrow> ('n, io_error, unit) io" where
  "create_file p = sys_call (\<lambda>f fs. case f of Some (Fault e _) \<Rightarrow> (Inl (fault_error e), fs)
     | None \<Rightarrow> if \<not> is_dir_at fs (butlast p) then (Inl (IoNotFound ''no such directory''), fs)
         else (case fs_get fs p of
             Some DirNode \<Rightarrow> (Inl (IoOther ''is a directory''), fs)
           | Some LinkNode \<Rightarrow> (Inl (IoOther ''symbolic link''), fs)
           | _ \<Rightarrow> (Inr (), fs_put p (FileNode []) fs)))"

definition append_file :: "fpath \<Rightarrow> string \<Rightarrow> ('n, io_error, unit) io" where
  "append_file p data = sys_call (\<lambda>f fs. case fs_get fs p of
       Some (FileNode old) \<Rightarrow>
         (case f of
            Some (Fault e k) \<Rightarrow> (Inl (fault_error e), fs_put p (FileNode (old @ take k data)) fs)
          | None \<Rightarrow> (Inr (), fs_put p (FileNode (old @ data)) fs))
     | _ \<Rightarrow> (Inl (IoNotFound ''no such file''), fs))"

definition write_file :: "fpath \<Rightarrow> string \<Rightarrow> ('n, io_error, unit) io" where
  "write_file p data = io_then (create_file p) (\<lambda>_. append_file p data)"

definition read_file :: "fpath \<Rightarrow> ('n, io_error, string) io" where
  "read_file p = sys_call (\<lambda>f fs. case f of Some (Fault e _) \<Rightarrow> (Inl (fault_error e), fs)
     | None \<Rightarrow> (case fs_get fs p of Some (FileNode d) \<Rightarrow> (Inr d, fs) | _ \<Rightarrow> (Inl (IoNotFound ''no such file''), fs)))"

definition remove_file :: "fpath \<Rightarrow> ('n, io_error, unit) io" where
  "remove_file p = sys_call (\<lambda>f fs. case f of Some (Fault e _) \<Rightarrow> (Inl (fault_error e), fs)
     | None \<Rightarrow> (case fs_get fs p of
           None \<Rightarrow> (Inl (IoNotFound ''no such file''), fs)
         | Some DirNode \<Rightarrow> (Inl (IoOther ''is a directory''), fs)
         | Some _ \<Rightarrow> (Inr (), fs_del (\<lambda>q. q = p) fs)))"

definition remove_dir :: "fpath \<Rightarrow> ('n, io_error, unit) io" where
  "remove_dir p = sys_call (\<lambda>f fs. case f of Some (Fault e _) \<Rightarrow> (Inl (fault_error e), fs)
     | None \<Rightarrow> if \<not> is_dir_at fs p then (Inl (IoNotFound ''no such directory''), fs)
         else if fs_children fs p then (Inl (IoOther ''directory not empty''), fs)
         else (Inr (), fs_del (\<lambda>q. q = p) fs))"

text \<open>\<open>remove_dir_all\<close>: the whole tree, or when it fails, some entries below the directory.\<close>

definition remove_dir_all :: "fpath \<Rightarrow> ('n, io_error, unit) io" where
  "remove_dir_all p = sys_call (\<lambda>f fs. case f of
       Some (Fault e k) \<Rightarrow>
         (Inl (fault_error e), (let gone = take k (map fst (filter (\<lambda>(q, _). strict_prefix p q) fs)) in fs_del (\<lambda>q. q \<in> set gone) fs))
     | None \<Rightarrow> (case fs_get fs p of
           None \<Rightarrow> (Inl (IoNotFound ''no such directory''), fs)
         | Some (FileNode _) \<Rightarrow> (Inl (IoOther ''not a directory''), fs)
         | Some _ \<Rightarrow> (Inr (), fs_del (prefix p) fs)))"

section \<open>Clock, control channel and events\<close>

definition look :: "('n, 'e, instant) io" where
  "look w = Some (Inr (wd_clock w (wd_tick w)), w\<lparr>wd_tick := wd_tick w + 1\<rparr>)"

definition set_state :: "string \<Rightarrow> ('n, 'e, unit) io" where
  "set_state s w = Some (Inr (), w\<lparr>wd_state := s\<rparr>)"

definition send :: "runner_event \<Rightarrow> ('n, 'e, unit) io" where
  "send e w = Some (Inr (), w\<lparr>wd_events := wd_events w @ [e]\<rparr>)"

definition io_net :: "('n \<Rightarrow> ('e + 'a) \<times> 'n) \<Rightarrow> ('n, 'e, 'a) io" where
  "io_net act w = (let (r, n) = act (wd_net w) in Some (r, w\<lparr>wd_net := n\<rparr>))"

section \<open>What an operation leaves alone\<close>

text \<open>
  \<open>frame d\<close>: outside the tree of \<open>d\<close> the file system is as before, no entry below a missing \<open>d\<close> appears,
  nothing was sent or published and the clock runs on. \<open>spares d m\<close> says it of every ending of \<open>m\<close>; \<open>keeps d m\<close> of an \<open>m\<close> that starts when \<open>d\<close>
  is a directory, and says that \<open>d\<close> still is one.
\<close>

definition rooted :: "fpath \<Rightarrow> (fpath \<times> node) list \<Rightarrow> bool" where
  "rooted d fs \<longleftrightarrow> (fs_get fs d = None \<longrightarrow> (\<forall>q. prefix d q \<longrightarrow> fs_get fs q = None))"

definition frame :: "fpath \<Rightarrow> 'n world \<Rightarrow> 'n world \<Rightarrow> bool" where
  "frame d w w' \<longleftrightarrow> wd_events w' = wd_events w \<and> wd_state w' = wd_state w \<and> wd_clock w' = wd_clock w
     \<and> wd_tick w \<le> wd_tick w' \<and> (rooted d (wd_fs w) \<longrightarrow> rooted d (wd_fs w'))
     \<and> (\<forall>q. \<not> prefix d q \<longrightarrow> fs_get (wd_fs w') q = fs_get (wd_fs w) q)"

definition spares :: "fpath \<Rightarrow> ('n, 'e, 'a) io \<Rightarrow> bool" where
  "spares d m \<longleftrightarrow> (\<forall>w r w'. m w = Some (r, w') \<longrightarrow> frame d w w')"

definition keeps :: "fpath \<Rightarrow> ('n, 'e, 'a) io \<Rightarrow> bool" where
  "keeps d m \<longleftrightarrow> (\<forall>w r w'. m w = Some (r, w') \<longrightarrow> is_dir_at (wd_fs w) d \<longrightarrow> frame d w w' \<and> is_dir_at (wd_fs w') d)"

named_theorems io_rules

lemma frame_refl [simp]: "frame d w w"
  by (simp add: frame_def)

lemma frame_trans: "frame d w w1 \<Longrightarrow> frame d w1 w2 \<Longrightarrow> frame d w w2"
  by (auto simp: frame_def)

lemma spares_D: "spares d m \<Longrightarrow> m w = Some (r, w') \<Longrightarrow> frame d w w'"
  by (simp add: spares_def)

lemma keeps_D: "keeps d m \<Longrightarrow> m w = Some (r, w') \<Longrightarrow> is_dir_at (wd_fs w) d \<Longrightarrow> frame d w w' \<and> is_dir_at (wd_fs w') d"
  by (simp add: keeps_def del: is_dir_at.simps)

lemma spares_ret [io_rules]: "spares d (io_ret v)" and spares_fail [io_rules]: "spares d (io_fail e)"
  and spares_lift [io_rules]: "spares d (io_lift r)"
  by (simp_all add: spares_def io_lift_def)

lemma keeps_ret [io_rules]: "keeps d (io_ret v)" and keeps_fail [io_rules]: "keeps d (io_fail e)"
  and keeps_lift [io_rules]: "keeps d (io_lift r)"
  by (simp_all add: keeps_def io_lift_def)

lemma spares_try [io_rules]: "spares d m \<Longrightarrow> (\<And>r. spares d (f r)) \<Longrightarrow> spares d (io_try m f)"
  by (fastforce simp: spares_def io_try_def split: option.splits intro: frame_trans)

lemma keeps_try [io_rules]: "keeps d m \<Longrightarrow> (\<And>r. keeps d (f r)) \<Longrightarrow> keeps d (io_try m f)"
  by (fastforce simp: keeps_def io_try_def simp del: is_dir_at.simps split: option.splits intro: frame_trans)

lemma spares_sum [io_rules]: "(\<And>e. spares d (f e)) \<Longrightarrow> (\<And>v. spares d (g v)) \<Longrightarrow> spares d (case r of Inl e \<Rightarrow> f e | Inr v \<Rightarrow> g v)"
  by (cases r) auto

lemma keeps_sum [io_rules]: "(\<And>e. keeps d (f e)) \<Longrightarrow> (\<And>v. keeps d (g v)) \<Longrightarrow> keeps d (case r of Inl e \<Rightarrow> f e | Inr v \<Rightarrow> g v)"
  by (cases r) auto

lemma spares_if [io_rules]: "spares d m \<Longrightarrow> spares d m' \<Longrightarrow> spares d (if b then m else m')"
  and keeps_if [io_rules]: "keeps d m \<Longrightarrow> keeps d m' \<Longrightarrow> keeps d (if b then m else m')"
  by simp_all

lemma spares_then [io_rules]: "spares d m \<Longrightarrow> (\<And>v. spares d (f v)) \<Longrightarrow> spares d (io_then m f)"
  unfolding io_then_def by (intro io_rules)

lemma keeps_then [io_rules]: "keeps d m \<Longrightarrow> (\<And>v. keeps d (f v)) \<Longrightarrow> keeps d (io_then m f)"
  unfolding io_then_def by (intro io_rules)

lemma spares_map_err [io_rules]: "spares d m \<Longrightarrow> spares d (io_map_err g m)"
  unfolding io_map_err_def by (intro io_rules)

lemma keeps_map_err [io_rules]: "keeps d m \<Longrightarrow> keeps d (io_map_err g m)"
  unfolding io_map_err_def by (intro io_rules)

text \<open>A system call whose action changes the tree of \<open>d\<close> only.\<close>

lemma sys_call_spares:
  assumes "\<And>f fs r fs'. act f fs = (r, fs') \<Longrightarrow>
      (\<forall>q. \<not> prefix d q \<longrightarrow> fs_get fs' q = fs_get fs q) \<and> (rooted d fs \<longrightarrow> rooted d fs')"
  shows "spares d (sys_call act)"
  unfolding spares_def
proof (intro allI impI)
  fix w :: "'c world" and r w'
  assume run: "sys_call act w = Some (r, w')"
  obtain f rest where f: "(case wd_faults w of [] \<Rightarrow> (None, []) | f # fs \<Rightarrow> (f, fs)) = (f, rest)" by fastforce
  with run have act: "act f (wd_fs w) = (r, wd_fs w')" and w': "w' = w\<lparr>wd_fs := wd_fs w', wd_faults := rest\<rparr>"
    by (auto simp: sys_call_def Let_def split: prod.splits)
  from w' have "wd_events w' = wd_events w" "wd_state w' = wd_state w" "wd_clock w' = wd_clock w" "wd_tick w' = wd_tick w"
    by (metis world.select_convs world.surjective world.update_convs)+
  with assms [OF act] show "frame d w w'" by (simp add: frame_def)
qed

lemma sys_call_keeps:
  assumes "\<And>f fs r fs'. act f fs = (r, fs') \<Longrightarrow> is_dir_at fs d \<Longrightarrow>
      (\<forall>q. \<not> prefix d q \<longrightarrow> fs_get fs' q = fs_get fs q) \<and> is_dir_at fs' d"
  shows "keeps d (sys_call act)"
  unfolding keeps_def
proof (intro allI impI)
  fix w :: "'c world" and r w'
  assume run: "sys_call act w = Some (r, w')" and d: "is_dir_at (wd_fs w) d"
  obtain f rest where f: "(case wd_faults w of [] \<Rightarrow> (None, []) | f # fs \<Rightarrow> (f, fs)) = (f, rest)" by fastforce
  with run have act: "act f (wd_fs w) = (r, wd_fs w')" and w': "w' = w\<lparr>wd_fs := wd_fs w', wd_faults := rest\<rparr>"
    by (auto simp: sys_call_def Let_def split: prod.splits)
  from w' have "wd_events w' = wd_events w" "wd_state w' = wd_state w" "wd_clock w' = wd_clock w" "wd_tick w' = wd_tick w"
    by (metis world.select_convs world.surjective world.update_convs)+
  with assms [OF act d] show "frame d w w' \<and> is_dir_at (wd_fs w') d" by (simp add: frame_def rooted_def)
qed

lemma reads_spare [io_rules]:
  "spares d (symlink_metadata p)" "spares d (path_exists p)" "spares d (read_file p)"
  unfolding symlink_metadata_def path_exists_def read_file_def
  by (auto intro!: sys_call_spares split: option.splits fault.splits node.splits)

lemma reads_keep [io_rules]:
  "keeps d (symlink_metadata p)" "keeps d (path_exists p)" "keeps d (read_file p)"
  unfolding symlink_metadata_def path_exists_def read_file_def
  by (auto intro!: sys_call_keeps split: option.splits fault.splits node.splits)

lemma writes_keep [io_rules]:
  assumes "strict_prefix d p"
  shows "keeps d (create_file p)" "keeps d (append_file p data)" "keeps d (write_file p data)" "keeps d (remove_file p)"
proof -
  from assms have "prefix d p" "d \<noteq> p" by (simp_all add: strict_prefix_def)
  then show parts: "keeps d (create_file p)" "keeps d (append_file p data)" "keeps d (remove_file p)"
    unfolding create_file_def append_file_def remove_file_def
    by (auto intro!: sys_call_keeps split: option.splits fault.splits node.splits if_splits)
  show "keeps d (write_file p data)" unfolding write_file_def by (intro io_rules parts)
qed

lemma create_dir_all_keeps [io_rules]: "keeps d (create_dir_all d)"
  unfolding create_dir_all_def
  by (auto intro!: sys_call_keeps split: option.splits fault.splits if_splits)

text \<open>Removals: they take entries away, and \<open>d\<close> itself only when nothing is left below it.\<close>

lemma rooted_del: "rooted d fs \<Longrightarrow> (P d \<Longrightarrow> \<forall>q. strict_prefix d q \<longrightarrow> P q \<or> fs_get fs q = None) \<Longrightarrow> rooted d (fs_del P fs)"
  by (auto simp: rooted_def strict_prefix_def)

lemma no_children: "\<not> fs_children fs p \<Longrightarrow> strict_prefix p q \<Longrightarrow> fs_get fs q = None"
  unfolding fs_children_def fs_get_def by (induction fs) auto

lemma removes_spare [io_rules]:
  "strict_prefix d p \<Longrightarrow> spares d (remove_file p)" "spares d (remove_dir d)" "spares d (remove_dir_all d)"
proof -
  show "spares d (remove_file p)" if "strict_prefix d p"
    unfolding remove_file_def using that
    by (auto intro!: sys_call_spares rooted_del split: option.splits fault.splits node.splits if_splits
        simp: strict_prefix_def)
  show "spares d (remove_dir d)"
    unfolding remove_dir_def
    by (auto intro!: sys_call_spares rooted_del simp: no_children split: option.splits fault.splits if_splits)
  show "spares d (remove_dir_all d)"
    unfolding remove_dir_all_def
  proof (rule sys_call_spares)
    fix f fs and r :: "io_error + unit" and fs'
    assume act: "(case f of
         Some (Fault e k) \<Rightarrow>
           (Inl (fault_error e), (let gone = take k (map fst (filter (\<lambda>(q, _). strict_prefix d q) fs)) in fs_del (\<lambda>q. q \<in> set gone) fs))
       | None \<Rightarrow> (case fs_get fs d of
             None \<Rightarrow> (Inl (IoNotFound ''no such directory''), fs)
           | Some (FileNode _) \<Rightarrow> (Inl (IoOther ''not a directory''), fs)
           | Some _ \<Rightarrow> (Inr (), fs_del (prefix d) fs))) = (r, fs')"
    have gone: "q \<in> set (take k (map fst (filter (\<lambda>(q, _). strict_prefix d q) fs))) \<Longrightarrow> strict_prefix d q" for k q
      by (auto dest!: in_set_takeD)
    have "fs' = fs \<or> fs' = fs_del (prefix d) fs \<or> (\<exists>P. fs' = fs_del P fs \<and> (\<forall>q. P q \<longrightarrow> strict_prefix d q))"
    proof (cases f)
      case None
      with act show ?thesis by (simp split: option.splits node.splits)
    next
      case (Some x)
      obtain e k where x: "x = Fault e k" by (cases x)
      let ?gone = "take k (map fst (filter (\<lambda>(q, _). strict_prefix d q) fs))"
      from act Some x have "fs' = fs_del (\<lambda>q. q \<in> set ?gone) fs" by (simp add: Let_def)
      with gone show ?thesis by blast
    qed
    then show "(\<forall>q. \<not> prefix d q \<longrightarrow> fs_get fs' q = fs_get fs q) \<and> (rooted d fs \<longrightarrow> rooted d fs')"
      by (elim disjE exE conjE) (auto intro!: rooted_del simp: strict_prefix_def)
  qed
qed

lemma look_rules [io_rules]: "spares d look" "keeps d look"
  by (auto simp: spares_def keeps_def look_def frame_def)

lemma net_rules [io_rules]: "spares d (io_net act)" "keeps d (io_net act)"
  by (auto simp: spares_def keeps_def io_net_def frame_def Let_def split: prod.splits)

section \<open>Operations that return\<close>

text \<open>The clock is live when it never stands still for ever below a bound.\<close>

definition live :: "'n world \<Rightarrow> bool" where
  "live w \<longleftrightarrow> (\<forall>bound. \<exists>n. \<forall>k \<ge> n. bound \<le> it_elapsed (wd_clock w k))"

definition returns :: "('n, 'e, 'a) io \<Rightarrow> bool" where
  "returns m \<longleftrightarrow> (\<forall>w. live w \<longrightarrow> (\<exists>r w'. m w = Some (r, w') \<and> wd_clock w' = wd_clock w \<and> wd_tick w \<le> wd_tick w'))"

lemma live_cong: "wd_clock w' = wd_clock w \<Longrightarrow> live w' = live w"
  by (simp add: live_def)

lemma returns_D: "returns m \<Longrightarrow> live w \<Longrightarrow> \<exists>r w'. m w = Some (r, w') \<and> wd_clock w' = wd_clock w \<and> wd_tick w \<le> wd_tick w'"
  by (simp add: returns_def)

lemma returns_basic [io_rules]:
  "returns (io_ret v)" "returns (io_fail e)" "returns (io_lift r)" "returns look" "returns (set_state s)" "returns (send ev)"
  by (auto simp: returns_def io_defs look_def set_state_def send_def)

lemma returns_net [io_rules]: "returns (io_net act)"
  by (auto simp: returns_def io_net_def Let_def split: prod.splits)

lemma returns_sys [io_rules]: "returns (sys_call act)"
  by (auto simp: returns_def sys_call_def Let_def split: prod.splits)

lemma returns_try [io_rules]:
  fixes m :: "('n, 'e, 'a) io" and f :: "'e + 'a \<Rightarrow> ('n, 'f, 'b) io"
  assumes "returns m" and "\<And>r. returns (f r)"
  shows "returns (io_try m f)"
  unfolding returns_def
proof (intro allI impI)
  fix w :: "'n world"
  assume w: "live w"
  from returns_D [OF assms(1) w] obtain r w'
    where m: "m w = Some (r, w')" "wd_clock w' = wd_clock w" "wd_tick w \<le> wd_tick w'" by blast
  with w have "live w'" using live_cong by blast
  from returns_D [OF assms(2) this, of r] obtain r' w2
    where "f r w' = Some (r', w2)" "wd_clock w2 = wd_clock w'" "wd_tick w' \<le> wd_tick w2" by blast
  with m show "\<exists>r w'. io_try m f w = Some (r, w') \<and> wd_clock w' = wd_clock w \<and> wd_tick w \<le> wd_tick w'"
    by (simp add: io_try_def)
qed

lemma returns_sum [io_rules]: "(\<And>e. returns (f e)) \<Longrightarrow> (\<And>v. returns (g v)) \<Longrightarrow> returns (case r of Inl e \<Rightarrow> f e | Inr v \<Rightarrow> g v)"
  by (cases r) auto

lemma returns_if [io_rules]: "returns m \<Longrightarrow> returns m' \<Longrightarrow> returns (if b then m else m')"
  by simp

lemma returns_then [io_rules]: "returns m \<Longrightarrow> (\<And>v. returns (f v)) \<Longrightarrow> returns (io_then m f)"
  unfolding io_then_def by (intro io_rules)

lemma returns_map_err [io_rules]: "returns m \<Longrightarrow> returns (io_map_err g m)"
  unfolding io_map_err_def by (intro io_rules)

lemma returns_calls [io_rules]:
  "returns (symlink_metadata p)" "returns (path_exists p)" "returns (create_dir p)" "returns (create_dir_all p)"
  "returns (create_file p)" "returns (append_file p data)" "returns (write_file p data)" "returns (read_file p)"
  "returns (remove_file p)" "returns (remove_dir p)" "returns (remove_dir_all p)"
  unfolding symlink_metadata_def path_exists_def create_dir_def create_dir_all_def create_file_def
    append_file_def write_file_def read_file_def remove_file_def remove_dir_def remove_dir_all_def
  by (intro io_rules)+

section \<open>Loops that watch the clock\<close>

datatype inject_error = OutOfScope string | InjIo io_error

fun inject_error_text :: "inject_error \<Rightarrow> string" where
  "inject_error_text (OutOfScope p) = ''path out of canary scope: '' @ p"
| "inject_error_text (InjIo e) = ''io error: '' @ io_text e"

definition LEASE :: nat where
  "LEASE = 3000"

text \<open>Why a worker stops at an instant, for a deadline in milliseconds.\<close>

definition stop_reason :: "nat \<Rightarrow> instant \<Rightarrow> string option" where
  "stop_reason timeout i =
     (if it_cancelled i then Some ''CANCELLED''
      else if it_elapsed i \<ge> timeout then Some ''TIMED_OUT''
      else if it_lease i \<ge> LEASE then Some ''CONTROL_LOST''
      else None)"

text \<open>The worker's \<open>check\<close>: it sleeps while the CPU budget asks for a pause, and watches meanwhile.\<close>

partial_function (option) check_loop :: "nat \<Rightarrow> ('n, inject_error, unit) io" where
  "check_loop timeout w =
     (let i = wd_clock w (wd_tick w); w' = w\<lparr>wd_tick := wd_tick w + 1\<rparr> in
      case stop_reason timeout i of
        Some reason \<Rightarrow> Some (Inl (InjIo (IoOther reason)), w')
      | None \<Rightarrow>
          (case it_delay i of
             Inl e \<Rightarrow> Some (Inl (InjIo (IoOther e)), w')
           | Inr delay \<Rightarrow> if delay < 1000 then Some (Inr (), w') else check_loop timeout w'))"

text \<open>Checks until an instant (the pauses of the canary pass), and the worker's \<open>wait\<close>, which ends with a check.\<close>

partial_function (option) pause_loop :: "('n, 'e, unit) io \<Rightarrow> nat \<Rightarrow> ('n, 'e, unit) io" where
  "pause_loop check until w =
     (let i = wd_clock w (wd_tick w); w' = w\<lparr>wd_tick := wd_tick w + 1\<rparr> in
      if it_elapsed i < until
      then Option.bind (check w') (\<lambda>(r, w''). case r of Inl e \<Rightarrow> Some (Inl e, w'') | Inr _ \<Rightarrow> pause_loop check until w'')
      else Some (Inr (), w'))"

definition pause_for :: "('n, 'e, unit) io \<Rightarrow> nat \<Rightarrow> ('n, 'e, unit) io" where
  "pause_for check duration = io_then look (\<lambda>i. pause_loop check (it_elapsed i + duration))"

definition wait_for :: "('n, 'e, unit) io \<Rightarrow> nat \<Rightarrow> ('n, 'e, unit) io" where
  "wait_for check duration = io_then (pause_for check duration) (\<lambda>_. check)"

lemma stop_at_deadline: "timeout \<le> it_elapsed i \<Longrightarrow> stop_reason timeout i \<noteq> None"
  by (simp add: stop_reason_def)

lemma frame_tick: "frame d w (w\<lparr>wd_tick := wd_tick w + 1\<rparr>)"
  by (simp add: frame_def)

lemma check_loop_frame:
  assumes "check_loop timeout w = Some y"
  shows "frame d w (snd y) \<and> wd_fs (snd y) = wd_fs w"
proof (rule check_loop.raw_induct [OF _ assms])
  fix f and timeout :: nat and w :: "'a world" and y
  let ?w = "w\<lparr>wd_tick := wd_tick w + 1\<rparr>"
  assume ih: "\<And>t (v :: 'a world) y. f t v = Some y \<Longrightarrow> frame d v (snd y) \<and> wd_fs (snd y) = wd_fs v"
    and step: "(let i = wd_clock w (wd_tick w); w' = ?w
      in case stop_reason timeout i of
           None \<Rightarrow> case it_delay i of Inl e \<Rightarrow> Some (Inl (InjIo (IoOther e)), w')
             | Inr delay \<Rightarrow> if delay < 1000 then Some (Inr (), w') else f timeout w'
         | Some reason \<Rightarrow> Some (Inl (InjIo (IoOther reason)), w')) = Some y"
  from step have "snd y = ?w \<or> f timeout ?w = Some y"
    by (auto simp: Let_def split: option.splits sum.splits if_splits)
  then show "frame d w (snd y) \<and> wd_fs (snd y) = wd_fs w"
  proof
    assume "snd y = ?w"
    then show ?thesis using frame_tick [of d w] by simp
  next
    assume "f timeout ?w = Some y"
    from ih [OF this] have "frame d ?w (snd y)" "wd_fs (snd y) = wd_fs w" by simp_all
    then show ?thesis using frame_trans [OF frame_tick] by blast
  qed
qed

text \<open>Whatever relation a check, a look at the clock and composition respect, the loop respects.\<close>

lemma pause_loop_rel:
  fixes check :: "('n, 'e, unit) io"
  assumes loop: "pause_loop check until w = Some y"
    and check: "\<And>w r w'. check w = Some (r, w') \<Longrightarrow> R w w'"
    and tick: "\<And>w. R w (w\<lparr>wd_tick := wd_tick w + 1\<rparr>)"
    and trans: "\<And>a b c. R a b \<Longrightarrow> R b c \<Longrightarrow> R a c"
  shows "R w (snd y)"
proof -
  have "(\<forall>w r w'. check w = Some (r, w') \<longrightarrow> R w w') \<longrightarrow> R w (snd y)"
  proof (rule pause_loop.raw_induct [OF _ loop], intro impI)
    fix f and check :: "('n, 'e, unit) io" and until and w :: "'n world" and y
    let ?w = "w\<lparr>wd_tick := wd_tick w + 1\<rparr>"
    assume ih: "\<And>c u v y. f c u v = Some y \<Longrightarrow> (\<forall>w r w'. c w = Some (r, w') \<longrightarrow> R w w') \<longrightarrow> R v (snd y)"
      and step: "(let i = wd_clock w (wd_tick w); w' = ?w
        in if it_elapsed i < until
           then Option.bind (check w') (\<lambda>(r, w''). case r of Inl e \<Rightarrow> Some (Inl e, w'') | Inr x \<Rightarrow> f check until w'')
           else Some (Inr (), w')) = Some y"
      and k: "\<forall>w r w'. check w = Some (r, w') \<longrightarrow> R w w'"
    show "R w (snd y)"
    proof (cases "it_elapsed (wd_clock w (wd_tick w)) < until")
      case False
      with step tick [of w] show ?thesis by (auto simp: Let_def)
    next
      case True
      with step obtain c w1 where c: "check ?w = Some (c, w1)" by (auto simp: Let_def bind_eq_Some_conv)
      with k have w1: "R w w1" using trans [OF tick] by blast
      show ?thesis
      proof (cases c)
        case Inl
        with True c step w1 show ?thesis by (auto simp: Let_def)
      next
        case Inr
        with True c step have "f check until w1 = Some y" by (simp add: Let_def)
        from ih [OF this] k w1 show ?thesis by (blast intro: trans)
      qed
    qed
  qed
  with check show ?thesis by blast
qed

lemma pause_loop_keeps:
  fixes check :: "('n, 'e, unit) io"
  shows "keeps d check \<Longrightarrow> keeps d (pause_loop check until)"
proof -
  assume k: "keeps d check"
  let ?R = "\<lambda>w w'. is_dir_at (wd_fs w) d \<longrightarrow> frame d w w' \<and> is_dir_at (wd_fs w') d"
  have "?R w w'" if "pause_loop check until w = Some (r, w')" for w w' and r :: "'e + unit"
    using pause_loop_rel [where R = ?R, OF that] keeps_D [OF k] frame_tick frame_trans by fastforce
  then show ?thesis by (simp add: keeps_def)
qed

text \<open>Operations that leave the file system as it is.\<close>

definition fs_const :: "('n, 'e, 'a) io \<Rightarrow> bool" where
  "fs_const m \<longleftrightarrow> (\<forall>w r w'. m w = Some (r, w') \<longrightarrow> wd_fs w' = wd_fs w)"

lemma fs_const_D: "fs_const m \<Longrightarrow> m w = Some (r, w') \<Longrightarrow> wd_fs w' = wd_fs w"
  by (simp add: fs_const_def)

lemma fs_const_loops:
  fixes check :: "('n, 'e, unit) io"
  shows "fs_const (check_loop timeout)" and "fs_const check \<Longrightarrow> fs_const (pause_for check n)"
proof -
  show "fs_const (check_loop timeout)" using check_loop_frame [of timeout] by (force simp: fs_const_def)
  assume c: "fs_const check"
  have "wd_fs w' = wd_fs w" if "pause_loop check until w = Some (r, w')" for until w w' and r :: "'e + unit"
    using pause_loop_rel [where R = "\<lambda>w w'. wd_fs w' = wd_fs w", OF that] fs_const_D [OF c] by simp
  then show "fs_const (pause_for check n)"
    by (fastforce simp: fs_const_def pause_for_def io_then_def io_try_def look_def)
qed

text \<open>The loops return: the clock passes the deadline, or the end of the wait.\<close>

lemma check_loop_returns: "returns (check_loop timeout)"
proof -
  have "\<exists>r w'. check_loop timeout w = Some (r, w') \<and> wd_clock w' = wd_clock w \<and> wd_tick w \<le> wd_tick w'"
    if "\<forall>k \<ge> n. timeout \<le> it_elapsed (wd_clock w k)" for n and w :: "'n world"
    using that
  proof (induction "n - wd_tick w" arbitrary: w rule: less_induct)
    case less
    let ?i = "wd_clock w (wd_tick w)" and ?w = "w\<lparr>wd_tick := wd_tick w + 1\<rparr>"
    show ?case
    proof (cases "stop_reason timeout ?i = None \<and> (\<exists>d. it_delay ?i = Inr d \<and> \<not> d < 1000)")
      case False
      then show ?thesis
        by (subst check_loop.simps) (auto simp: Let_def split: option.splits sum.splits)
    next
      case True
      then have "\<not> n \<le> wd_tick w" using less.prems stop_at_deadline by blast
      then have "n - wd_tick ?w < n - wd_tick w" by simp
      from less.hyps [OF this] less.prems obtain r w' where
        "check_loop timeout ?w = Some (r, w')" "wd_clock w' = wd_clock w" "wd_tick w + 1 \<le> wd_tick w'" by auto
      with True show ?thesis by (subst check_loop.simps) (auto simp: Let_def)
    qed
  qed
  then show ?thesis unfolding returns_def live_def by blast
qed

lemma pause_loop_returns:
  fixes check :: "('n, 'e, unit) io"
  assumes "returns check"
  shows "returns (pause_loop check until)"
proof -
  have "\<exists>r w'. pause_loop check until w = Some (r, w') \<and> wd_clock w' = wd_clock w \<and> wd_tick w \<le> wd_tick w'"
    if "\<forall>k \<ge> n. until \<le> it_elapsed (wd_clock w k)" and "live w" for n and w :: "'n world"
    using that
  proof (induction "n - wd_tick w" arbitrary: w rule: less_induct)
    case less
    let ?w = "w\<lparr>wd_tick := wd_tick w + 1\<rparr>"
    show ?case
    proof (cases "it_elapsed (wd_clock w (wd_tick w)) < until")
      case False
      then show ?thesis by (subst pause_loop.simps) (auto simp: Let_def)
    next
      case True
      then have n: "\<not> n \<le> wd_tick w" using less.prems(1) not_le by blast
      have "live ?w" using less.prems(2) by (simp add: live_def)
      from returns_D [OF assms this] obtain c w1 where
        c: "check ?w = Some (c, w1)" "wd_clock w1 = wd_clock w" "wd_tick w + 1 \<le> wd_tick w1" by auto
      show ?thesis
      proof (cases c)
        case Inl
        with True c show ?thesis by (subst pause_loop.simps) (auto simp: Let_def)
      next
        case Inr
        have "n - wd_tick w1 < n - wd_tick w" using c n by simp
        moreover have "live w1" using less.prems(2) live_cong [OF c(2)] by blast
        ultimately obtain r w' where
          "pause_loop check until w1 = Some (r, w')" "wd_clock w' = wd_clock w1" "wd_tick w1 \<le> wd_tick w'"
          using less.hyps [of w1] less.prems(1) c(2) by auto
        with True c Inr show ?thesis by (subst pause_loop.simps) (auto simp: Let_def)
      qed
    qed
  qed
  then show ?thesis unfolding returns_def live_def by blast
qed

lemma check_rules [io_rules]: "keeps d (check_loop timeout)" "spares d (check_loop timeout)" "returns (check_loop timeout)"
  using check_loop_frame [of timeout] check_loop_returns by (force simp: keeps_def spares_def)+

lemma pause_rules [io_rules]:
  "keeps d check \<Longrightarrow> keeps d (pause_loop check until)" "returns check \<Longrightarrow> returns (pause_loop check until)"
  by (rule pause_loop_keeps pause_loop_returns; assumption)+

lemma wait_rules [io_rules]:
  "keeps d check \<Longrightarrow> keeps d (pause_for check n)" "returns check \<Longrightarrow> returns (pause_for check n)"
  "keeps d check \<Longrightarrow> keeps d (wait_for check n)" "returns check \<Longrightarrow> returns (wait_for check n)"
  unfolding pause_for_def wait_for_def by (intro io_rules; assumption)+

end
