(* ===== verification/Netchaos.thy ===== *)
theory Netchaos
  imports Runner_World
begin

text \<open>
  \<open>crates/asmodeus-runner/src/netchaos.rs\<close>: the network rule, its gate, the backend interface and the
  session that installs a rule and takes it back. The trait \<open>NetChaosBackend\<close> is the locale
  \<open>chaos_backend\<close>; the simulator of the default build interprets it. The rule tokens are \<open>u64\<close> and
  come from a counter: the contract asks for room, which a run that installs one rule always has.
\<close>

definition MAX_LATENCY_MS :: nat where "MAX_LATENCY_MS = 5000"
definition MAX_JITTER_MS :: nat where "MAX_JITTER_MS = 1000"
definition MAX_LOSS_PCT :: nat where "MAX_LOSS_PCT = 50"
definition MAX_DURATION_MS :: nat where "MAX_DURATION_MS = 120000"

definition IFACE_MARKERS :: "string list" where
  "IFACE_MARKERS = [''test'', ''chaos'', ''veth'', ''dummy'']"

record chaos_spec =
  nc_iface :: string
  nc_target_cidr :: string
  nc_latency_ms :: nat
  nc_jitter_ms :: nat
  nc_loss_pct :: nat
  nc_duration_ms :: nat

definition latency_spike_demo :: chaos_spec where
  "latency_spike_demo = \<lparr>nc_iface = ''lo'', nc_target_cidr = ''127.0.0.1/32'', nc_latency_ms = 2500,
     nc_jitter_ms = 250, nc_loss_pct = 25, nc_duration_ms = 5000\<rparr>"

datatype chaos_error = ChaosOutOfScope string | IfaceOutOfScope string | BudgetExceeded string | BackendError string

fun chaos_error_text :: "chaos_error \<Rightarrow> string" where
  "chaos_error_text (ChaosOutOfScope c) = ''target out of net scope (not a test block): '' @ c"
| "chaos_error_text (IfaceOutOfScope i) = ''interface out of scope: '' @ i"
| "chaos_error_text (BudgetExceeded d) = ''resource budget exceeded: '' @ d"
| "chaos_error_text (BackendError e) = ''netchaos backend error: '' @ e"

definition is_ascii_digit :: "char \<Rightarrow> bool" where
  "is_ascii_digit c \<longleftrightarrow> 48 \<le> byte c \<and> byte c \<le> 57"

definition iface_in_scope :: "string \<Rightarrow> bool" where
  "iface_in_scope iface \<longleftrightarrow>
     \<not> (iface = [] \<or> length iface > 15)
     \<and> ((iface = ''lo'' \<or> (starts_with iface ''lo'' \<and> drop 2 iface \<noteq> [] \<and> list_all is_ascii_digit (drop 2 iface)))
        \<or> list_ex (str_contains iface) IFACE_MARKERS)"

definition over_budget :: "string \<Rightarrow> nat \<Rightarrow> nat \<Rightarrow> chaos_error + unit" where
  "over_budget field value bound =
     reject_if (value > bound) (BudgetExceeded (field @ ''='' @ show_nat value @ '' (max '' @ show_nat bound @ '')''))"

definition chaos_validate :: "chaos_spec \<Rightarrow> chaos_error + unit" where
  "chaos_validate s =
     and_then (reject_if (\<not> net_target_in_scope (nc_target_cidr s)) (ChaosOutOfScope (nc_target_cidr s))) (\<lambda>_.
     and_then (reject_if (\<not> iface_in_scope (nc_iface s)) (IfaceOutOfScope (nc_iface s))) (\<lambda>_.
     and_then (over_budget ''latency_ms'' (nc_latency_ms s) MAX_LATENCY_MS) (\<lambda>_.
     and_then (over_budget ''jitter_ms'' (nc_jitter_ms s) MAX_JITTER_MS) (\<lambda>_.
     and_then (over_budget ''loss_pct'' (nc_loss_pct s) MAX_LOSS_PCT) (\<lambda>_.
     reject_if (nc_duration_ms s = 0 \<or> nc_duration_ms s > MAX_DURATION_MS)
       (BudgetExceeded (''duration_ms='' @ show_nat (nc_duration_ms s) @ '' (allowed 1..='' @ show_nat MAX_DURATION_MS @ '')'')))))))"

record rule_handle =
  rh_iface :: string
  rh_target_cidr :: string
  rh_token :: nat

text \<open>A backend: its operations on its own state, and its name.\<close>

record 'n chaos_backend =
  bk_apply :: "chaos_spec \<Rightarrow> 'n \<Rightarrow> (chaos_error + rule_handle) \<times> 'n"
  bk_revert :: "rule_handle \<Rightarrow> 'n \<Rightarrow> (chaos_error + unit) \<times> 'n"
  bk_name :: string

text \<open>The session: validate, then install; a session holds the handle until it is reverted.\<close>

definition session_start :: "'n chaos_backend \<Rightarrow> chaos_spec \<Rightarrow> 'n \<Rightarrow> (chaos_error + rule_handle option) \<times> 'n" where
  "session_start bk spec n =
     (case chaos_validate spec of
        Inl e \<Rightarrow> (Inl e, n)
      | Inr _ \<Rightarrow> (case bk_apply bk spec n of (Inl e, n') \<Rightarrow> (Inl e, n') | (Inr h, n') \<Rightarrow> (Inr (Some h), n')))"

text \<open>\<open>revert\<close> takes the handle out of the session before it calls the backend; \<open>Drop\<close> ignores the result.\<close>

definition session_revert ::
  "'n chaos_backend \<Rightarrow> rule_handle option \<Rightarrow> 'n \<Rightarrow> (chaos_error + unit) \<times> rule_handle option \<times> 'n" where
  "session_revert bk session n =
     (case session of
        None \<Rightarrow> (Inr (), None, n)
      | Some h \<Rightarrow> (case bk_revert bk h n of (r, n') \<Rightarrow> (r, None, n')))"

definition session_drop :: "'n chaos_backend \<Rightarrow> rule_handle option \<Rightarrow> 'n \<Rightarrow> 'n" where
  "session_drop bk session n = snd (snd (session_revert bk session n))"

section \<open>The contract of a backend\<close>

locale chaos_backend =
  fixes bk :: "'n chaos_backend"
    and rules :: "'n \<Rightarrow> rule_handle list"
    and room :: "'n \<Rightarrow> bool"
    and inv :: "'n \<Rightarrow> bool"
  assumes apply_err: "bk_apply bk s n = (Inl e, n') \<Longrightarrow> rules n' = rules n"
    and apply_ok: "inv n \<Longrightarrow> room n \<Longrightarrow> bk_apply bk s n = (Inr h, n') \<Longrightarrow>
        inv n' \<and> h \<notin> set (rules n) \<and> rules n' = rules n @ [h]
        \<and> rh_iface h = nc_iface s \<and> rh_target_cidr h = nc_target_cidr s"
    and revert_ok: "inv n \<Longrightarrow> h \<in> set (rules n) \<Longrightarrow>
        \<exists>n'. bk_revert bk h n = (Inr (), n') \<and> inv n' \<and> rules n' = filter (\<lambda>h'. h' \<noteq> h) (rules n)"
begin

lemma start_refused: "session_start bk s n = (Inl e, n') \<Longrightarrow> rules n' = rules n"
  by (auto simp: session_start_def apply_err split: sum.splits prod.splits)

lemma start_session:
  assumes "session_start bk s n = (Inr sess, n')" and "inv n" and "room n"
  shows "\<exists>h. sess = Some h \<and> chaos_validate s = Inr () \<and> inv n' \<and> rules n' = rules n @ [h] \<and> h \<notin> set (rules n)
    \<and> rh_iface h = nc_iface s \<and> rh_target_cidr h = nc_target_cidr s"
  using assms(1) apply_ok [OF assms(2,3)]
  by (auto simp: session_start_def split: sum.splits prod.splits)

lemma revert_session:
  assumes "session_start bk s n = (Inr sess, n')" and "inv n" and "room n"
  shows "\<exists>n''. session_revert bk sess n' = (Inr (), None, n'') \<and> inv n'' \<and> rules n'' = rules n"
proof -
  from start_session [OF assms] obtain h where h: "sess = Some h" "inv n'" "rules n' = rules n @ [h]" "h \<notin> set (rules n)"
    by blast
  then obtain n'' where "bk_revert bk h n' = (Inr (), n'')" "inv n''" "rules n'' = filter (\<lambda>h'. h' \<noteq> h) (rules n')"
    using revert_ok [of n' h] by auto
  moreover have "filter (\<lambda>h'. h' \<noteq> h) (rules n @ [h]) = rules n"
    using h(4) by (auto intro: filter_True)
  ultimately show ?thesis using h by (simp add: session_revert_def)
qed

lemma drop_session:
  assumes "session_start bk s n = (Inr sess, n')" and "inv n" and "room n"
  shows "rules (session_drop bk sess n') = rules n"
  using revert_session [OF assms] by (auto simp: session_drop_def)

end

section \<open>The simulator\<close>

record sim_backend =
  sb_installed :: "rule_handle list"
  sb_next_token :: nat

definition sim_new :: sim_backend where
  "sim_new = \<lparr>sb_installed = [], sb_next_token = 0\<rparr>"

definition sim_apply :: "chaos_spec \<Rightarrow> sim_backend \<Rightarrow> (chaos_error + rule_handle) \<times> sim_backend" where
  "sim_apply spec b =
     (let token = sb_next_token b;
          handle = \<lparr>rh_iface = nc_iface spec, rh_target_cidr = nc_target_cidr spec, rh_token = token\<rparr>
      in (Inr handle, b\<lparr>sb_next_token := (token + 1) mod 2 ^ 64, sb_installed := sb_installed b @ [handle]\<rparr>))"

definition sim_revert :: "rule_handle \<Rightarrow> sim_backend \<Rightarrow> (chaos_error + unit) \<times> sim_backend" where
  "sim_revert handle b =
     (let rules = filter (\<lambda>r. rh_token r \<noteq> rh_token handle) (sb_installed b) in
      if length rules = length (sb_installed b)
      then (Inl (BackendError (''no such rule token='' @ show_nat (rh_token handle))), b\<lparr>sb_installed := rules\<rparr>)
      else (Inr (), b\<lparr>sb_installed := rules\<rparr>))"

definition sim :: "sim_backend chaos_backend" where
  "sim = \<lparr>bk_apply = sim_apply, bk_revert = sim_revert, bk_name = ''sim''\<rparr>"

definition sim_room :: "sim_backend \<Rightarrow> bool" where
  "sim_room b \<longleftrightarrow> sb_next_token b + 1 < 2 ^ 64"

definition sim_inv :: "sim_backend \<Rightarrow> bool" where
  "sim_inv b \<longleftrightarrow> distinct (map rh_token (sb_installed b)) \<and> (\<forall>h \<in> set (sb_installed b). rh_token h < sb_next_token b)"

lemma sim_new_ok: "sim_inv sim_new" "sim_room sim_new"
  by (simp_all add: sim_inv_def sim_room_def sim_new_def)

lemma same_token:
  "sim_inv b \<Longrightarrow> h \<in> set (sb_installed b) \<Longrightarrow>
    filter (\<lambda>r. rh_token r \<noteq> rh_token h) (sb_installed b) = filter (\<lambda>r. r \<noteq> h) (sb_installed b)"
  by (rule filter_cong [OF refl]) (metis distinct_map inj_onD sim_inv_def)

interpretation sim_chaos: chaos_backend sim sb_installed sim_room sim_inv
proof unfold_locales
  fix s and n n' :: sim_backend and e
  assume "bk_apply sim s n = (Inl e, n')"
  then show "sb_installed n' = sb_installed n" by (simp add: sim_def sim_apply_def Let_def)
next
  fix s and n n' :: sim_backend and h
  assume "sim_inv n" "sim_room n" "bk_apply sim s n = (Inr h, n')"
  then show "sim_inv n' \<and> h \<notin> set (sb_installed n) \<and> sb_installed n' = sb_installed n @ [h]
      \<and> rh_iface h = nc_iface s \<and> rh_target_cidr h = nc_target_cidr s"
    by (fastforce simp: sim_def sim_apply_def sim_inv_def sim_room_def Let_def less_Suc_eq)
next
  fix n h
  assume n: "sim_inv n" "h \<in> set (sb_installed n)"
  then have "length (filter (\<lambda>r. rh_token r \<noteq> rh_token h) (sb_installed n)) < length (sb_installed n)"
    by (intro length_filter_less) auto
  with n same_token [OF n] show "\<exists>n'. bk_revert sim h n = (Inr (), n') \<and> sim_inv n'
      \<and> sb_installed n' = filter (\<lambda>h'. h' \<noteq> h) (sb_installed n)"
    by (auto simp: sim_def sim_revert_def sim_inv_def Let_def distinct_map_filter)
qed

text \<open>
  C22: Network chaos stays inside its envelope and leaves nothing behind: a session starts only for a
  test interface, a target inside the reserved test blocks and values within every budget, it installs
  exactly one rule, for that interface and target, and reverting it succeeds and restores the rules as
  they were, as dropping it does. A refused session installs nothing.
\<close>
theorem chaos_session_safe:
  assumes "sim_inv b" and "sim_room b" and "session_start sim spec b = (r, b')"
  shows "case r of
      Inl _ \<Rightarrow> sb_installed b' = sb_installed b
    | Inr sess \<Rightarrow> (\<exists>h. sess = Some h \<and> sb_installed b' = sb_installed b @ [h]
          \<and> net_target_in_scope (rh_target_cidr h) \<and> iface_in_scope (rh_iface h)
          \<and> nc_latency_ms spec \<le> 5000 \<and> nc_jitter_ms spec \<le> 1000 \<and> nc_loss_pct spec \<le> 50
          \<and> 1 \<le> nc_duration_ms spec \<and> nc_duration_ms spec \<le> 120000)
        \<and> (\<exists>b''. session_revert sim sess b' = (Inr (), None, b'') \<and> sb_installed b'' = sb_installed b)
        \<and> sb_installed (session_drop sim sess b') = sb_installed b"
proof (cases r)
  case (Inl e)
  with assms sim_chaos.start_refused show ?thesis by simp
next
  case (Inr sess)
  with assms have s: "session_start sim spec b = (Inr sess, b')" by simp
  from sim_chaos.start_session [OF s assms(1,2)] sim_chaos.revert_session [OF s assms(1,2)]
    sim_chaos.drop_session [OF s assms(1,2)] Inr
  show ?thesis
    by (auto simp: chaos_validate_def over_budget_def MAX_LATENCY_MS_def MAX_JITTER_MS_def MAX_LOSS_PCT_def
        MAX_DURATION_MS_def not_less)
qed

lemma demo_starts: "\<exists>b'. session_start sim latency_spike_demo sim_new = (Inr (Some \<lparr>rh_iface = ''lo'', rh_target_cidr = ''127.0.0.1/32'', rh_token = 0\<rparr>), b')"
proof -
  have "net_target_in_scope ''127.0.0.1/32''"
    by (simp add: net_target_in_scope_def parse_ipv4_cidr_def from_str_radix_def to_digit_def byte_def
        prefix_mask_def from_be_bytes_def NET_TEST_BLOCKS_def push_bit_eq_mult)
  then have "chaos_validate latency_spike_demo = Inr ()"
    by (simp add: chaos_validate_def over_budget_def latency_spike_demo_def iface_in_scope_def MAX_LATENCY_MS_def
        MAX_JITTER_MS_def MAX_LOSS_PCT_def MAX_DURATION_MS_def)
  then show ?thesis
    by (simp add: session_start_def sim_def sim_apply_def sim_new_def Let_def latency_spike_demo_def)
qed

theorem chaos_session_safe_witness:
  "\<exists>sess b'. session_start sim latency_spike_demo sim_new = (Inr sess, b') \<and> sb_installed (session_drop sim sess b') = []"
proof -
  from demo_starts obtain sess b' where s: "session_start sim latency_spike_demo sim_new = (Inr sess, b')" by blast
  from chaos_session_safe [OF sim_new_ok s] s show ?thesis by (auto simp: sim_new_def)
qed

end
