(* ===== verification/Injectors.thy ===== *)
theory Injectors
  imports Netchaos
begin

text \<open>
  \<open>crates/asmodeus-runner/src/canary.rs\<close> and \<open>injectors.rs\<close>: the reversible XOR pass over decoy files
  and the marker injectors, as operations on the runner's world. The trait \<open>ScenarioInjector\<close> is the
  locale \<open>scenario_injector\<close>: an injection and its clean-up touch the injector's own directory only, and
  return. Its interpretation covers every injector the factory makes.
\<close>

section \<open>The canary injector\<close>

definition XOR_KEY :: nat where
  "XOR_KEY = 165"

definition xor_pass :: "string \<Rightarrow> string" where
  "xor_pass data = map (\<lambda>c. chr (Bit_Operations.xor (byte c) XOR_KEY)) data"

record report =
  rp_files_created :: nat
  rp_bytes_written :: nat

text \<open>\<open>format!("canary_{i:03}.docx")\<close>\<close>

definition canary_name :: "nat \<Rightarrow> string" where
  "canary_name i = ''canary_'' @ replicate (3 - length (show_nat i)) (CHR ''0'') @ show_nat i @ ''.docx''"

text \<open>A constructor refuses a directory outside the sandbox before anything is created.\<close>

definition scoped_dir :: "string \<Rightarrow> inject_error + fpath" where
  "scoped_dir target = (if path_in_scope target then Inr (resolve_path target) else Inl (OutOfScope target))"

definition io_op :: "('n, io_error, 'a) io \<Rightarrow> ('n, inject_error, 'a) io" where
  "io_op = io_map_err InjIo"

text \<open>One decoy: written in clear, read back, passed through the XOR stream, written again; then the pause.\<close>

definition canary_file ::
  "('n, inject_error, unit) io \<Rightarrow> nat \<Rightarrow> fpath \<Rightarrow> string \<Rightarrow> nat \<Rightarrow> nat \<Rightarrow> ('n, inject_error, nat) io" where
  "canary_file check interval_ms dir chunk written i =
     io_then check (\<lambda>_.
     let path = dir @ [canary_name i] in
     io_then (io_op (create_file path)) (\<lambda>_.
     io_then (io_op (append_file path chunk)) (\<lambda>_.
     let written = written + length chunk in
     io_then (io_op (read_file path)) (\<lambda>data.
     let data = xor_pass data in
     io_then (io_op (write_file path data)) (\<lambda>_.
     let written = written + length data in
     io_then (pause_for check interval_ms) (\<lambda>_. io_ret written))))))"

fun canary_files ::
  "('n, inject_error, unit) io \<Rightarrow> nat \<Rightarrow> fpath \<Rightarrow> string \<Rightarrow> nat \<Rightarrow> nat list \<Rightarrow> ('n, inject_error, nat) io" where
  "canary_files check interval_ms dir chunk written [] = io_ret written"
| "canary_files check interval_ms dir chunk written (i # is) =
     io_then (canary_file check interval_ms dir chunk written i)
       (\<lambda>written. canary_files check interval_ms dir chunk written is)"

definition inject_checked ::
  "fpath \<Rightarrow> nat \<Rightarrow> nat \<Rightarrow> ('n, inject_error, unit) io \<Rightarrow> nat \<Rightarrow> ('n, inject_error, report) io" where
  "inject_checked dir file_count chunk_size_kb check interval_ms =
     io_then check (\<lambda>_.
     io_then (io_op (create_dir_all dir)) (\<lambda>_.
     let chunk = replicate (chunk_size_kb * 1024) (CHR ''C'') in
     io_then (canary_files check interval_ms dir chunk 0 [0..<file_count]) (\<lambda>written.
     io_ret \<lparr>rp_files_created = file_count, rp_bytes_written = written\<rparr>)))"

definition canary_cleanup :: "fpath \<Rightarrow> ('n, inject_error, unit) io" where
  "canary_cleanup dir =
     io_then (path_exists dir) (\<lambda>present. if present then io_op (remove_dir_all dir) else io_ret ())"

section \<open>The marker injectors\<close>

definition remove_file_idempotent :: "fpath \<Rightarrow> ('n, inject_error, unit) io" where
  "remove_file_idempotent p =
     io_try (remove_file p) (\<lambda>r. case r of
         Inl e \<Rightarrow> (case e of IoNotFound _ \<Rightarrow> io_ret () | IoExists _ \<Rightarrow> io_fail (InjIo e) | IoOther _ \<Rightarrow> io_fail (InjIo e))
       | Inr _ \<Rightarrow> io_ret ())"

definition file_len :: "fpath \<Rightarrow> ('n, io_error, nat) io" where
  "file_len p = io_then (read_file p) (\<lambda>d. io_ret (length d))"

fun remove_files :: "fpath list \<Rightarrow> ('n, inject_error, unit) io" where
  "remove_files [] = io_ret ()"
| "remove_files (p # ps) = io_then (remove_file_idempotent p) (\<lambda>_. remove_files ps)"

text \<open>The clean-up of a marker injector: its files, then its directory if that is empty.\<close>

definition marker_cleanup :: "fpath \<Rightarrow> string list \<Rightarrow> ('n, inject_error, unit) io" where
  "marker_cleanup dir names =
     io_then (path_exists dir) (\<lambda>present.
     if present
     then io_then (remove_files (map (\<lambda>f. dir @ [f]) names)) (\<lambda>_. io_try (remove_dir dir) (\<lambda>_. io_ret ()))
     else io_ret ())"

definition K8S_SOCKET_PROBE :: string where
  "K8S_SOCKET_PROBE = ''CANARY_K8S_ESCAPE_SOCKET_PROBE: namespace=ferrum-canary pid=1001'' @ [LF]"

definition K8S_NS_PROBE :: string where
  "K8S_NS_PROBE = ''CANARY_HOST_PATH_PROBE: simulated /proc/1/ns/mnt escape check'' @ [LF]"

definition beacon_entry :: "nat \<Rightarrow> string" where
  "beacon_entry i = ''T1071_BEACON_EVENT seq='' @ show_nat i
     @ '' target=beacon-test.c2-emulation.internal:443 proto=HTTPS jitter_ms=25 status=SINKHOLED'' @ [LF]"

definition HONEYTOKEN :: string where
  \<open>HONEYTOKEN = ''{'' @ [LF]
     @ ''  "type": "HONEYTOKEN_CANARY",'' @ [LF]
     @ ''  "account": "svc_asmodeus_decoy",'' @ [LF]
     @ ''  "access_key": "AKIA_CANARY_TEST_DO_NOT_USE_12345",'' @ [LF]
     @ ''  "warning": "Synthetic trap for detecting unauthorized credential dumping"'' @ [LF]
     @ ''}'' @ [LF]\<close>

definition AUDIT_CANARY :: string where
  "AUDIT_CANARY = ''AUDIT_CANARY entry=1 user=admin action=login'' @ [LF]
     @ ''AUDIT_CANARY entry=2 user=admin action=modify_policy'' @ [LF]"

definition TAMPERED_LOG :: string where
  "TAMPERED_LOG = ''[TAMPERED / TRUNCATED CANARY LOG]'' @ [LF]"

definition CRON_CANARY :: string where
  "CRON_CANARY = ''# Asmodeus Synthetic Persistence Canary Task'' @ [LF]
     @ ''* * * * * root /bin/true # SYNTHETIC_CANARY_PROBE'' @ [LF]"

definition WATCHDOG_MARKER :: string where
  "WATCHDOG_MARKER = ''WATCHDOG_SIMULATED_INTERRUPT: target=lariska_agent recovery_window=5000ms'' @ [LF]"

datatype injector =
    CanaryInjector fpath nat nat
  | K8sEscapeInjector fpath
  | C2BeaconInjector fpath nat
  | CredentialAccessInjector fpath
  | LogTamperInjector fpath
  | PersistenceCronInjector fpath
  | DataExfiltrationInjector fpath nat
  | DefenseImpairmentInjector fpath
  | NetChaosInjector fpath chaos_spec

definition clamp :: "nat \<Rightarrow> nat \<Rightarrow> nat \<Rightarrow> nat" where
  "clamp lo hi n = max lo (min hi n)"

text \<open>Write one marker file and report it with the given size.\<close>

definition write_marker :: "fpath \<Rightarrow> string \<Rightarrow> nat \<Rightarrow> ('n, inject_error, report) io" where
  "write_marker p data sz =
     io_then (io_op (write_file p data)) (\<lambda>_. io_ret \<lparr>rp_files_created = 1, rp_bytes_written = sz\<rparr>)"

definition k8s_inject :: "fpath \<Rightarrow> ('n, inject_error, report) io" where
  "k8s_inject dir =
     (let probe_socket = dir @ [''docker.sock.probe'']; probe_ns = dir @ [''k8s_ns_escape.canary''] in
      io_then (io_op (write_file probe_socket K8S_SOCKET_PROBE)) (\<lambda>_.
      io_then (io_op (write_file probe_ns K8S_NS_PROBE)) (\<lambda>_.
      io_then (io_op (file_len probe_socket)) (\<lambda>a.
      io_then (io_op (file_len probe_ns)) (\<lambda>b.
      io_ret \<lparr>rp_files_created = 2, rp_bytes_written = a + b\<rparr>)))))"

fun beacon_entries :: "fpath \<Rightarrow> nat \<Rightarrow> nat list \<Rightarrow> ('n, inject_error, nat) io" where
  "beacon_entries p bytes [] = io_ret bytes"
| "beacon_entries p bytes (i # is) =
     io_then (io_op (append_file p (beacon_entry i))) (\<lambda>_. beacon_entries p (bytes + length (beacon_entry i)) is)"

definition beacon_inject :: "fpath \<Rightarrow> nat \<Rightarrow> ('n, inject_error, report) io" where
  "beacon_inject dir beacon_count =
     (let beacon_log = dir @ [''c2_beacon_events.log''] in
      io_then (io_op (create_file beacon_log)) (\<lambda>_.
      io_then (beacon_entries beacon_log 0 [0..<beacon_count]) (\<lambda>bytes.
      io_ret \<lparr>rp_files_created = 1, rp_bytes_written = bytes\<rparr>)))"

definition credential_inject :: "fpath \<Rightarrow> ('n, inject_error, report) io" where
  "credential_inject dir =
     (let honeytoken = dir @ [''honeytoken_credentials.json''] in
      io_then (io_op (write_file honeytoken HONEYTOKEN)) (\<lambda>_.
      io_then (io_op (read_file honeytoken)) (\<lambda>_.
      io_ret \<lparr>rp_files_created = 1, rp_bytes_written = length HONEYTOKEN\<rparr>)))"

definition log_tamper_inject :: "fpath \<Rightarrow> ('n, inject_error, report) io" where
  "log_tamper_inject dir =
     (let audit_log = dir @ [''canary_audit.log''] in
      io_then (io_op (write_file audit_log AUDIT_CANARY)) (\<lambda>_.
      write_marker audit_log TAMPERED_LOG (length AUDIT_CANARY + 35)))"

definition exfiltration_inject :: "fpath \<Rightarrow> nat \<Rightarrow> ('n, inject_error, report) io" where
  "exfiltration_inject dir chunk_kb =
     (let exfil_file = dir @ [''staged_canary_data.tar.gz''] in
      io_then (io_op (create_file exfil_file)) (\<lambda>_.
      io_then (io_op (append_file exfil_file (replicate (chunk_kb * 1024) (chr 238)))) (\<lambda>_.
      io_ret \<lparr>rp_files_created = 1, rp_bytes_written = chunk_kb * 1024\<rparr>)))"

definition persistence_inject :: "fpath \<Rightarrow> ('n, inject_error, report) io" where
  "persistence_inject dir = write_marker (dir @ [''canary_cron_task.job'']) CRON_CANARY (length CRON_CANARY)"

definition impairment_inject :: "fpath \<Rightarrow> ('n, inject_error, report) io" where
  "impairment_inject dir = write_marker (dir @ [''watchdog_recovery.pulse'']) WATCHDOG_MARKER (length WATCHDOG_MARKER)"

text \<open>The network injector's session ends with the injection: it is dropped, and its rule reverted.\<close>

definition chaos_io :: "('n \<Rightarrow> (chaos_error + 'a) \<times> 'n) \<Rightarrow> ('n, inject_error, 'a) io" where
  "chaos_io act = io_map_err (\<lambda>e. InjIo (IoOther (chaos_error_text e))) (io_net act)"

definition netchaos_inject :: "'n chaos_backend \<Rightarrow> fpath \<Rightarrow> chaos_spec \<Rightarrow> ('n, inject_error, report) io" where
  "netchaos_inject bk dir spec =
     io_then (chaos_io (session_start bk spec)) (\<lambda>session.
     let token = (case session of Some h \<Rightarrow> rh_token h | None \<Rightarrow> 0) in
     io_try (io_op (write_file (dir @ [''netchaos_session.token'']) (''token='' @ show_nat token))) (\<lambda>r.
     io_then (io_net (\<lambda>n. (Inr (), session_drop bk session n))) (\<lambda>_.
     case r of Inl e \<Rightarrow> io_fail e | Inr _ \<Rightarrow> io_ret \<lparr>rp_files_created = 1, rp_bytes_written = 16\<rparr>)))"

fun inj_dir :: "injector \<Rightarrow> fpath" where
  "inj_dir (CanaryInjector dir _ _) = dir"
| "inj_dir (K8sEscapeInjector dir) = dir"
| "inj_dir (C2BeaconInjector dir _) = dir"
| "inj_dir (CredentialAccessInjector dir) = dir"
| "inj_dir (LogTamperInjector dir) = dir"
| "inj_dir (PersistenceCronInjector dir) = dir"
| "inj_dir (DataExfiltrationInjector dir _) = dir"
| "inj_dir (DefenseImpairmentInjector dir) = dir"
| "inj_dir (NetChaosInjector dir _) = dir"

fun inj_marks :: "injector \<Rightarrow> string list" where
  "inj_marks (K8sEscapeInjector _) = [''docker.sock.probe'', ''k8s_ns_escape.canary'']"
| "inj_marks (C2BeaconInjector _ _) = [''c2_beacon_events.log'']"
| "inj_marks (CredentialAccessInjector _) = [''honeytoken_credentials.json'']"
| "inj_marks (LogTamperInjector _) = [''canary_audit.log'']"
| "inj_marks (PersistenceCronInjector _) = [''canary_cron_task.job'']"
| "inj_marks (DataExfiltrationInjector _ _) = [''staged_canary_data.tar.gz'']"
| "inj_marks (DefenseImpairmentInjector _) = [''watchdog_recovery.pulse'']"
| "inj_marks (NetChaosInjector _ _) = [''netchaos_session.token'']"
| "inj_marks (CanaryInjector _ _ _) = []"

definition inject_body :: "'n chaos_backend \<Rightarrow> injector \<Rightarrow> ('n, inject_error, report) io" where
  "inject_body bk ij =
     (case ij of
        CanaryInjector dir n kb \<Rightarrow> inject_checked dir n kb (io_ret ()) 0
      | K8sEscapeInjector dir \<Rightarrow> k8s_inject dir
      | C2BeaconInjector dir n \<Rightarrow> beacon_inject dir n
      | CredentialAccessInjector dir \<Rightarrow> credential_inject dir
      | LogTamperInjector dir \<Rightarrow> log_tamper_inject dir
      | PersistenceCronInjector dir \<Rightarrow> persistence_inject dir
      | DataExfiltrationInjector dir kb \<Rightarrow> exfiltration_inject dir kb
      | DefenseImpairmentInjector dir \<Rightarrow> impairment_inject dir
      | NetChaosInjector dir spec \<Rightarrow> netchaos_inject bk dir spec)"

definition inject :: "'n chaos_backend \<Rightarrow> injector \<Rightarrow> ('n, inject_error, report) io" where
  "inject bk ij = io_then (io_op (create_dir_all (inj_dir ij))) (\<lambda>_. inject_body bk ij)"

definition inj_cleanup :: "injector \<Rightarrow> ('n, inject_error, unit) io" where
  "inj_cleanup ij = (case ij of CanaryInjector dir _ _ \<Rightarrow> canary_cleanup dir
     | _ \<Rightarrow> marker_cleanup (inj_dir ij) (inj_marks ij))"

text \<open>The factory.\<close>

definition dns_outage_spec :: chaos_spec where
  "dns_outage_spec = \<lparr>nc_iface = ''lo'', nc_target_cidr = ''127.0.0.1/32'', nc_latency_ms = 100,
     nc_jitter_ms = 20, nc_loss_pct = 50, nc_duration_ms = 5000\<rparr>"

definition create_injector :: "string \<Rightarrow> string \<Rightarrow> nat \<Rightarrow> nat \<Rightarrow> inject_error + injector" where
  "create_injector scenario_id target_dir file_count chunk_size_kb =
     (let dir_then = (\<lambda>k. and_then (scoped_dir target_dir) (\<lambda>d. Inr (k d))) in
      if scenario_id = ''RANSOMWARE_CANARY_SPIKE'' then dir_then (\<lambda>d. CanaryInjector d file_count chunk_size_kb)
      else if scenario_id = ''K8S_ESCAPE_SIMULATION'' then dir_then K8sEscapeInjector
      else if scenario_id = ''C2_BEACONING_SIMULATION'' then dir_then (\<lambda>d. C2BeaconInjector d (clamp 1 100 file_count))
      else if scenario_id = ''CREDENTIAL_ACCESS_CANARY'' then dir_then CredentialAccessInjector
      else if scenario_id = ''LOG_TAMPER_CANARY'' then dir_then LogTamperInjector
      else if scenario_id = ''PERSISTENCE_CRON_CANARY'' then dir_then PersistenceCronInjector
      else if scenario_id = ''DATA_EXFILTRATION_CANARY'' then dir_then (\<lambda>d. DataExfiltrationInjector d (clamp 1 1024 chunk_size_kb))
      else if scenario_id = ''DEFENSE_IMPAIRMENT_CANARY'' then dir_then DefenseImpairmentInjector
      else if scenario_id = ''LATENCY_SPIKE_VM'' then dir_then (\<lambda>d. NetChaosInjector d latency_spike_demo)
      else if scenario_id = ''AGENT_CRASH_ENDPOINT'' then dir_then DefenseImpairmentInjector
      else if scenario_id = ''DNS_RPZ_SINKHOLE_DROP'' then dir_then (\<lambda>d. NetChaosInjector d dns_outage_spec)
      else Inl (InjIo (IoOther ''unsupported scenario/action'')))"

section \<open>The contract of an injector\<close>

text \<open>An injection, what happens before its clean-up, and the clean-up.\<close>

definition injector_cycle ::
  "('n, inject_error, report) io \<Rightarrow> ('n, inject_error, unit) io \<Rightarrow> ('n, inject_error, unit) io
     \<Rightarrow> ('n, inject_error, string option \<times> (inject_error + report) \<times> (inject_error + unit)) io" where
  "injector_cycle run wait clean =
     io_try run (\<lambda>injected.
     io_try (case injected of Inr _ \<Rightarrow> wait | Inl _ \<Rightarrow> io_ret ()) (\<lambda>waited.
     io_try clean (\<lambda>c.
     io_ret ((case c of Inl e \<Rightarrow> Some (inject_error_text e) | Inr _ \<Rightarrow> None), injected, waited))))"

locale scenario_injector =
  fixes run :: "'i \<Rightarrow> ('n, inject_error, report) io"
    and clean :: "'i \<Rightarrow> ('n, inject_error, unit) io"
    and dir :: "'i \<Rightarrow> fpath"
  assumes run_keeps: "keeps (dir i) (run i)"
    and run_returns: "returns (run i)"
    and clean_spares: "spares (dir i) (clean i)"
    and clean_returns: "returns (clean i)"
begin

lemma cycle_returns: "returns wait \<Longrightarrow> returns (injector_cycle (run i) wait (clean i))"
  unfolding injector_cycle_def by (intro io_rules run_returns clean_returns; assumption)

lemma cycle_frame:
  assumes "keeps (dir i) wait" and "injector_cycle (run i) wait (clean i) w = Some (r, w')" and "is_dir_at (wd_fs w) (dir i)"
  shows "frame (dir i) w w'"
proof -
  from assms(2) obtain x w1 where x: "run i w = Some (x, w1)"
    by (auto simp: injector_cycle_def io_defs split: option.splits prod.splits)
  note a = keeps_D [OF run_keeps x assms(3)]
  have k: "keeps (dir i) (case x of Inr _ \<Rightarrow> wait | Inl _ \<Rightarrow> io_ret ())"
    using assms(1) by (intro io_rules)
  from assms(2) x obtain y w2 where y: "(case x of Inr _ \<Rightarrow> wait | Inl _ \<Rightarrow> io_ret ()) w1 = Some (y, w2)"
    by (auto simp: injector_cycle_def io_try_def split: option.splits prod.splits)
  note b = keeps_D [OF k y conjunct2 [OF a]]
  from assms(2) x y obtain z where z: "clean i w2 = Some (z, w')"
    by (auto simp: injector_cycle_def io_try_def split: option.splits prod.splits)
  from spares_D [OF clean_spares z] a b show ?thesis by (blast intro: frame_trans)
qed

end

lemma below: "strict_prefix d (d @ [f])"
  by (simp add: strict_prefix_def)

lemma op_rules [io_rules]:
  "keeps d m \<Longrightarrow> keeps d (io_op m)" "spares d m \<Longrightarrow> spares d (io_op m)" "returns m \<Longrightarrow> returns (io_op m)"
  unfolding io_op_def by (intro io_rules; assumption)+

lemma file_len_rules [io_rules]: "keeps d (file_len p)" "returns (file_len p)"
  unfolding file_len_def by (intro io_rules)+

lemma chaos_io_rules [io_rules]: "keeps d (chaos_io act)" "returns (chaos_io act)"
  unfolding chaos_io_def by (intro io_rules)+

lemma canary_file_rules [io_rules]:
  "keeps d check \<Longrightarrow> keeps d (canary_file check ms d chunk n i)"
  "returns check \<Longrightarrow> returns (canary_file check ms d chunk n i)"
  unfolding canary_file_def Let_def by (intro io_rules below; assumption)+

lemma canary_files_rules [io_rules]:
  "keeps d check \<Longrightarrow> keeps d (canary_files check ms d chunk n is)"
  "returns check \<Longrightarrow> returns (canary_files check ms d chunk n is)"
  by (induction "is" arbitrary: n) (auto intro!: io_rules)

lemma inject_checked_rules [io_rules]:
  "keeps d check \<Longrightarrow> keeps d (inject_checked d n kb check ms)"
  "returns check \<Longrightarrow> returns (inject_checked d n kb check ms)"
  unfolding inject_checked_def Let_def by (intro io_rules; assumption)+

lemma beacon_rules [io_rules]:
  "keeps d (beacon_entries (d @ [f]) n is)" "returns (beacon_entries p n is)"
  by (induction "is" arbitrary: n) (auto intro!: io_rules below)

lemma inject_body_keeps: "keeps (inj_dir ij) (inject_body bk ij)"
  by (cases ij)
    (simp_all add: inject_body_def k8s_inject_def beacon_inject_def credential_inject_def log_tamper_inject_def
      exfiltration_inject_def netchaos_inject_def persistence_inject_def impairment_inject_def write_marker_def Let_def io_rules below)

lemma inject_body_returns: "returns (inject_body bk ij)"
  by (cases ij)
    (simp_all add: inject_body_def k8s_inject_def beacon_inject_def credential_inject_def log_tamper_inject_def
      exfiltration_inject_def netchaos_inject_def persistence_inject_def impairment_inject_def write_marker_def Let_def io_rules)

lemma inject_rules: "keeps (inj_dir ij) (inject bk ij)" "returns (inject bk ij)"
  unfolding inject_def by (intro io_rules inject_body_keeps inject_body_returns)+

lemma error_cases:
  "spares d (case e of IoNotFound _ \<Rightarrow> io_ret () | IoExists _ \<Rightarrow> io_fail x | IoOther _ \<Rightarrow> io_fail x)"
  "returns (case e of IoNotFound _ \<Rightarrow> io_ret () | IoExists _ \<Rightarrow> io_fail x | IoOther _ \<Rightarrow> io_fail x)"
  by (cases e; simp add: io_rules)+

lemma remove_idempotent_rules [io_rules]:
  "strict_prefix d p \<Longrightarrow> spares d (remove_file_idempotent p)" "returns (remove_file_idempotent p)"
  unfolding remove_file_idempotent_def by (intro io_rules error_cases; assumption)+

lemma remove_files_rules [io_rules]:
  "spares d (remove_files (map (\<lambda>f. d @ [f]) fs))" "returns (remove_files ps)"
proof -
  show "spares d (remove_files (map (\<lambda>f. d @ [f]) fs))"
  proof (induction fs)
    case (Cons f fs)
    then show ?case unfolding list.map remove_files.simps by (intro io_rules below)
  qed (simp add: spares_ret)
  show "returns (remove_files ps)"
  proof (induction ps)
    case (Cons p ps)
    then show ?case unfolding remove_files.simps by (intro io_rules)
  qed (simp add: returns_basic)
qed

lemma cleanup_rules: "spares (inj_dir ij) (inj_cleanup ij)" "returns (inj_cleanup ij)"
  by (cases ij; simp only: inj_cleanup_def canary_cleanup_def marker_cleanup_def injector.case inj_dir.simps; intro io_rules)+

interpretation injectors: scenario_injector "inject bk" inj_cleanup inj_dir for bk
  by unfold_locales (rule inject_rules cleanup_rules)+

text \<open>The factory makes an injector for a directory of the sandbox, or none.\<close>

lemma create_injector_scoped:
  assumes "create_injector sid target n kb = Inr ij"
  shows "path_in_scope target \<and> inj_dir ij = resolve_path target"
  using assms by (auto simp: create_injector_def scoped_dir_def Let_def split: if_splits)

text \<open>The wiped log holds 34 bytes; the injector's report counts 35 for it.\<close>

lemma log_tamper_report:
  assumes "log_tamper_inject dir w = Some (Inr rep, w')"
  shows "rp_bytes_written rep = length AUDIT_CANARY + length TAMPERED_LOG + 1"
  using assms by (auto simp: log_tamper_inject_def write_marker_def Let_def io_then_Inr TAMPERED_LOG_def)

section \<open>The canary pass is reversible\<close>

lemma xor_byte: "byte (chr (Bit_Operations.xor (byte c) XOR_KEY)) = Bit_Operations.xor (byte c) XOR_KEY"
proof -
  have "take_bit 8 (Bit_Operations.xor (byte c) XOR_KEY) = Bit_Operations.xor (byte c) XOR_KEY"
    using byte_less [of c] by (simp add: take_bit_xor take_bit_nat_eq_self XOR_KEY_def)
  then have "Bit_Operations.xor (byte c) XOR_KEY < 2 ^ 8" by (simp only: take_bit_nat_eq_self_iff)
  then show ?thesis by simp
qed

lemma xor_pass_involution: "xor_pass (xor_pass data) = data"
  by (induction data) (simp_all add: xor_pass_def xor_byte xor.assoc)

lemma xor_pass_length [simp]: "length (xor_pass data) = length data"
  by (simp add: xor_pass_def)

text \<open>A system call that succeeds met no fault.\<close>

lemma create_file_Inr:
  assumes "create_file p w = Some (Inr u, w')"
  shows "wd_fs w' = fs_put p (FileNode []) (wd_fs w)"
  using assms by (auto simp: create_file_def sys_call_def Let_def split: list.splits option.splits fault.splits node.splits if_splits)

lemma append_file_Inr:
  assumes "append_file p data w = Some (Inr u, w')"
  shows "\<exists>old. fs_get (wd_fs w) p = Some (FileNode old) \<and> wd_fs w' = fs_put p (FileNode (old @ data)) (wd_fs w)"
  using assms by (auto simp: append_file_def sys_call_def Let_def split: list.splits option.splits fault.splits node.splits if_splits)

lemma write_file_Inr:
  assumes "write_file p data w = Some (Inr u, w')"
  shows "fs_get (wd_fs w') p = Some (FileNode data) \<and> (\<forall>q. q \<noteq> p \<longrightarrow> fs_get (wd_fs w') q = fs_get (wd_fs w) q)"
  using assms by (auto simp: write_file_def io_then_Inr dest!: create_file_Inr append_file_Inr)

lemma read_file_Inr:
  assumes "read_file p w = Some (Inr data, w')"
  shows "fs_get (wd_fs w) p = Some (FileNode data) \<and> wd_fs w' = wd_fs w"
  using assms by (auto simp: read_file_def sys_call_def Let_def split: list.splits option.splits fault.splits node.splits if_splits)

lemma io_op_Inr: "io_op m w = Some (Inr v, w') \<longleftrightarrow> m w = Some (Inr v, w')"
  by (auto simp: io_op_def io_map_err_def io_try_def split: option.splits sum.splits)

lemma canary_file_spec:
  assumes "canary_file check ms dir chunk n i w = Some (Inr n', w')" and c: "fs_const check"
  shows "n' = n + 2 * length chunk \<and> fs_get (wd_fs w') (dir @ [canary_name i]) = Some (FileNode (xor_pass chunk))
    \<and> (\<forall>q. q \<noteq> dir @ [canary_name i] \<longrightarrow> fs_get (wd_fs w') q = fs_get (wd_fs w) q)"
proof -
  let ?p = "dir @ [canary_name i]"
  from assms(1) obtain w1 w2 w3 w4 w5 data where
      s: "check w = Some (Inr (), w1)" "create_file ?p w1 = Some (Inr (), w2)" "append_file ?p chunk w2 = Some (Inr (), w3)"
      "read_file ?p w3 = Some (Inr data, w4)" "write_file ?p (xor_pass data) w4 = Some (Inr (), w5)"
      "pause_for check ms w5 = Some (Inr (), w')" and n': "n' = n + length chunk + length data"
    by (auto simp: canary_file_def Let_def io_then_Inr io_op_Inr)
  note fs = fs_const_D [OF c s(1)] create_file_Inr [OF s(2)] append_file_Inr [OF s(3)] read_file_Inr [OF s(4)]
    write_file_Inr [OF s(5)] fs_const_D [OF fs_const_loops(2) [OF c] s(6)]
  have "wd_fs w3 = fs_put ?p (FileNode chunk) (wd_fs w2)" using fs(2,3) by auto
  with fs n' show ?thesis by auto
qed

lemma canary_files_spec:
  assumes "fs_const check" and "canary_files check ms dir chunk n is w = Some (Inr n', w')"
  shows "n' = n + 2 * length is * length chunk
    \<and> (\<forall>i \<in> set is. fs_get (wd_fs w') (dir @ [canary_name i]) = Some (FileNode (xor_pass chunk)))
    \<and> (\<forall>q. q \<notin> (\<lambda>i. dir @ [canary_name i]) ` set is \<longrightarrow> fs_get (wd_fs w') q = fs_get (wd_fs w) q)"
  using assms(2)
proof (induction "is" arbitrary: n w)
  case (Cons i js)
  then obtain n1 w1 where f: "canary_file check ms dir chunk n i w = Some (Inr n1, w1)"
      "canary_files check ms dir chunk n1 js w1 = Some (Inr n', w')"
    by (auto simp: io_then_Inr)
  note a = canary_file_spec [OF f(1) assms(1)] and b = Cons.IH [OF f(2)]
  have "fs_get (wd_fs w') (dir @ [canary_name i]) = Some (FileNode (xor_pass chunk))"
    using a b by (cases "dir @ [canary_name i] \<in> (\<lambda>i. dir @ [canary_name i]) ` set js") auto
  with a b show ?case by (auto simp: algebra_simps)
qed simp

text \<open>
  C0: The ransomware imitation is reversible and accounted for: when a pass over \<open>n\<close> decoys ends well,
  every decoy holds the plain chunk passed through the XOR stream, a second pass over what it holds gives
  the plain chunk back (as it does for any data), nothing else has changed, and the report counts \<open>n\<close>
  files and the bytes of both writes of each.
\<close>
theorem canary_reversible:
  assumes "inject_checked dir n kb (check_loop timeout) ms w = Some (Inr rep, w')" and "is_dir_at (wd_fs w) dir"
  shows "rep = \<lparr>rp_files_created = n, rp_bytes_written = 2 * n * (kb * 1024)\<rparr>
    \<and> (\<forall>i < n. \<exists>data. fs_get (wd_fs w') (dir @ [canary_name i]) = Some (FileNode data)
          \<and> xor_pass data = replicate (kb * 1024) (CHR ''C''))
    \<and> (\<forall>q. q \<notin> (\<lambda>i. dir @ [canary_name i]) ` {..<n} \<longrightarrow> fs_get (wd_fs w') q = fs_get (wd_fs w) q)"
proof -
  let ?chunk = "replicate (kb * 1024) (CHR ''C'')"
  from assms(1) obtain w1 w2 written where
      s: "check_loop timeout w = Some (Inr (), w1)" "create_dir_all dir w1 = Some (Inr (), w2)"
      "canary_files (check_loop timeout) ms dir ?chunk 0 [0..<n] w2 = Some (Inr written, w')"
    and rep: "rep = \<lparr>rp_files_created = n, rp_bytes_written = written\<rparr>"
    by (auto simp: inject_checked_def Let_def io_then_Inr io_op_Inr)
  have "wd_fs w1 = wd_fs w" using fs_const_D [OF fs_const_loops(1) s(1)] .
  with assms(2) s(2) have "wd_fs w2 = wd_fs w"
    by (auto simp: create_dir_all_def sys_call_def Let_def split: list.splits option.splits fault.splits if_splits)
  with canary_files_spec [OF fs_const_loops(1) s(3)] rep show ?thesis
    by (auto simp: xor_pass_involution atLeast0LessThan)
qed

text \<open>A quiet world: a directory, no faults, a clock that counts, nothing to stop for before the deadline.\<close>

definition canary_dir :: fpath where
  "canary_dir = [''tmp'', ''asmodeus-canary'', ''run'']"

definition quiet_world :: "'n \<Rightarrow> 'n world" where
  "quiet_world net = \<lparr>wd_fs = [(canary_dir, DirNode)], wd_faults = [],
     wd_clock = (\<lambda>n. \<lparr>it_elapsed = n, it_cancelled = False, it_lease = 0, it_delay = Inr 0\<rparr>), wd_tick = 0,
     wd_net = net, wd_state = ''Queued'', wd_events = []\<rparr>"

lemma quiet_check:
  "wd_clock w = (\<lambda>n. \<lparr>it_elapsed = n, it_cancelled = False, it_lease = 0, it_delay = Inr 0\<rparr>) \<Longrightarrow> wd_tick w < timeout \<Longrightarrow>
    check_loop timeout w = Some (Inr (), w\<lparr>wd_tick := wd_tick w + 1\<rparr>)"
  by (subst check_loop.simps) (simp add: Let_def stop_reason_def LEASE_def)

lemma quiet_pause:
  "wd_clock w = (\<lambda>n. \<lparr>it_elapsed = n, it_cancelled = False, it_lease = 0, it_delay = Inr 0\<rparr>) \<Longrightarrow>
    pause_for check 0 w = Some (Inr (), w\<lparr>wd_tick := wd_tick w + 2\<rparr>)"
  by (simp add: pause_for_def io_then_def io_try_def look_def) (subst pause_loop.simps, simp add: Let_def)

lemma quiet_canary:
  "\<exists>rep w'. inject_checked canary_dir 1 kb (check_loop 1000) 0 (quiet_world net) = Some (Inr rep, w')"
  by (simp add: inject_checked_def canary_file_def quiet_world_def io_defs quiet_check Let_def create_dir_all_def sys_call_def
      fs_get_def io_op_def create_file_def append_file_def canary_dir_def fs_put_def read_file_def write_file_def quiet_pause)

theorem canary_reversible_witness:
  "\<exists>rep w'. inject_checked canary_dir 1 2 (check_loop 1000) 0 (quiet_world sim_new) = Some (Inr rep, w')
    \<and> rp_bytes_written rep = 4096"
proof -
  obtain rep w' where run: "inject_checked canary_dir 1 2 (check_loop 1000) 0 (quiet_world sim_new) = Some (Inr rep, w')"
    using quiet_canary [of 2 sim_new] by (elim exE)
  have "is_dir_at (wd_fs (quiet_world sim_new)) canary_dir" by (simp add: quiet_world_def fs_get_def)
  from canary_reversible [OF run this] run show ?thesis by simp
qed

end
