(* ===== verification/Runner_Worker.thy ===== *)
theory Runner_Worker
  imports Injectors Catalog
begin

text \<open>
  \<open>crates/asmodeus-runner/src/service.rs\<close> (\<open>validate\<close>, \<open>event\<close>, \<open>run_worker\<close>) and \<open>sandbox.rs\<close>: the
  request a runner accepts, the directory a run owns, and the worker that drives one run from
  \<open>Validated\<close> to its terminal event. The manifest parser and Ed25519 are parameters, as in the catalog.
\<close>

section \<open>Requests\<close>

record execute_request =
  er_scenario_id :: string
  er_manifest :: bytes
  er_signature :: bytes
  er_public_key :: bytes
  er_target_dir :: string
  er_file_count :: nat
  er_chunk_size_kb :: nat
  er_run_id :: string
  er_timeout_sec :: nat

datatype status = FailedPrecondition string | PermissionDenied string | InvalidArgument string
  | ResourceExhausted string | NotFound string | Unavailable string | DeadlineExceeded string
  | DataLoss string | Internal string

definition is_ascii_alphanumeric :: "char \<Rightarrow> bool" where
  "is_ascii_alphanumeric c \<longleftrightarrow> is_ascii_digit c \<or> (65 \<le> byte c \<and> byte c \<le> 90) \<or> (97 \<le> byte c \<and> byte c \<le> 122)"

definition run_id_ok :: "string \<Rightarrow> bool" where
  "run_id_ok rid \<longleftrightarrow> rid \<noteq> [] \<and> length rid \<le> 96
     \<and> list_all (\<lambda>c. is_ascii_alphanumeric c \<or> c = CHR ''_'' \<or> c = CHR ''-'') rid"

definition runner_validate ::
  "ed25519 \<Rightarrow> manifest_lib \<Rightarrow> bytes option \<Rightarrow> execute_request \<Rightarrow> status + execution_plan" where
  "runner_validate E L trusted_key req =
     and_then (ok_or (FailedPrecondition ''runner trusted key is not configured'') trusted_key) (\<lambda>key.
     and_then (reject_if (key \<noteq> er_public_key req \<or> \<not> is_valid E (er_manifest req) (er_signature req) key)
                (PermissionDenied ''signature invalid or signing key untrusted'')) (\<lambda>_.
     and_then (reject_if (\<not> ml_utf8 L (er_manifest req)) (InvalidArgument ''manifest must be UTF-8'')) (\<lambda>_.
     and_then (case parse_and_validate L (er_manifest req) of
                 Inl e \<Rightarrow> Inl (InvalidArgument (manifest_error_text e)) | Inr m \<Rightarrow> Inr m) (\<lambda>manifest.
     and_then (case from_manifest manifest of
                 Inl e \<Rightarrow> Inl (InvalidArgument (manifest_error_text e)) | Inr p \<Rightarrow> Inr p) (\<lambda>plan.
     and_then (reject_if (md_id (mf_metadata manifest) \<noteq> er_scenario_id req \<or> pl_target_dir plan \<noteq> er_target_dir req
                 \<or> pl_file_count plan \<noteq> er_file_count req \<or> pl_chunk_size_kb plan \<noteq> er_chunk_size_kb req)
                (InvalidArgument ''request parameters differ from signed manifest'')) (\<lambda>_.
     and_then (reject_if (\<not> run_id_ok (er_run_id req))
                (InvalidArgument ''run_id must be 1..96 ASCII identifier characters'')) (\<lambda>_.
     and_then (reject_if (er_timeout_sec req > pl_max_duration_sec plan)
                (InvalidArgument ''timeout may not extend signed safety deadline'')) (\<lambda>_.
     Inr plan))))))))"

section \<open>The sandbox of a run\<close>

definition path_join :: "string \<Rightarrow> string \<Rightarrow> string" where
  "path_join p c = (if p \<noteq> [] \<and> last p = CHR ''/'' then p @ c else p @ CHR ''/'' # c)"

text \<open>A parent at or below \<open>asmodeus-canary\<close> must be a directory, or is made.\<close>

definition sandbox_parent :: "fpath \<Rightarrow> ('n, io_error, unit) io" where
  "sandbox_parent p =
     io_try (symlink_metadata p) (\<lambda>meta.
     case meta of
       Inr n \<Rightarrow> if n \<noteq> DirNode then io_fail (IoOther ''sandbox path contains symlink or non-directory'') else io_ret ()
     | Inl e \<Rightarrow>
         (case e of
            IoNotFound _ \<Rightarrow>
              io_try (create_dir p) (\<lambda>made.
              case made of
                Inr _ \<Rightarrow> io_ret ()
              | Inl e \<Rightarrow>
                  (case e of
                     IoExists _ \<Rightarrow>
                       io_then (symlink_metadata p) (\<lambda>n.
                       if n \<noteq> DirNode then io_fail (IoOther ''unsafe sandbox parent'') else io_ret ())
                   | IoNotFound _ \<Rightarrow> io_fail e | IoOther _ \<Rightarrow> io_fail e))
          | IoExists _ \<Rightarrow> io_fail e | IoOther _ \<Rightarrow> io_fail e))"

fun sandbox_parents :: "bool \<Rightarrow> fpath \<Rightarrow> string list \<Rightarrow> ('n, io_error, unit) io" where
  "sandbox_parents below_scope p [] = io_ret ()"
| "sandbox_parents below_scope p (c # cs) =
     (let below_scope = (below_scope \<or> c = ''asmodeus-canary''); p = p @ [c] in
      if below_scope then io_then (sandbox_parent p) (\<lambda>_. sandbox_parents below_scope p cs)
      else sandbox_parents below_scope p cs)"

definition sandbox_create :: "string \<Rightarrow> string \<Rightarrow> ('n, io_error, fpath) io" where
  "sandbox_create target run_id =
     (if \<not> path_in_scope target \<or> \<not> run_id_ok run_id then io_fail (IoOther ''invalid sandbox target or run ID'')
      else
        let base = resolve_path target; path = base @ [run_id] in
        io_then (sandbox_parents False [] base) (\<lambda>_.
        io_then (create_dir path) (\<lambda>_. io_ret path)))"

definition sandbox_cleanup :: "fpath \<Rightarrow> ('n, io_error, unit) io" where
  "sandbox_cleanup path =
     io_try (remove_dir_all path) (\<lambda>r. case r of
         Inl e \<Rightarrow> (case e of IoNotFound _ \<Rightarrow> io_ret () | IoExists _ \<Rightarrow> io_fail e | IoOther _ \<Rightarrow> io_fail e)
       | Inr _ \<Rightarrow> io_ret ())"

section \<open>The worker\<close>

definition report0 :: report where
  "report0 = \<lparr>rp_files_created = 0, rp_bytes_written = 0\<rparr>"

definition event :: "event_kind \<Rightarrow> string \<Rightarrow> string \<Rightarrow> string \<Rightarrow> bool \<Rightarrow> bool \<Rightarrow> report \<Rightarrow> instant \<Rightarrow> runner_event" where
  "event kind state run_id detail cleanup simulated rep now =
     \<lparr>rv_kind = kind, rv_state = state, rv_files_created = rp_files_created rep mod 2 ^ 32,
      rv_bytes_written = rp_bytes_written rep, rv_inject_ms = it_elapsed now, rv_detail = detail,
      rv_run_id = run_id, rv_cleanup_confirmed = cleanup, rv_simulated = simulated\<rparr>"

definition send_event :: "event_kind \<Rightarrow> string \<Rightarrow> string \<Rightarrow> string \<Rightarrow> bool \<Rightarrow> bool \<Rightarrow> report \<Rightarrow> ('n, 'e, unit) io" where
  "send_event kind state run_id detail cleanup simulated rep =
     io_then look (\<lambda>now. send (event kind state run_id detail cleanup simulated rep now))"

definition emit :: "string \<Rightarrow> string \<Rightarrow> ('n, 'e, unit) io" where
  "emit run_id state =
     io_then (set_state state) (\<lambda>_. send_event KStateChanged state run_id [] False False report0)"

definition scenario_of :: "action \<Rightarrow> string" where
  "scenario_of act = (case act of
       K8sEscapeProbe \<Rightarrow> ''K8S_ESCAPE_SIMULATION''
     | C2Beacon \<Rightarrow> ''C2_BEACONING_SIMULATION''
     | CredentialCanary \<Rightarrow> ''CREDENTIAL_ACCESS_CANARY''
     | LogTamperCanary \<Rightarrow> ''LOG_TAMPER_CANARY''
     | PersistenceCanary \<Rightarrow> ''PERSISTENCE_CRON_CANARY''
     | ExfiltrationCanary \<Rightarrow> ''DATA_EXFILTRATION_CANARY''
     | WatchdogProbe \<Rightarrow> ''DEFENSE_IMPAIRMENT_CANARY''
     | _ \<Rightarrow> [])"

definition chaos_spec_of :: "execution_plan \<Rightarrow> chaos_spec" where
  "chaos_spec_of plan = \<lparr>nc_iface = pl_iface plan, nc_target_cidr = pl_target_cidr plan,
     nc_latency_ms = pl_latency_ms plan, nc_jitter_ms = pl_jitter_ms plan, nc_loss_pct = pl_loss_percent plan,
     nc_duration_ms = max (pl_duration_ms plan) 1\<rparr>"

type_synonym injection = "(inject_error + report) \<times> string option \<times> bool"

text \<open>The network action: a session around the wait, reverted whatever the wait gives.\<close>

definition run_latency :: "'n chaos_backend \<Rightarrow> execution_plan \<Rightarrow> ('n, inject_error, unit) io \<Rightarrow> ('n, inject_error, injection) io" where
  "run_latency bk plan check =
     (let simulated = (bk_name bk = ''sim'') in
      io_try (chaos_io (session_start bk (chaos_spec_of plan))) (\<lambda>started.
      case started of
        Inl e \<Rightarrow> io_ret (Inl e, None, simulated)
      | Inr session \<Rightarrow>
          io_try (wait_for check (pl_duration_ms plan)) (\<lambda>waited.
          io_then (io_net (\<lambda>n. case session_revert bk session n of (r, _, n') \<Rightarrow> (Inr r, n'))) (\<lambda>reverted.
          let cleanup_error = (case reverted of Inl e \<Rightarrow> Some (chaos_error_text e) | Inr _ \<Rightarrow> None) in
          io_ret ((case waited of Inl e \<Rightarrow> Inl e | Inr _ \<Rightarrow> Inr report0), cleanup_error, simulated)))))"

definition run_canary :: "execution_plan \<Rightarrow> string \<Rightarrow> ('n, inject_error, unit) io \<Rightarrow> ('n, inject_error, injection) io" where
  "run_canary plan target check =
     io_try
       (io_then (io_lift (scoped_dir target)) (\<lambda>dir.
        io_then (inject_checked dir (pl_file_count plan) (pl_chunk_size_kb plan) check
          (if pl_io_rate_per_sec plan = 0 then 0 else 1000 div pl_io_rate_per_sec plan)) (\<lambda>report.
        io_then (wait_for check (pl_duration_ms plan)) (\<lambda>_. io_ret report))))
       (\<lambda>r. io_ret (r, None, False))"

definition run_marker ::
  "'n chaos_backend \<Rightarrow> execution_plan \<Rightarrow> string \<Rightarrow> ('n, inject_error, unit) io \<Rightarrow> ('n, inject_error, injection) io" where
  "run_marker bk plan target check =
     (case create_injector (scenario_of (pl_action plan)) target (pl_file_count plan) (pl_chunk_size_kb plan) of
        Inl e \<Rightarrow> io_ret (Inl e, None, False)
      | Inr ij \<Rightarrow>
          io_then (injector_cycle (inject bk ij) (wait_for check (pl_duration_ms plan)) (inj_cleanup ij))
            (\<lambda>(cleanup_error, injected, waited).
             io_ret ((case waited of Inl e \<Rightarrow> Inl e | Inr _ \<Rightarrow> injected), cleanup_error, False)))"

definition run_action ::
  "'n chaos_backend \<Rightarrow> execution_plan \<Rightarrow> string \<Rightarrow> ('n, inject_error, unit) io \<Rightarrow> ('n, inject_error, injection) io" where
  "run_action bk plan target check =
     io_try check (\<lambda>first.
     case first of
       Inl e \<Rightarrow> io_ret (Inl e, None, False)
     | Inr _ \<Rightarrow>
         if pl_action plan = LatencySpike then run_latency bk plan check
         else if pl_action plan = SyntheticCanaryEncrypt then run_canary plan target check
         else run_marker bk plan target check)"

text \<open>The terminal event, by the error of the clean-up or the text of the injection's error.\<close>

definition terminal_of :: "inject_error + report \<Rightarrow> string option \<Rightarrow> event_kind \<times> string \<times> string \<times> report" where
  "terminal_of result cleanup_error =
     (case cleanup_error of
        Some error \<Rightarrow> (KFailed, ''CLEANUP_FAILED'', error, report0)
      | None \<Rightarrow>
          (case result of
             Inr report \<Rightarrow> (KCompleted, ''COMPLETED'', [], report)
           | Inl err \<Rightarrow>
               (let detail = inject_error_text err;
                    (kind, state) =
                      (if str_contains detail ''CANCELLED'' then (KCancelled, ''CANCELLED'')
                       else if str_contains detail ''TIMED_OUT'' then (KTimedOut, ''TIMED_OUT'')
                       else if str_contains detail ''CONTROL_LOST'' then (KFailed, ''CONTROL_LOST'')
                       else (KFailed, ''FAILED''))
                in (kind, state, detail, report0))))"

definition worker_timeout_ms :: "execute_request \<Rightarrow> execution_plan \<Rightarrow> nat" where
  "worker_timeout_ms req plan =
     (if er_timeout_sec req = 0 then pl_max_duration_sec plan else er_timeout_sec req) * 1000"

text \<open>After the injection: clean up, publish the end, and drop the sandbox (which cleans up again).\<close>

definition worker_end :: "execute_request \<Rightarrow> fpath \<Rightarrow> injection \<Rightarrow> ('n, inject_error, bool) io" where
  "worker_end req path injection =
     (case injection of (result, inner_error, simulated) \<Rightarrow>
      io_then (emit (er_run_id req) ''Cleanup'') (\<lambda>_.
      io_try (sandbox_cleanup path) (\<lambda>cleanup.
      let cleanup_error = (case cleanup of Inl e \<Rightarrow> Some (io_text e) | Inr _ \<Rightarrow> inner_error);
          cleaned = (cleanup_error = None);
          (kind, state, detail, report) = terminal_of result cleanup_error
      in
      io_then (set_state state) (\<lambda>_.
      io_then (send_event kind state (er_run_id req) detail cleaned simulated report) (\<lambda>_.
      io_try (sandbox_cleanup path) (\<lambda>_. io_ret cleaned))))))"

definition run_worker :: "'n chaos_backend \<Rightarrow> execute_request \<Rightarrow> execution_plan \<Rightarrow> ('n, inject_error, bool) io" where
  "run_worker bk req plan =
     (let run_id = er_run_id req; check = check_loop (worker_timeout_ms req plan) in
      io_then (emit run_id ''Validated'') (\<lambda>_.
      io_try (sandbox_create (pl_target_dir plan) run_id) (\<lambda>sandbox.
      case sandbox of
        Inl e \<Rightarrow>
          io_then (send_event KRejected ''REJECTED'' run_id (io_text e) False False report0) (\<lambda>_. io_ret False)
      | Inr path \<Rightarrow>
          io_then (emit run_id ''Armed'') (\<lambda>_.
          io_then (emit run_id ''Injecting'') (\<lambda>_.
          io_then (run_action bk plan (path_join (pl_target_dir plan) run_id) check) (worker_end req path))))))"

end
