(* ===== verification/Runner_Safety.thy ===== *)
theory Runner_Safety
  imports Runner_Worker
begin

text \<open>
  What a runner worker may do and what it must say: it writes inside its own run directory only and
  leaves none of it behind when it confirms the clean-up, its events form one fixed shape, and it
  returns under every clock that runs on.
\<close>

section \<open>Paths of a run\<close>

lemma run_id_component:
  assumes "run_id_ok rid"
  shows "rid \<noteq> []" "rid \<noteq> ''.''" "rid \<noteq> ''..''" "split_on CHR ''/'' rid = [rid]"
proof -
  have ok: "is_ascii_alphanumeric c \<or> c = CHR ''_'' \<or> c = CHR ''-''" if "c \<in> set rid" for c
    using assms that by (simp add: run_id_ok_def list_all_iff)
  have bad: "CHR ''/'' \<notin> set rid" "CHR ''.'' \<notin> set rid"
    using ok [of "CHR ''/''"] ok [of "CHR ''.''"] by (auto simp: is_ascii_alphanumeric_def is_ascii_digit_def byte_def)
  show "rid \<noteq> []" using assms by (simp add: run_id_ok_def)
  show "rid \<noteq> ''.''" "rid \<noteq> ''..''" using bad(2) by auto
  show "split_on CHR ''/'' rid = [rid]" using bad(1) by (simp add: split_on_no_sep)
qed

lemma join_split:
  assumes "run_id_ok rid"
  obtains p' where "path_join p rid = p' @ CHR ''/'' # rid"
    and "p = p' \<or> p = p' @ [CHR ''/'']"
proof (cases "p \<noteq> [] \<and> last p = CHR ''/''")
  case True
  then have p: "p = butlast p @ [CHR ''/'']" by (metis append_butlast_last_id)
  then have "path_join p rid = butlast p @ CHR ''/'' # rid" using True
    by (metis append_Cons append_assoc append_Nil path_join_def)
  with p show thesis using that by blast
next
  case False
  then show thesis using that [of p] by (auto simp: path_join_def)
qed

lemma resolve_snoc:
  assumes "run_id_ok rid"
  shows "resolve_path (p @ CHR ''/'' # rid) = resolve_path p @ [rid]"
  using run_id_component [OF assms] by (simp add: resolve_path_def split_on_append_sep resolve_step.simps)

lemma resolve_slash: "resolve_path (p @ [CHR ''/'']) = resolve_path p"
proof -
  have "split_on CHR ''/'' (p @ CHR ''/'' # []) = split_on CHR ''/'' p @ split_on CHR ''/'' []"
    by (rule split_on_append_sep)
  then show ?thesis by (simp add: resolve_path_def resolve_step.simps)
qed

lemma resolve_join: "run_id_ok rid \<Longrightarrow> resolve_path (path_join p rid) = resolve_path p @ [rid]"
  by (rule join_split [of rid p]) (auto simp: resolve_snoc resolve_slash)

section \<open>The directory of a run\<close>

text \<open>Between two states of the file system, only directories on the way to \<open>base\<close>, at or below the
  canary root, have appeared.\<close>

definition grows :: "fpath \<Rightarrow> (fpath \<times> node) list \<Rightarrow> (fpath \<times> node) list \<Rightarrow> bool" where
  "grows base fs fs' \<longleftrightarrow> (\<forall>q. fs_get fs' q \<noteq> fs_get fs q \<longrightarrow>
     prefix q base \<and> ''asmodeus-canary'' \<in> set q \<and> fs_get fs q = None \<and> fs_get fs' q = Some DirNode)"

text \<open>No event, no published state, and a clock that runs on.\<close>

definition silent :: "'n world \<Rightarrow> 'n world \<Rightarrow> bool" where
  "silent w w' \<longleftrightarrow> wd_events w' = wd_events w \<and> wd_state w' = wd_state w"

lemma grows_refl [simp]: "grows base fs fs"
  by (simp add: grows_def)

lemma grows_trans: "grows base a b \<Longrightarrow> grows base b c \<Longrightarrow> grows base a c"
  unfolding grows_def by (metis option.distinct(1))

lemma silent_trans: "silent a b \<Longrightarrow> silent b c \<Longrightarrow> silent a c"
  by (simp add: silent_def)

lemma sys_call_silent: "sys_call act w = Some (r, w') \<Longrightarrow> silent w w'"
  by (auto simp: sys_call_def silent_def Let_def split: prod.splits)

lemma create_dir_Some:
  assumes "create_dir p w = Some (r, w')"
  shows "silent w w' \<and> (case r of Inr _ \<Rightarrow> fs_get (wd_fs w) p = None \<and> wd_fs w' = fs_put p DirNode (wd_fs w)
    | Inl _ \<Rightarrow> wd_fs w' = wd_fs w)"
  using assms sys_call_silent [of _ w r w']
  by (auto simp: create_dir_def silent_def sys_call_def Let_def
      split: list.splits option.splits fault.splits if_splits)

lemma metadata_Some:
  assumes "symlink_metadata p w = Some (r, w')"
  shows "silent w w' \<and> wd_fs w' = wd_fs w"
  using assms
  by (auto simp: symlink_metadata_def silent_def sys_call_def Let_def split: list.splits option.splits fault.splits)

lemma sandbox_parent_Some:
  assumes "sandbox_parent p w = Some (r, w')" and "prefix p base" and "''asmodeus-canary'' \<in> set p"
  shows "silent w w' \<and> grows base (wd_fs w) (wd_fs w')"
proof -
  from assms(1) obtain m w1 where m: "symlink_metadata p w = Some (m, w1)"
    by (auto simp: sandbox_parent_def io_try_def split: option.splits prod.splits)
  note a = metadata_Some [OF m]
  show ?thesis
  proof (cases "\<exists>x. m = Inl (IoNotFound x)")
    case False
    with assms(1) m have "w' = w1"
      by (cases m) (auto simp: sandbox_parent_def io_defs split: io_error.splits if_splits)
    with a show ?thesis by simp
  next
    case True
    with assms(1) m obtain d w2 where d: "create_dir p w1 = Some (d, w2)"
      by (auto simp: sandbox_parent_def io_try_def split: option.splits prod.splits)
    note b = create_dir_Some [OF d]
    have g: "grows base (wd_fs w1) (wd_fs w2)"
      using b assms(2,3) by (auto simp: grows_def split: sum.splits)
    have "silent w2 w' \<and> wd_fs w' = wd_fs w2"
    proof (cases "\<exists>x. d = Inl (IoExists x)")
      case False
      with assms(1) m d True have "w' = w2"
        by (cases d) (auto simp: sandbox_parent_def io_defs split: io_error.splits)
      then show ?thesis by (simp add: silent_def)
    next
      case ex: True
      with assms(1) m d True obtain y w3 where y: "symlink_metadata p w2 = Some (y, w3)" and "w' = w3"
        by (fastforce simp: sandbox_parent_def io_defs split: option.splits prod.splits sum.splits if_splits)
      with metadata_Some [OF y] show ?thesis by simp
    qed
    with a b g show ?thesis by (auto intro: silent_trans)
  qed
qed

lemma sandbox_parents_Some:
  assumes "sandbox_parents below p cs w = Some (r, w')" and "below \<longrightarrow> ''asmodeus-canary'' \<in> set p"
    and "base = p @ cs"
  shows "silent w w' \<and> grows base (wd_fs w) (wd_fs w')"
  using assms
proof (induction cs arbitrary: below p w)
  case Nil
  then show ?case by (simp add: silent_def)
next
  case (Cons c cs)
  let ?b = "below \<or> c = ''asmodeus-canary''" and ?p = "p @ [c]"
  have mem: "?b \<longrightarrow> ''asmodeus-canary'' \<in> set ?p" and base: "base = ?p @ cs" using Cons.prems by auto
  show ?case
  proof (cases ?b)
    case False
    with Cons.prems(1) have "sandbox_parents ?b ?p cs w = Some (r, w')" by (simp add: Let_def)
    from Cons.IH [OF this mem base] show ?thesis .
  next
    case True
    with Cons.prems(1) obtain u w1 where u: "sandbox_parent ?p w = Some (u, w1)"
      by (auto simp: Let_def io_defs split: option.splits prod.splits)
    have "prefix ?p base" using base by simp
    from sandbox_parent_Some [OF u this] mem True have a: "silent w w1 \<and> grows base (wd_fs w) (wd_fs w1)" by blast
    show ?thesis
    proof (cases u)
      case Inl
      with Cons.prems(1) True u have "w' = w1" by (auto simp: Let_def io_defs)
      with a show ?thesis by simp
    next
      case Inr
      with Cons.prems(1) True u have "sandbox_parents ?b ?p cs w1 = Some (r, w')" by (auto simp: Let_def io_defs)
      from Cons.IH [OF this mem base] a show ?thesis by (blast intro: silent_trans grows_trans)
    qed
  qed
qed

lemma sandbox_create_Some:
  assumes "sandbox_create target rid w = Some (r, w')"
  shows "case r of
      Inl _ \<Rightarrow> silent w w' \<and> grows (resolve_path target) (wd_fs w) (wd_fs w')
        \<and> (path_in_scope target \<or> wd_fs w' = wd_fs w)
    | Inr path \<Rightarrow> silent w w' \<and> path_in_scope target \<and> run_id_ok rid \<and> path = resolve_path target @ [rid]
        \<and> (\<exists>fs. grows (resolve_path target) (wd_fs w) fs \<and> fs_get fs path = None \<and> wd_fs w' = fs_put path DirNode fs)"
proof (cases "path_in_scope target \<and> run_id_ok rid")
  case False
  with assms show ?thesis by (auto simp: sandbox_create_def silent_def)
next
  case True
  let ?base = "resolve_path target"
  from assms True obtain u w1 where u: "sandbox_parents False [] ?base w = Some (u, w1)"
    by (auto simp: sandbox_create_def Let_def io_defs split: option.splits prod.splits)
  from sandbox_parents_Some [OF u] have a: "silent w w1 \<and> grows ?base (wd_fs w) (wd_fs w1)" by simp
  show ?thesis
  proof (cases u)
    case Inl
    with assms True u a show ?thesis by (auto simp: sandbox_create_def Let_def io_defs)
  next
    case Inr
    with assms True u obtain v where v: "create_dir (?base @ [rid]) w1 = Some (v, w')"
        "r = (case v of Inl e \<Rightarrow> Inl e | Inr _ \<Rightarrow> Inr (?base @ [rid]))"
      by (auto simp: sandbox_create_def Let_def io_defs split: option.splits prod.splits sum.splits)
    with create_dir_Some [OF v(1)] a True show ?thesis
      by (cases v) (auto intro: silent_trans)
  qed
qed

text \<open>The clean-up of the directory: nothing appears, and a confirmed one leaves nothing.\<close>

lemma sandbox_cleanup_rules [io_rules]: "spares d (sandbox_cleanup d)" "returns (sandbox_cleanup d)"
  unfolding sandbox_cleanup_def by (intro io_rules; auto split: io_error.splits intro: io_rules)+

lemma remove_dir_all_Some:
  assumes "remove_dir_all d w = Some (r, w')"
  shows "(fs_get (wd_fs w) q = None \<longrightarrow> fs_get (wd_fs w') q = None)
    \<and> (r = Inr u \<longrightarrow> prefix d q \<longrightarrow> fs_get (wd_fs w') q = None)
    \<and> (r = Inl (IoNotFound x) \<longrightarrow> fs_get (wd_fs w) d = None \<and> wd_fs w' = wd_fs w)"
proof -
  obtain f rest where f: "(case wd_faults w of [] \<Rightarrow> (None, []) | f # fs \<Rightarrow> (f, fs)) = (f, rest)" by fastforce
  show ?thesis
  proof (cases f)
    case None
    with assms f show ?thesis
      by (auto simp: remove_dir_all_def sys_call_def Let_def split: option.splits node.splits)
  next
    case (Some y)
    obtain e k where y: "y = Fault e k" by (cases y)
    have "fault_error e \<noteq> IoNotFound x" by (cases e) simp_all
    with assms f Some y show ?thesis by (auto simp: remove_dir_all_def sys_call_def Let_def)
  qed
qed

lemma sandbox_cleanup_Some:
  assumes "sandbox_cleanup d w = Some (r, w')"
  shows "fs_get (wd_fs w) q = None \<Longrightarrow> fs_get (wd_fs w') q = None"
    and "r = Inr u \<Longrightarrow> rooted d (wd_fs w) \<Longrightarrow> prefix d q \<Longrightarrow> fs_get (wd_fs w') q = None"
proof -
  from assms obtain x where x: "remove_dir_all d w = Some (x, w')"
      "r = (case x of Inl (IoNotFound _) \<Rightarrow> Inr () | Inl e \<Rightarrow> Inl e | Inr _ \<Rightarrow> Inr ())"
    by (auto simp: sandbox_cleanup_def io_defs split: option.splits prod.splits sum.splits io_error.splits)
  show "fs_get (wd_fs w) q = None \<Longrightarrow> fs_get (wd_fs w') q = None"
    using remove_dir_all_Some [OF x(1)] by blast
  assume "r = Inr u" "rooted d (wd_fs w)" "prefix d q"
  then show "fs_get (wd_fs w') q = None"
    using x(2) remove_dir_all_Some [OF x(1), of q]
    by (auto simp: rooted_def split: sum.splits io_error.splits)
qed

section \<open>The injection stays in the run directory\<close>

definition within :: "fpath \<Rightarrow> ('n, 'e, 'a) io \<Rightarrow> bool" where
  "within d m \<longleftrightarrow> (\<forall>w r w'. m w = Some (r, w') \<longrightarrow> is_dir_at (wd_fs w) d \<longrightarrow> frame d w w')"

lemma keeps_within: "keeps d m \<Longrightarrow> within d m"
  by (auto simp: within_def keeps_def simp del: is_dir_at.simps)

lemma within_ret:
  assumes "within d m"
  shows "within d (io_then m (\<lambda>(a, b, c). io_ret (f a b c)))"
  unfolding within_def
proof (intro allI impI)
  fix w r w'
  assume "io_then m (\<lambda>(a, b, c). io_ret (f a b c)) w = Some (r, w')" and d: "is_dir_at (wd_fs w) d"
  then obtain x where "m w = Some (x, w')" by (auto elim!: io_thenE split: prod.splits)
  with assms d show "frame d w w'" unfolding within_def by blast
qed

lemma within_try:
  assumes "keeps d m" and "\<And>r. within d (f r)"
  shows "within d (io_try m f)"
  unfolding within_def
proof (intro allI impI)
  fix w r w'
  assume run: "io_try m f w = Some (r, w')" and d: "is_dir_at (wd_fs w) d"
  from run obtain x w1 where m: "m w = Some (x, w1)" "f x w1 = Some (r, w')" by (rule io_tryE)
  from keeps_D [OF assms(1) m(1) d] assms(2) m(2) show "frame d w w'"
    unfolding within_def by (blast intro: frame_trans)
qed

lemma run_latency_rules:
  "keeps d check \<Longrightarrow> keeps d (run_latency bk plan check)"
  "returns check \<Longrightarrow> returns (run_latency bk plan check)"
  unfolding run_latency_def Let_def by (intro io_rules; assumption)+

lemma run_canary_keeps:
  assumes "keeps d check" and "resolve_path target = d"
  shows "keeps d (run_canary plan target check)"
proof (cases "path_in_scope target")
  case True
  then have "scoped_dir target = Inr d" using assms(2) by (simp add: scoped_dir_def)
  then have "io_then (io_lift (scoped_dir target)) f = f d" for f :: "fpath \<Rightarrow> ('a, inject_error, report) io"
    by (simp add: io_defs fun_eq_iff)
  then show ?thesis unfolding run_canary_def using assms(1) by (auto intro!: io_rules)
next
  case False
  then have "io_then (io_lift (scoped_dir target)) f = io_fail (OutOfScope target)" for f :: "fpath \<Rightarrow> ('a, inject_error, report) io"
    by (simp add: io_defs fun_eq_iff scoped_dir_def)
  then show ?thesis unfolding run_canary_def by (auto intro!: io_rules)
qed

lemma run_canary_returns: "returns check \<Longrightarrow> returns (run_canary plan target check)"
  unfolding run_canary_def by (intro io_rules; assumption)

lemma run_marker_within:
  assumes "keeps d check" and "resolve_path target = d"
  shows "within d (run_marker bk plan target check)"
proof (cases "create_injector (scenario_of (pl_action plan)) target (pl_file_count plan) (pl_chunk_size_kb plan)")
  case (Inl e)
  then show ?thesis by (auto simp: run_marker_def within_def)
next
  case (Inr ij)
  then have dir: "inj_dir ij = d" using create_injector_scoped assms(2) by metis
  have "within d (injector_cycle (inject bk ij) (wait_for check (pl_duration_ms plan)) (inj_cleanup ij))"
    unfolding within_def using injectors.cycle_frame [of ij _ bk] wait_rules(3) [OF assms(1)] dir
    by (metis (no_types, lifting))
  then show ?thesis using Inr by (simp add: run_marker_def within_ret)
qed

lemma run_marker_returns: "returns check \<Longrightarrow> returns (run_marker bk plan target check)"
  unfolding run_marker_def split_beta
  by (auto split: sum.splits intro!: io_rules injectors.cycle_returns)

lemma run_action_within:
  assumes "keeps d check" and "resolve_path target = d"
  shows "within d (run_action bk plan target check)"
  unfolding run_action_def
proof (rule within_try [OF assms(1)])
  fix r :: "inject_error + unit"
  show "within d (case r of Inl e \<Rightarrow> io_ret (Inl e, None, False) | Inr _ \<Rightarrow>
      if pl_action plan = LatencySpike then run_latency bk plan check
      else if pl_action plan = SyntheticCanaryEncrypt then run_canary plan target check
      else run_marker bk plan target check)"
    using assms
    by (cases r) (auto intro: keeps_within run_latency_rules run_canary_keeps run_marker_within keeps_ret)
qed

lemma run_action_returns: "returns check \<Longrightarrow> returns (run_action bk plan target check)"
  unfolding run_action_def
  by (intro io_rules run_latency_rules run_canary_returns run_marker_returns; assumption)

text \<open>An injection never fails outside its result.\<close>

definition io_total :: "('n, 'e, 'a) io \<Rightarrow> bool" where
  "io_total m \<longleftrightarrow> (\<forall>w r w'. m w = Some (r, w') \<longrightarrow> (\<exists>x. r = Inr x))"

lemma total_ret: "io_total (io_ret v)"
  by (simp add: io_total_def)

lemma total_net: "io_total (io_net (\<lambda>n. case f n of (r, x, n') \<Rightarrow> (Inr r, n')))"
  by (auto simp: io_total_def io_net_def split: prod.splits)

lemma total_try: "(\<And>r. io_total (f r)) \<Longrightarrow> io_total (io_try m f)"
  unfolding io_total_def by (blast elim: io_tryE)

lemma total_then: "io_total m \<Longrightarrow> (\<And>v. io_total (f v)) \<Longrightarrow> io_total (io_then m f)"
  unfolding io_total_def by (blast elim: io_thenE)

lemma total_sum: "(\<And>e. io_total (f e)) \<Longrightarrow> (\<And>v. io_total (g v)) \<Longrightarrow> io_total (case r of Inl e \<Rightarrow> f e | Inr v \<Rightarrow> g v)"
  by (cases r) auto

lemma total_if: "io_total m \<Longrightarrow> io_total m' \<Longrightarrow> io_total (if b then m else m')"
  by simp

lemma total_prod: "(\<And>a b c. io_total (f a b c)) \<Longrightarrow> io_total (case x of (a, b, c) \<Rightarrow> f a b c)"
  by (cases x) auto

lemma run_action_total: "io_total (run_action bk plan target check)"
  unfolding run_action_def run_latency_def run_canary_def run_marker_def injector_cycle_def Let_def
  by (intro total_ret total_net total_try total_then total_sum total_if total_prod)

section \<open>The worker\<close>

definition stage_event :: "string \<Rightarrow> string \<Rightarrow> runner_event \<Rightarrow> bool" where
  "stage_event rid state e \<longleftrightarrow> rv_kind e = KStateChanged \<and> rv_state e = state \<and> rv_run_id e = rid
     \<and> \<not> rv_cleanup_confirmed e \<and> rv_detail e = []"

text \<open>The pairs of kind and state a worker may end with, and what they say of the clean-up.\<close>

definition terminal_event :: "string \<Rightarrow> bool \<Rightarrow> runner_event \<Rightarrow> bool" where
  "terminal_event rid cleaned e \<longleftrightarrow> rv_run_id e = rid \<and> rv_cleanup_confirmed e = cleaned
     \<and> (rv_kind e, rv_state e) \<in> {(KCompleted, ''COMPLETED''), (KCancelled, ''CANCELLED''), (KTimedOut, ''TIMED_OUT''),
          (KFailed, ''CONTROL_LOST''), (KFailed, ''FAILED''), (KFailed, ''CLEANUP_FAILED'')}
     \<and> (rv_state e = ''CLEANUP_FAILED'' \<longleftrightarrow> \<not> cleaned)"

lemma emit_Some:
  assumes "emit rid st w = Some (r, w')"
  shows "\<exists>e. r = Inr () \<and> stage_event rid st e \<and> wd_events w' = wd_events w @ [e] \<and> wd_state w' = st \<and> wd_fs w' = wd_fs w"
  using assms
  by (auto simp: emit_def send_event_def io_defs look_def set_state_def send_def event_def stage_event_def)

lemma emit_thenE:
  assumes "io_then (emit rid st) f w = Some (r, w')"
  obtains e w1 where "stage_event rid st e" and "wd_events w1 = wd_events w @ [e]" and "wd_state w1 = st"
    and "wd_fs w1 = wd_fs w" and "f () w1 = Some (r, w')"
  using assms by (rule io_thenE) (use emit_Some that in blast)+

lemma send_thenE:
  assumes "io_then (send_event kind st rid detail c sim' rep) f w = Some (r, w')"
  obtains i w1 where "wd_events w1 = wd_events w @ [event kind st rid detail c sim' rep i]" and "wd_state w1 = wd_state w"
    and "wd_fs w1 = wd_fs w" and "f () w1 = Some (r, w')"
proof -
  let ?i = "wd_clock w (wd_tick w)"
  let ?w = "w\<lparr>wd_tick := Suc (wd_tick w), wd_events := wd_events w @ [event kind st rid detail c sim' rep ?i]\<rparr>"
  from assms have "f () ?w = Some (r, w')"
    by (simp add: send_event_def io_then_def io_try_def look_def send_def)
  then show thesis by (intro that [of ?w ?i]) simp_all
qed

lemma set_thenE:
  assumes "io_then (set_state st) f w = Some (r, w')"
  obtains w1 where "wd_events w1 = wd_events w" and "wd_state w1 = st" and "wd_fs w1 = wd_fs w" and "f () w1 = Some (r, w')"
proof -
  from assms have "f () (w\<lparr>wd_state := st\<rparr>) = Some (r, w')"
    by (simp add: io_then_def io_try_def set_state_def)
  then show thesis by (intro that [of "w\<lparr>wd_state := st\<rparr>"]) simp_all
qed

lemma terminal_of_event:
  assumes "terminal_of result ce = (kind, state, detail, rep)"
  shows "terminal_event rid (ce = None) (event kind state rid detail (ce = None) sim' rep i)"
  using assms
  by (auto simp: terminal_of_def terminal_event_def event_def Let_def split: option.splits sum.splits if_splits)

lemma worker_end_Some:
  assumes "worker_end req path (result, inner, sim') w = Some (r, w')" and "rooted path (wd_fs w)"
  shows "\<exists>cleaned e1 e2. r = Inr cleaned \<and> wd_events w' = wd_events w @ [e1, e2]
    \<and> stage_event (er_run_id req) ''Cleanup'' e1 \<and> terminal_event (er_run_id req) cleaned e2
    \<and> wd_state w' = rv_state e2
    \<and> (\<forall>q. \<not> prefix path q \<longrightarrow> fs_get (wd_fs w') q = fs_get (wd_fs w) q)
    \<and> (cleaned \<longrightarrow> (\<forall>q. prefix path q \<longrightarrow> fs_get (wd_fs w') q = None))"
proof -
  let ?rid = "er_run_id req"
  from assms(1) obtain e1 w1 c w2 where w1: "stage_event ?rid ''Cleanup'' e1" "wd_events w1 = wd_events w @ [e1]"
      "wd_fs w1 = wd_fs w"
    and c: "sandbox_cleanup path w1 = Some (c, w2)"
    and rest: "(let cleanup_error = (case c of Inl e \<Rightarrow> Some (io_text e) | Inr _ \<Rightarrow> inner); cleaned = (cleanup_error = None);
          (kind, state, detail, report) = terminal_of result cleanup_error in
        io_then (set_state state) (\<lambda>_. io_then (send_event kind state ?rid detail cleaned sim' report) (\<lambda>_.
        io_try (sandbox_cleanup path) (\<lambda>_. io_ret cleaned)))) w2 = Some (r, w')"
    unfolding worker_end_def prod.case by (auto elim!: emit_thenE io_tryE)
  define ce where "ce = (case c of Inl e \<Rightarrow> Some (io_text e) | Inr _ \<Rightarrow> inner)"
  obtain kind state detail rep where t: "terminal_of result ce = (kind, state, detail, rep)" by (metis prod_cases4)
  from rest t have "io_then (set_state state) (\<lambda>_. io_then (send_event kind state ?rid detail (ce = None) sim' rep) (\<lambda>_.
        io_try (sandbox_cleanup path) (\<lambda>_. io_ret (ce = None)))) w2 = Some (r, w')"
    by (simp add: ce_def [symmetric] Let_def)
  then obtain i w3 x where w3: "wd_events w3 = wd_events w2 @ [event kind state ?rid detail (ce = None) sim' rep i]"
      "wd_state w3 = state" "wd_fs w3 = wd_fs w2"
    and x: "sandbox_cleanup path w3 = Some (x, w')" and r: "r = Inr (ce = None)"
    by (auto elim!: set_thenE send_thenE io_tryE)
  let ?e2 = "event kind state ?rid detail (ce = None) sim' rep i"
  have f1: "frame path w1 w2" and f2: "frame path w3 w'"
    using sandbox_cleanup_rules spares_D c x by blast+
  have "terminal_event ?rid (ce = None) ?e2" using terminal_of_event [OF t] by simp
  moreover have "wd_events w' = wd_events w @ [e1, ?e2]" "wd_state w' = rv_state ?e2"
    using f1 f2 w1(2) w3 by (simp_all add: frame_def event_def)
  moreover have "fs_get (wd_fs w') q = fs_get (wd_fs w) q" if "\<not> prefix path q" for q
    using f1 f2 w1(3) w3(3) that by (simp add: frame_def)
  moreover have "fs_get (wd_fs w') q = None" if "ce = None" and q: "prefix path q" for q
  proof -
    have "\<exists>u. c = Inr u" using that(1) by (simp add: ce_def split: sum.splits)
    then have "fs_get (wd_fs w2) q = None"
      using sandbox_cleanup_Some(2) [OF c _ _ q] assms(2) w1(3) by auto
    then show ?thesis using sandbox_cleanup_Some(1) [OF x] w3(3) by simp
  qed
  ultimately show ?thesis using w1(1) r by blast
qed

text \<open>Every run of the worker: refused before it owned a directory, or carried to a terminal event.\<close>

lemma run_worker_Some:
  assumes "run_worker bk req plan w = Some (r, w')"
  defines "rid \<equiv> er_run_id req" and "base \<equiv> resolve_path (pl_target_dir plan)"
  shows "(\<exists>e1 e2. r = Inr False \<and> wd_events w' = wd_events w @ [e1, e2] \<and> stage_event rid ''Validated'' e1
        \<and> rv_kind e2 = KRejected \<and> rv_state e2 = ''REJECTED'' \<and> rv_run_id e2 = rid \<and> \<not> rv_cleanup_confirmed e2
        \<and> grows base (wd_fs w) (wd_fs w') \<and> (path_in_scope (pl_target_dir plan) \<or> wd_fs w' = wd_fs w))
    \<or> (\<exists>cleaned e1 e2 e3 e4 e5. r = Inr cleaned \<and> path_in_scope (pl_target_dir plan) \<and> run_id_ok rid
        \<and> wd_events w' = wd_events w @ [e1, e2, e3, e4, e5]
        \<and> stage_event rid ''Validated'' e1 \<and> stage_event rid ''Armed'' e2 \<and> stage_event rid ''Injecting'' e3
        \<and> stage_event rid ''Cleanup'' e4 \<and> terminal_event rid cleaned e5 \<and> wd_state w' = rv_state e5
        \<and> (\<exists>fs. grows base (wd_fs w) fs \<and> fs_get fs (base @ [rid]) = None
            \<and> (\<forall>q. \<not> prefix (base @ [rid]) q \<longrightarrow> fs_get (wd_fs w') q = fs_get fs q))
        \<and> (cleaned \<longrightarrow> (\<forall>q. prefix (base @ [rid]) q \<longrightarrow> fs_get (wd_fs w') q = None)))"
proof -
  let ?check = "check_loop (worker_timeout_ms req plan)" and ?target = "path_join (pl_target_dir plan) rid"
  from assms(1) obtain e1 w1 sb w2 where w1: "stage_event rid ''Validated'' e1" "wd_events w1 = wd_events w @ [e1]"
      "wd_fs w1 = wd_fs w" and sb: "sandbox_create (pl_target_dir plan) rid w1 = Some (sb, w2)"
    and rest: "(case sb of
        Inl e \<Rightarrow> io_then (send_event KRejected ''REJECTED'' rid (io_text e) False False report0) (\<lambda>_. io_ret False)
      | Inr path \<Rightarrow> io_then (emit rid ''Armed'') (\<lambda>_. io_then (emit rid ''Injecting'') (\<lambda>_.
          io_then (run_action bk plan ?target ?check) (worker_end req path)))) w2 = Some (r, w')"
    unfolding run_worker_def Let_def rid_def by (auto elim!: emit_thenE io_tryE)
  show ?thesis
  proof (cases sb)
    case (Inl e)
    with sandbox_create_Some [OF sb] w1 have s: "silent w1 w2" "grows base (wd_fs w) (wd_fs w2)"
        "path_in_scope (pl_target_dir plan) \<or> wd_fs w2 = wd_fs w" by (simp_all add: base_def)
    from rest Inl obtain i where "wd_events w' = wd_events w2 @ [event KRejected ''REJECTED'' rid (io_text e) False False report0 i]"
        "wd_fs w' = wd_fs w2" "r = Inr False"
      by (auto elim!: send_thenE)
    with s w1 show ?thesis by (auto simp: silent_def event_def)
  next
    case (Inr path)
    with sandbox_create_Some [OF sb] obtain fs where
      p: "silent w1 w2" "path_in_scope (pl_target_dir plan)" "run_id_ok rid" "path = base @ [rid]"
      "grows base (wd_fs w) fs" "fs_get fs path = None" "wd_fs w2 = fs_put path DirNode fs"
      by (auto simp: w1(3) base_def)
    from rest Inr obtain e2 e3 w4 where e23: "stage_event rid ''Armed'' e2" "stage_event rid ''Injecting'' e3"
        "wd_events w4 = wd_events w2 @ [e2, e3]" "wd_fs w4 = wd_fs w2"
      and act: "io_then (run_action bk plan ?target ?check) (worker_end req path) w4 = Some (r, w')"
      by (auto elim!: emit_thenE)
    from act obtain result inner sim' w5 where run: "run_action bk plan ?target ?check w4 = Some (Inr (result, inner, sim'), w5)"
      and fin: "worker_end req path (result, inner, sim') w5 = Some (r, w')"
    proof (cases rule: io_thenE)
      case (1 e)
      with run_action_total [of bk plan ?target ?check] show thesis by (auto simp: io_total_def)
    next
      case (2 v w1)
      with that show thesis by (metis prod_cases3)
    qed
    have dir: "is_dir_at (wd_fs w4) path" using p(7) e23 by simp
    have "resolve_path ?target = path" using p(3,4) by (simp add: resolve_join base_def)
    then have fr: "frame path w4 w5"
      using run_action_within [OF check_rules(1)] run dir unfolding within_def by blast
    then have root: "rooted path (wd_fs w5)" using dir by (auto simp: frame_def rooted_def)
    from worker_end_Some [OF fin root] obtain cleaned e4 e5 where
      fin': "r = Inr cleaned" "wd_events w' = wd_events w5 @ [e4, e5]" "stage_event rid ''Cleanup'' e4"
        "terminal_event rid cleaned e5" "wd_state w' = rv_state e5"
        "\<forall>q. \<not> prefix path q \<longrightarrow> fs_get (wd_fs w') q = fs_get (wd_fs w5) q"
        "cleaned \<longrightarrow> (\<forall>q. prefix path q \<longrightarrow> fs_get (wd_fs w') q = None)"
      unfolding rid_def by blast
    have "wd_events w' = wd_events w @ [e1, e2, e3, e4, e5]"
      using fin'(2) fr e23(3) p(1) w1(2) by (simp add: frame_def silent_def)
    moreover have "\<forall>q. \<not> prefix path q \<longrightarrow> fs_get (wd_fs w') q = fs_get fs q"
      using fin'(6) fr e23(4) p(7) by (auto simp: frame_def)
    ultimately show ?thesis
      using fin' w1(1) e23 p by blast
  qed
qed

section \<open>Confinement, events and termination\<close>

lemma canary_prefix:
  assumes "d \<in> set canary_dirs" and "prefix d base" and "prefix q base" and "''asmodeus-canary'' \<in> set q"
  shows "prefix d q"
proof (rule ccontr)
  assume "\<not> prefix d q"
  with assms(2,3) have "strict_prefix q d"
    by (metis prefix_same_cases strict_prefix_def)
  then have "q = take (length q) d" "length q < length d"
    by (auto simp: strict_prefix_def prefix_def)
  then have "q \<in> set (map (\<lambda>n. take n d) [0..<length d])" by (metis atLeastLessThan_iff image_eqI le0 set_map set_upt)
  moreover have "list_all (\<lambda>d. list_all (\<lambda>q. ''asmodeus-canary'' \<notin> set q) (map (\<lambda>n. take n d) [0..<length d])) canary_dirs"
    by (simp add: canary_dirs_def upt_rec)
  ultimately show False using assms(1,4) by (auto simp: list_all_iff)
qed

text \<open>
  C3: Whatever system calls fail, whenever it is cancelled, times out or loses its lease, and whatever it
  runs, a worker changes the file system only below a canary directory: inside its own run directory,
  and by creating missing parents of it. When it confirms the clean-up, nothing is left at or below the
  run directory.
\<close>
theorem worker_rollback:
  assumes "run_worker bk req plan w = Some (Inr cleaned, w')"
  shows "(\<forall>q. fs_get (wd_fs w') q \<noteq> fs_get (wd_fs w) q \<longrightarrow>
        (\<exists>d \<in> set canary_dirs. prefix d q)
        \<and> (prefix (resolve_path (pl_target_dir plan) @ [er_run_id req]) q
           \<or> prefix q (resolve_path (pl_target_dir plan)) \<and> fs_get (wd_fs w) q = None \<and> fs_get (wd_fs w') q = Some DirNode))
    \<and> (cleaned \<longrightarrow> (\<forall>q. prefix (resolve_path (pl_target_dir plan) @ [er_run_id req]) q \<longrightarrow> fs_get (wd_fs w') q = None))"
proof -
  let ?base = "resolve_path (pl_target_dir plan)"
  let ?run = "?base @ [er_run_id req]"
  have canary: "\<exists>d \<in> set canary_dirs. prefix d q"
    if "path_in_scope (pl_target_dir plan)" and "prefix ?run q \<or> prefix q ?base \<and> ''asmodeus-canary'' \<in> set q" for q
  proof -
    from in_scope_canary [OF that(1)] obtain d where d: "d \<in> set canary_dirs" "prefix d ?base" by blast
    have "prefix ?base q \<or> prefix q ?base \<and> ''asmodeus-canary'' \<in> set q" using that(2) append_prefixD by blast
    with d canary_prefix [OF d] show ?thesis using prefix_order.trans by blast
  qed
  from run_worker_Some [OF assms] show ?thesis
  proof (elim disjE exE conjE)
    assume g: "grows ?base (wd_fs w) (wd_fs w')" and s: "path_in_scope (pl_target_dir plan)" and "Inr cleaned = Inr False"
    then show ?thesis using canary [OF s] by (auto simp: grows_def)
  next
    assume "wd_fs w' = wd_fs w" and "Inr cleaned = Inr False"
    then show ?thesis by simp
  next
    fix c fs
    assume s: "path_in_scope (pl_target_dir plan)" and g: "grows ?base (wd_fs w) fs"
      and out: "\<forall>q. \<not> prefix ?run q \<longrightarrow> fs_get (wd_fs w') q = fs_get fs q"
      and gone: "c \<longrightarrow> (\<forall>q. prefix ?run q \<longrightarrow> fs_get (wd_fs w') q = None)" and c: "Inr cleaned = Inr c"
    have "prefix ?run q \<or> prefix q ?base \<and> ''asmodeus-canary'' \<in> set q \<and> fs_get (wd_fs w) q = None \<and> fs_get (wd_fs w') q = Some DirNode"
      if "fs_get (wd_fs w') q \<noteq> fs_get (wd_fs w) q" for q
      using g out that unfolding grows_def by (metis)
    with canary [OF s] gone c show ?thesis by blast
  qed
qed

text \<open>
  C0: The events of a run have one of two shapes, all with its identifier: \<open>Validated\<close> and a rejection, or
  \<open>Validated\<close>, \<open>Armed\<close>, \<open>Injecting\<close>, \<open>Cleanup\<close> and a terminal event whose kind and state agree. No other
  event is terminal, the terminal one confirms the clean-up exactly when the worker reports it, and a
  completion always does.
\<close>
theorem worker_event_language:
  assumes "run_worker bk req plan w = Some (r, w')"
  shows "\<exists>cleaned stages final. r = Inr cleaned \<and> wd_events w' = wd_events w @ stages @ [final]
    \<and> (\<forall>e \<in> set stages. rv_kind e = KStateChanged \<and> \<not> rv_cleanup_confirmed e)
    \<and> (\<forall>e \<in> set (stages @ [final]). rv_run_id e = er_run_id req)
    \<and> rv_cleanup_confirmed final = cleaned
    \<and> (map rv_state stages = [''Validated''] \<and> (rv_kind final, rv_state final) = (KRejected, ''REJECTED'')
      \<or> map rv_state stages = [''Validated'', ''Armed'', ''Injecting'', ''Cleanup'']
        \<and> (rv_kind final, rv_state final) \<in> {(KCompleted, ''COMPLETED''), (KCancelled, ''CANCELLED''),
             (KTimedOut, ''TIMED_OUT''), (KFailed, ''CONTROL_LOST''), (KFailed, ''FAILED''), (KFailed, ''CLEANUP_FAILED'')}
        \<and> (rv_state final = ''CLEANUP_FAILED'' \<longleftrightarrow> \<not> cleaned))"
  using run_worker_Some [OF assms]
proof (elim disjE exE conjE)
  fix e1 e2
  assume "wd_events w' = wd_events w @ [e1, e2]" "r = Inr False" "stage_event (er_run_id req) ''Validated'' e1"
    "rv_kind e2 = KRejected" "rv_state e2 = ''REJECTED''" "rv_run_id e2 = er_run_id req" "\<not> rv_cleanup_confirmed e2"
  then show ?thesis by (intro exI [of _ False] exI [of _ "[e1]"] exI [of _ e2]) (simp add: stage_event_def)
next
  fix e1 e2
  assume "wd_events w' = wd_events w @ [e1, e2]" "r = Inr False" "stage_event (er_run_id req) ''Validated'' e1"
    "rv_kind e2 = KRejected" "rv_state e2 = ''REJECTED''" "rv_run_id e2 = er_run_id req" "\<not> rv_cleanup_confirmed e2"
  then show ?thesis by (intro exI [of _ False] exI [of _ "[e1]"] exI [of _ e2]) (simp add: stage_event_def)
next
  fix cleaned e1 e2 e3 e4 e5
  assume "wd_events w' = wd_events w @ [e1, e2, e3, e4, e5]" "r = Inr cleaned" "stage_event (er_run_id req) ''Validated'' e1"
    "stage_event (er_run_id req) ''Armed'' e2" "stage_event (er_run_id req) ''Injecting'' e3"
    "stage_event (er_run_id req) ''Cleanup'' e4" "terminal_event (er_run_id req) cleaned e5"
  then show ?thesis
    by (intro exI [of _ cleaned] exI [of _ "[e1, e2, e3, e4]"] exI [of _ e5]) (auto simp: stage_event_def terminal_event_def)
qed

section \<open>The worker returns\<close>

lemma returns_prod3: "(\<And>a b c. returns (f a b c)) \<Longrightarrow> returns (case x of (a, b, c) \<Rightarrow> f a b c)"
  and returns_prod4: "(\<And>a b c d. returns (g a b c d)) \<Longrightarrow> returns (case y of (a, b, c, d) \<Rightarrow> g a b c d)"
  by (cases x, simp) (cases y, simp)

lemma returns_io_error:
  "(\<And>x. returns (f x)) \<Longrightarrow> (\<And>x. returns (g x)) \<Longrightarrow> (\<And>x. returns (h x)) \<Longrightarrow>
    returns (case e of IoNotFound x \<Rightarrow> f x | IoExists x \<Rightarrow> g x | IoOther x \<Rightarrow> h x)"
  by (cases e) auto

lemma sandbox_create_returns: "returns (sandbox_create target rid)"
proof -
  have parent: "returns (sandbox_parent p)" for p
    unfolding sandbox_parent_def by (intro io_rules returns_io_error)
  have "returns (sandbox_parents b p cs)" for b p cs
    by (induction cs arbitrary: b p) (auto simp: Let_def intro!: io_rules parent)
  then show ?thesis unfolding sandbox_create_def Let_def by (intro io_rules)
qed

lemma send_rules: "returns (send_event kind st rid detail c sim' rep)" "returns (emit rid st)"
  unfolding emit_def send_event_def by (intro io_rules)+

lemma run_worker_returns: "returns (run_worker bk req plan)"
proof -
  have fin: "returns (worker_end req path x)" for path x
    unfolding worker_end_def Let_def by (intro returns_prod3 returns_prod4 io_rules send_rules)
  show ?thesis
    unfolding run_worker_def Let_def
    by (intro io_rules send_rules sandbox_create_returns run_action_returns fin)
qed

text \<open>
  C19: A worker always ends: when its clock passes every bound, it returns whether it cleaned up, after
  finitely many looks at the clock, whatever system calls fail and whatever the CPU budget asks it to
  wait for.
\<close>
theorem worker_returns:
  assumes "\<And>bound. \<exists>n. \<forall>k \<ge> n. bound \<le> it_elapsed (wd_clock w k)"
  shows "\<exists>cleaned w'. run_worker bk req plan w = Some (Inr cleaned, w') \<and> wd_tick w \<le> wd_tick w'"
proof -
  have "live w" using assms by (simp add: live_def)
  from returns_D [OF run_worker_returns this] obtain r w' where
    r: "run_worker bk req plan w = Some (r, w')" "wd_tick w \<le> wd_tick w'" by blast
  from run_worker_Some [OF r(1)] have "\<exists>c. r = Inr c" by blast
  with r show ?thesis by blast
qed

section \<open>A concrete run\<close>

definition watchdog_plan :: execution_plan where
  "watchdog_plan = \<lparr>pl_action = WatchdogProbe, pl_target_dir = ''/tmp/asmodeus-canary/'', pl_file_count = 20,
     pl_chunk_size_kb = 64, pl_io_rate_per_sec = 0, pl_duration_ms = 0, pl_max_duration_sec = 60,
     pl_cpu_limit_percent = 25, pl_target_cidr = ''127.0.0.1/32'', pl_iface = ''lo'', pl_latency_ms = 100,
     pl_jitter_ms = 0, pl_loss_percent = 0\<rparr>"

definition watchdog_request :: execute_request where
  "watchdog_request = \<lparr>er_scenario_id = ''AGENT_CRASH_ENDPOINT'', er_manifest = [], er_signature = [], er_public_key = [],
     er_target_dir = ''/tmp/asmodeus-canary/'', er_file_count = 20, er_chunk_size_kb = 64, er_run_id = ''run-1'',
     er_timeout_sec = 30\<rparr>"

lemma quiet_live: "live (quiet_world net)"
  unfolding live_def by (auto simp: quiet_world_def)

lemma watchdog_run: "\<exists>r w'. run_worker sim watchdog_request watchdog_plan (quiet_world sim_new) = Some (r, w')"
  using returns_D [OF run_worker_returns [of sim watchdog_request watchdog_plan] quiet_live [of sim_new]] by blast

theorem worker_rollback_witness:
  "\<exists>cleaned w'. run_worker sim watchdog_request watchdog_plan (quiet_world sim_new) = Some (Inr cleaned, w')
     \<and> (cleaned \<longrightarrow> fs_get (wd_fs w') [''tmp'', ''asmodeus-canary'', ''run-1''] = None)"
proof -
  obtain r w' where run: "run_worker sim watchdog_request watchdog_plan (quiet_world sim_new) = Some (r, w')"
    using watchdog_run by blast
  then obtain cleaned where "r = Inr cleaned" using run_worker_Some by blast
  with run have "run_worker sim watchdog_request watchdog_plan (quiet_world sim_new) = Some (Inr cleaned, w')" by simp
  moreover from worker_rollback [OF this]
  have "cleaned \<longrightarrow> fs_get (wd_fs w') [''tmp'', ''asmodeus-canary'', ''run-1''] = None"
    by (simp add: watchdog_plan_def watchdog_request_def resolve_path_def resolve_step.simps)
  ultimately show ?thesis by blast
qed

theorem worker_event_language_witness:
  "\<exists>w' r final. run_worker sim watchdog_request watchdog_plan (quiet_world sim_new) = Some (r, w')
     \<and> last (wd_events w') = final \<and> rv_run_id final = ''run-1''"
proof -
  obtain r w' where run: "run_worker sim watchdog_request watchdog_plan (quiet_world sim_new) = Some (r, w')"
    using watchdog_run by blast
  from worker_event_language [OF run] run show ?thesis by (fastforce simp: watchdog_request_def)
qed

theorem worker_returns_witness:
  "\<exists>cleaned w'. run_worker sim watchdog_request watchdog_plan (quiet_world sim_new) = Some (Inr cleaned, w')"
  using worker_returns [of "quiet_world sim_new" sim watchdog_request watchdog_plan] quiet_live [of sim_new]
  unfolding live_def by blast

text \<open>A refusal of the network gate that names a marker of another ending is published as that ending.\<close>

lemma refused_iface_reads_cancelled:
  "terminal_of (Inl (InjIo (IoOther (chaos_error_text (IfaceOutOfScope ''CANCELLED''))))) None =
     (KCancelled, ''CANCELLED'', ''io error: interface out of scope: CANCELLED'', report0)"
  by (simp add: terminal_of_def Let_def starts_with_def)

end
