(* ===== verification/Runner_Service.thy ===== *)
theory Runner_Service
  imports Runner_Safety
begin

text \<open>
  \<open>RunnerService\<close> of \<open>crates/asmodeus-runner/src/service.rs\<close>: the slot that holds the active run and the
  three calls of the control channel. A worker is known by the number of its admission (the \<open>Arc\<close> that
  \<open>ptr_eq\<close> compares); its state, cancellation flag and heartbeat are the shared cells of the source. The
  steps interleave calls with what workers publish and with their ends.
\<close>

record active =
  wk_id :: string
  wk_state :: string
  wk_cancelled :: bool
  wk_heartbeat :: nat
  wk_returned :: bool

record service =
  sv_workers :: "active list"
  sv_slot :: "nat option"
  sv_trusted_key :: "bytes option"
  sv_healthy :: bool

definition with_trusted_key :: "bytes \<Rightarrow> service" where
  "with_trusted_key key = \<lparr>sv_workers = [], sv_slot = None, sv_trusted_key = Some key, sv_healthy = True\<rparr>"

definition TERMINAL_STATES :: "string list" where
  "TERMINAL_STATES = [''COMPLETED'', ''CANCELLED'', ''TIMED_OUT'', ''CONTROL_LOST'', ''FAILED'', ''CLEANUP_FAILED'', ''REJECTED'']"

definition slot_worker :: "service \<Rightarrow> active option" where
  "slot_worker s = map_option (\<lambda>t. sv_workers s ! t) (sv_slot s)"

definition svc_busy :: "service \<Rightarrow> bool" where
  "svc_busy s \<longleftrightarrow> (case slot_worker s of None \<Rightarrow> False | Some a \<Rightarrow> wk_state a \<notin> set TERMINAL_STATES)"

text \<open>\<open>execute\<close>: validate, then take the slot unless its run is still going; the worker starts as \<open>Queued\<close>.\<close>

definition svc_execute ::
  "ed25519 \<Rightarrow> manifest_lib \<Rightarrow> execute_request \<Rightarrow> nat \<Rightarrow> service \<Rightarrow> (status + execution_plan) \<times> service" where
  "svc_execute E L req now s =
     (case runner_validate E L (sv_trusted_key s) req of
        Inl e \<Rightarrow> (Inl e, s)
      | Inr plan \<Rightarrow>
          if svc_busy s then (Inl (ResourceExhausted ''runner is busy''), s)
          else (Inr plan, s\<lparr>sv_workers := sv_workers s @ [\<lparr>wk_id = er_run_id req, wk_state = ''Queued'',
                              wk_cancelled = False, wk_heartbeat = now, wk_returned = False\<rparr>],
                            sv_slot := Some (length (sv_workers s))\<rparr>))"

definition set_worker :: "nat \<Rightarrow> (active \<Rightarrow> active) \<Rightarrow> service \<Rightarrow> service" where
  "set_worker t f s = s\<lparr>sv_workers := (sv_workers s)[t := f (sv_workers s ! t)]\<rparr>"

text \<open>The end of a worker: its result becomes the health, and the slot is freed if it still holds it.\<close>

definition svc_finish :: "nat \<Rightarrow> bool \<Rightarrow> service \<Rightarrow> service" where
  "svc_finish t result s =
     (let s = (set_worker t (\<lambda>a. a\<lparr>wk_returned := True\<rparr>) s)\<lparr>sv_healthy := result\<rparr> in
      if sv_slot s = Some t then s\<lparr>sv_slot := None\<rparr> else s)"

record heartbeat_reply =
  hr_state :: string
  hr_healthy :: bool
  hr_cpu_usage_pct :: nat
  hr_active_exercise_id :: string
  hr_version :: string

definition RUNNER_VERSION :: string where
  "RUNNER_VERSION = ''0.1.0''"

definition svc_heartbeat :: "string \<Rightarrow> nat \<Rightarrow> service \<Rightarrow> heartbeat_reply \<times> service" where
  "svc_heartbeat exercise_id now s =
     (case sv_slot s of
        Some t \<Rightarrow>
          (let a = sv_workers s ! t in
           (\<lparr>hr_state = wk_state a, hr_healthy = sv_healthy s, hr_cpu_usage_pct = 0, hr_active_exercise_id = wk_id a,
              hr_version = RUNNER_VERSION\<rparr>,
            if exercise_id = wk_id a then set_worker t (\<lambda>a. a\<lparr>wk_heartbeat := now\<rparr>) s else s))
      | None \<Rightarrow>
          (\<lparr>hr_state = ''Idle'', hr_healthy = sv_healthy s, hr_cpu_usage_pct = 0, hr_active_exercise_id = [],
            hr_version = RUNNER_VERSION\<rparr>, s))"

definition svc_cancel :: "string \<Rightarrow> service \<Rightarrow> (status + string) \<times> service" where
  "svc_cancel run_id s =
     (case sv_slot s of
        Some t \<Rightarrow>
          if wk_id (sv_workers s ! t) = run_id
          then (Inr ''CANCELLING'', set_worker t (\<lambda>a. a\<lparr>wk_cancelled := True\<rparr>) s)
          else (Inl (NotFound ''active run not found''), s)
      | None \<Rightarrow> (Inl (NotFound ''active run not found''), s))"

section \<open>Interleaving\<close>

text \<open>A worker is going on until it publishes a terminal state or returns; it publishes nothing after either.\<close>

definition going :: "service \<Rightarrow> nat \<Rightarrow> bool" where
  "going s t \<longleftrightarrow> t < length (sv_workers s) \<and> \<not> wk_returned (sv_workers s ! t)
     \<and> wk_state (sv_workers s ! t) \<notin> set TERMINAL_STATES"

inductive svc_step :: "ed25519 \<Rightarrow> manifest_lib \<Rightarrow> service \<Rightarrow> service \<Rightarrow> bool" for E L where
  Execute: "svc_execute E L req now s = (r, s') \<Longrightarrow> svc_step E L s s'"
| Publish: "going s t \<Longrightarrow> svc_step E L s (set_worker t (\<lambda>a. a\<lparr>wk_state := state\<rparr>) s)"
| Return: "t < length (sv_workers s) \<Longrightarrow> svc_step E L s (svc_finish t result s)"
| Beat: "svc_heartbeat exercise_id now s = (r, s') \<Longrightarrow> svc_step E L s s'"
| Cancel: "svc_cancel run_id s = (r, s') \<Longrightarrow> svc_step E L s s'"

inductive svc_reach :: "ed25519 \<Rightarrow> manifest_lib \<Rightarrow> bytes \<Rightarrow> service \<Rightarrow> bool" for E L key where
  Start: "svc_reach E L key (with_trusted_key key)"
| Step: "svc_reach E L key s \<Longrightarrow> svc_step E L s s' \<Longrightarrow> svc_reach E L key s'"

definition svc_inv :: "service \<Rightarrow> bool" where
  "svc_inv s \<longleftrightarrow> (\<forall>t. going s t \<longrightarrow> sv_slot s = Some t)
     \<and> (\<forall>t. sv_slot s = Some t \<longrightarrow> t < length (sv_workers s) \<and> \<not> wk_returned (sv_workers s ! t))"

lemma set_worker_sel [simp]:
  "sv_slot (set_worker t f s) = sv_slot s" "length (sv_workers (set_worker t f s)) = length (sv_workers s)"
  "sv_trusted_key (set_worker t f s) = sv_trusted_key s" "sv_healthy (set_worker t f s) = sv_healthy s"
  by (simp_all add: set_worker_def)

lemma set_worker_nth:
  "u < length (sv_workers s) \<Longrightarrow> sv_workers (set_worker t f s) ! u = (if u = t then f (sv_workers s ! u) else sv_workers s ! u)"
  by (simp add: set_worker_def nth_list_update)

text \<open>An update that wakes no worker and keeps its end keeps the invariant.\<close>

lemma set_worker_inv:
  assumes "svc_inv s" and "\<And>a. wk_returned (f a) = wk_returned a"
    and "\<not> going s t \<Longrightarrow> wk_state (f (sv_workers s ! t)) = wk_state (sv_workers s ! t)"
  shows "svc_inv (set_worker t f s)"
proof -
  have "going s u" if g: "going (set_worker t f s) u" for u
  proof (cases "u = t")
    case False
    with g show ?thesis by (auto simp: going_def set_worker_nth)
  next
    case True
    have u: "t < length (sv_workers s)" using g True by (simp add: going_def)
    show ?thesis
    proof (rule ccontr)
      assume "\<not> going s u"
      with assms(3) True have "wk_state (f (sv_workers s ! t)) = wk_state (sv_workers s ! t)" by simp
      with g u True have "going s t" by (simp add: going_def set_worker_nth assms(2))
      with True \<open>\<not> going s u\<close> show False by simp
    qed
  qed
  moreover have "u < length (sv_workers (set_worker t f s)) \<and> \<not> wk_returned (sv_workers (set_worker t f s) ! u)"
    if "sv_slot (set_worker t f s) = Some u" for u
  proof -
    from that assms(1) have "u < length (sv_workers s)" "\<not> wk_returned (sv_workers s ! u)" by (simp_all add: svc_inv_def)
    then show ?thesis by (auto simp: set_worker_nth assms(2))
  qed
  ultimately show ?thesis using assms(1) by (simp add: svc_inv_def)
qed

lemma svc_step_inv:
  assumes "svc_step E L s s'" and "svc_inv s"
  shows "svc_inv s'"
  using assms
proof (cases rule: svc_step.cases)
  case (Execute req now r)
  show ?thesis
  proof (cases r)
    case (Inl e)
    with Execute(1) have "svc_execute E L req now s = (Inl e, s')" by simp
    then have "s' = s" unfolding svc_execute_def by (simp split: sum.splits if_splits)
    with assms(2) show ?thesis by simp
  next
    case (Inr plan)
    with Execute(1) have run: "svc_execute E L req now s = (Inr plan, s')" by simp
    have free: "\<not> svc_busy s"
      and s': "s' = s\<lparr>sv_workers := sv_workers s @ [\<lparr>wk_id = er_run_id req, wk_state = ''Queued'',
            wk_cancelled = False, wk_heartbeat = now, wk_returned = False\<rparr>], sv_slot := Some (length (sv_workers s))\<rparr>"
      using run unfolding svc_execute_def by (simp_all split: sum.splits if_splits)
    have idle: "\<not> going s t" for t
    proof
      assume g: "going s t"
      with assms(2) have "sv_slot s = Some t" by (simp add: svc_inv_def)
      with g have "svc_busy s" by (simp add: svc_busy_def slot_worker_def going_def)
      with free show False by simp
    qed
    have "t = length (sv_workers s)" if "going s' t" for t
      using that idle [of t] by (auto simp: going_def s' nth_append less_Suc_eq split: if_splits)
    then show ?thesis by (auto simp: svc_inv_def s')
  qed
next
  case (Publish t state)
  then show ?thesis using assms(2) by (auto intro: set_worker_inv)
next
  case (Return t result)
  have gone: "going s u \<and> u \<noteq> t" if "going s' u" for u
    using that Return by (auto simp: going_def svc_finish_def Let_def set_worker_nth split: if_splits)
  show ?thesis
    unfolding svc_inv_def
  proof (intro conjI allI impI)
    fix u
    assume "going s' u"
    with gone assms(2) have "sv_slot s = Some u" "u \<noteq> t" by (auto simp: svc_inv_def)
    then show "sv_slot s' = Some u" using Return by (simp add: svc_finish_def Let_def)
  next
    fix u
    assume "sv_slot s' = Some u"
    then have "sv_slot s = Some u" "u \<noteq> t" using Return by (auto simp: svc_finish_def Let_def split: if_splits)
    with assms(2) show "u < length (sv_workers s')" and "\<not> wk_returned (sv_workers s' ! u)"
      using Return by (auto simp: svc_inv_def svc_finish_def Let_def set_worker_nth)
  qed
next
  case (Beat exercise_id now r)
  have "s' = s \<or> (\<exists>t n. s' = set_worker t (\<lambda>a. a\<lparr>wk_heartbeat := n\<rparr>) s)"
    using Beat by (auto simp: svc_heartbeat_def Let_def split: option.splits if_splits)
  then show ?thesis using assms(2) by (auto intro: set_worker_inv)
next
  case (Cancel run_id r)
  have "s' = s \<or> (\<exists>t. s' = set_worker t (\<lambda>a. a\<lparr>wk_cancelled := True\<rparr>) s)"
    using Cancel by (auto simp: svc_cancel_def split: option.splits if_splits)
  then show ?thesis using assms(2) by (auto intro: set_worker_inv)
qed

lemma svc_reach_inv: "svc_reach E L key s \<Longrightarrow> svc_inv s"
proof (induction rule: svc_reach.induct)
  case Start
  then show ?case by (simp add: svc_inv_def with_trusted_key_def going_def)
next
  case (Step s s')
  then show ?case using svc_step_inv by blast
qed

text \<open>
  C11: A runner drives one run at a time, and the control plane keeps its hold on it: in every interleaving
  of admissions, calls, published states and returning workers, at most one worker is still going, it is
  the one in the slot, a second request is refused as long as it goes on, and a cancellation or a
  heartbeat under its identifier reaches it and no other worker.
\<close>
theorem runner_exclusive:
  assumes "svc_reach E L key s" and "going s t"
  shows "(\<forall>u. going s u \<longrightarrow> u = t)
    \<and> (\<forall>req now. \<exists>e. svc_execute E L req now s = (Inl e, s))
    \<and> (\<exists>s'. svc_cancel (wk_id (sv_workers s ! t)) s = (Inr ''CANCELLING'', s')
          \<and> wk_cancelled (sv_workers s' ! t) \<and> (\<forall>u. u \<noteq> t \<longrightarrow> sv_workers s' ! u = sv_workers s ! u))
    \<and> (\<forall>now. \<exists>r s'. svc_heartbeat (wk_id (sv_workers s ! t)) now s = (r, s')
          \<and> wk_heartbeat (sv_workers s' ! t) = now \<and> hr_active_exercise_id r = wk_id (sv_workers s ! t)
          \<and> (\<forall>u. u \<noteq> t \<longrightarrow> sv_workers s' ! u = sv_workers s ! u))"
proof -
  have inv: "svc_inv s" by (rule svc_reach_inv [OF assms(1)])
  with assms(2) have slot: "sv_slot s = Some t" unfolding svc_inv_def by blast
  have t: "t < length (sv_workers s)" using assms(2) by (simp add: going_def)
  have "svc_busy s" using slot assms(2) by (simp add: svc_busy_def slot_worker_def going_def)
  then have refused: "\<forall>req now. \<exists>e. svc_execute E L req now s = (Inl e, s)"
    by (auto simp: svc_execute_def split: sum.split)
  have single: "\<forall>u. going s u \<longrightarrow> u = t"
  proof (intro allI impI)
    fix u
    assume "going s u"
    with inv have "sv_slot s = Some u" by (simp add: svc_inv_def)
    with slot show "u = t" by simp
  qed
  have cancel: "\<exists>s'. svc_cancel (wk_id (sv_workers s ! t)) s = (Inr ''CANCELLING'', s')
      \<and> wk_cancelled (sv_workers s' ! t) \<and> (\<forall>u. u \<noteq> t \<longrightarrow> sv_workers s' ! u = sv_workers s ! u)"
    using slot t by (intro exI [of _ "set_worker t (\<lambda>a. a\<lparr>wk_cancelled := True\<rparr>) s"])
      (simp add: svc_cancel_def set_worker_def)
  have beat: "\<forall>now. \<exists>r s'. svc_heartbeat (wk_id (sv_workers s ! t)) now s = (r, s')
      \<and> wk_heartbeat (sv_workers s' ! t) = now \<and> hr_active_exercise_id r = wk_id (sv_workers s ! t)
      \<and> (\<forall>u. u \<noteq> t \<longrightarrow> sv_workers s' ! u = sv_workers s ! u)"
    using slot t by (simp add: svc_heartbeat_def set_worker_def Let_def)
  show ?thesis by (intro conjI) (rule single refused cancel beat)+
qed

text \<open>A request for a built-in scenario, signed with the key the runner trusts.\<close>

definition builtin_request :: "ed25519 \<Rightarrow> manifest_lib \<Rightarrow> bytes \<Rightarrow> builtin \<Rightarrow> string \<Rightarrow> execute_request" where
  "builtin_request E L key b run_id =
     (let manifest = ml_to_vec L (builtin_manifest b) in
      \<lparr>er_scenario_id = bi_id b, er_manifest = manifest, er_signature = ed_sign E manifest key,
       er_public_key = ed_public E key, er_target_dir = bi_target_path b, er_file_count = 20, er_chunk_size_kb = 64,
       er_run_id = run_id, er_timeout_sec = 60\<rparr>)"

lemma builtin_request_accepted:
  assumes "ed_correct E" and "ed_sk_ok E key" and "manifest_lib_ok L" and "b \<in> set BUILTINS" and "run_id_ok rid"
  shows "\<exists>plan. runner_validate E L (Some (ed_public E key)) (builtin_request E L key b rid) = Inr plan"
proof -
  have ok: "row_ok b" using assms(4) builtin_rows by blast
  obtain p where p: "from_manifest (builtin_manifest b) = Inr p" "pl_target_dir p = bi_target_path b"
      "pl_file_count p = 20" "pl_chunk_size_kb p = 64" "pl_max_duration_sec p = 60"
    using builtin_plan [OF ok] by blast
  have "parse_and_validate L (ml_to_vec L (builtin_manifest b)) = Inr (builtin_manifest b)" "ml_utf8 L (ml_to_vec L (builtin_manifest b))"
    using assms(3,4) builtin_validates [OF ok] by (auto simp: parse_and_validate_Inr manifest_lib_ok_def)
  moreover have "is_valid E x (ed_sign E x key) (ed_public E key)" for x
    using assms(1,2) by (auto simp: is_valid_iff ed_correct_def)
  ultimately show ?thesis
    using p assms(5) by (simp add: runner_validate_def builtin_request_def Let_def ok_or_def)
qed

lemma example_going:
  "\<exists>s. svc_reach toy_ed25519 example_lib ''key'' s \<and> going s 0"
proof -
  obtain b where b: "b \<in> set BUILTINS" by (simp add: BUILTINS_def) blast
  let ?s = "with_trusted_key ''key''" and ?req = "builtin_request toy_ed25519 example_lib ''key'' b ''run-1''"
  have "run_id_ok ''run-1''" by (simp add: run_id_ok_def is_ascii_alphanumeric_def is_ascii_digit_def byte_def)
  then obtain plan where "runner_validate toy_ed25519 example_lib (Some ''key'') ?req = Inr plan"
    using builtin_request_accepted [OF toy_correct _ example_lib_ok b, of "''key''"] by (auto simp: toy_ed25519_def)
  then have "svc_execute toy_ed25519 example_lib ?req 0 ?s = (Inr plan,
      ?s\<lparr>sv_workers := [\<lparr>wk_id = er_run_id ?req, wk_state = ''Queued'', wk_cancelled = False, wk_heartbeat = 0,
        wk_returned = False\<rparr>], sv_slot := Some 0\<rparr>)" (is "_ = (_, ?t)")
    by (simp add: svc_execute_def with_trusted_key_def svc_busy_def slot_worker_def)
  then have "svc_reach toy_ed25519 example_lib ''key'' ?t"
    by (intro svc_reach.Step [OF svc_reach.Start] svc_step.Execute)
  moreover have "going ?t 0" by (simp add: going_def TERMINAL_STATES_def)
  ultimately show ?thesis by blast
qed

theorem runner_exclusive_witness:
  "\<exists>s. svc_reach toy_ed25519 example_lib ''key'' s \<and> going s 0
     \<and> fst (svc_cancel (wk_id (sv_workers s ! 0)) s) = Inr ''CANCELLING''"
proof -
  obtain s where s: "svc_reach toy_ed25519 example_lib ''key'' s" "going s 0" using example_going by blast
  from runner_exclusive [OF s] s show ?thesis by (metis fst_conv)
qed

end
