(* ===== verification/Dispatch.thy ===== *)
theory Dispatch
  imports Runner_Service
begin

text \<open>
  \<open>crates/asmodeus-control-plane/src/dispatch.rs\<close>: the control plane's end of the channel to a runner. It
  connects, sends the request, folds the event stream into an outcome, and on a timer forwards a
  cancellation and renews the execution lease. What happens on the channel before the deadline (messages,
  ticks and the answers to the calls of a tick) is a list; when it runs out, the deadline has passed.
\<close>

section \<open>Connecting\<close>

definition connect_target :: "string \<Rightarrow> bool \<Rightarrow> status + string" where
  "connect_target endpoint has_tls =
     (let target =
        (if has_tls \<and> starts_with endpoint ''http://'' then ''https://'' @ drop 7 endpoint
         else if \<not> str_contains endpoint ''://''
           then (if has_tls then ''https://'' @ endpoint else ''http://'' @ endpoint)
         else endpoint)
      in
      if starts_with target ''https://'' \<and> \<not> has_tls
      then Inl (InvalidArgument (''endpoint requests TLS (https://) but no client mTLS is configured; '' @
             ''set ASMODEUS_CLIENT_TLS_* or use an http:// endpoint''))
      else Inr target)"

text \<open>\<open>channel\<close> is what opening a channel to a target gives: a bad address, TLS settings, an unreachable host.\<close>

definition connect_with_tls :: "(string \<Rightarrow> status + unit) \<Rightarrow> string \<Rightarrow> bool \<Rightarrow> status + unit" where
  "connect_with_tls channel endpoint has_tls = and_then (connect_target endpoint has_tls) channel"

section \<open>The event stream\<close>

record dispatch_outcome =
  do_final_state :: string
  do_files_created :: nat
  do_bytes_written :: nat
  do_inject_ms :: nat
  do_completed :: bool
  do_terminal :: bool
  do_simulated :: bool
  do_cleanup_confirmed :: bool
  do_detail :: string
  do_rejected :: "string option"

definition default_outcome :: dispatch_outcome where
  "default_outcome = \<lparr>do_final_state = [], do_files_created = 0, do_bytes_written = 0, do_inject_ms = 0,
     do_completed = False, do_terminal = False, do_simulated = False, do_cleanup_confirmed = False,
     do_detail = [], do_rejected = None\<rparr>"

text \<open>A tick: the time, the cancellation flag, and how the calls it makes end (\<open>None\<close>: timed out).\<close>

record tick =
  tk_now :: nat
  tk_cancel :: bool
  tk_cancel_reply :: "(status + unit) option"
  tk_beat_reply :: "(status + unit) option"
  tk_beat_done :: nat

datatype happening = Message "status + runner_event option" | Tick tick

datatype lease_call = CallCancel string | CallHeartbeat string

text \<open>The loop's variables, the live state it publishes and the calls it made.\<close>

record dispatching =
  ds_outcome :: dispatch_outcome
  ds_cancel_sent :: bool
  ds_last_beat :: "nat option"
  ds_status :: string
  ds_calls :: "lease_call list"

definition dispatch_start :: "string \<Rightarrow> dispatching" where
  "dispatch_start status = \<lparr>ds_outcome = default_outcome, ds_cancel_sent = False, ds_last_beat = None,
     ds_status = status, ds_calls = []\<rparr>"

definition terminal_kind :: "event_kind \<Rightarrow> bool" where
  "terminal_kind k \<longleftrightarrow> k = KCompleted \<or> k = KCancelled \<or> k = KFailed \<or> k = KTimedOut \<or> k = KRejected"

text \<open>One event of the run, folded into the outcome.\<close>

definition fold_event :: "runner_event \<Rightarrow> dispatch_outcome \<Rightarrow> dispatch_outcome" where
  "fold_event ev out =
     (let out = out\<lparr>do_final_state := to_ascii_uppercase (rv_state ev)\<rparr> in
      if terminal_kind (rv_kind ev)
      then out\<lparr>do_terminal := True, do_simulated := rv_simulated ev, do_completed := (rv_kind ev = KCompleted),
             do_cleanup_confirmed := rv_cleanup_confirmed ev, do_files_created := rv_files_created ev,
             do_bytes_written := rv_bytes_written ev, do_inject_ms := rv_inject_ms ev, do_detail := rv_detail ev,
             do_rejected := (if rv_kind ev = KRejected then Some (rv_detail ev) else do_rejected out)\<rparr>
      else out)"

definition on_event :: "runner_event \<Rightarrow> dispatching \<Rightarrow> dispatching" where
  "on_event ev s =
     (let out = fold_event ev (ds_outcome s) in s\<lparr>ds_outcome := out, ds_status := do_final_state out\<rparr>)"

text \<open>A tick: the cancellation once, until the runner knows of it; then the heartbeat, once a second.\<close>

definition tick_cancel :: "string \<Rightarrow> tick \<Rightarrow> dispatching \<Rightarrow> (status + unit) \<times> dispatching" where
  "tick_cancel run_id t s =
     (if tk_cancel t \<and> \<not> ds_cancel_sent s then
        let s = s\<lparr>ds_calls := ds_calls s @ [CallCancel run_id]\<rparr>;
            refused = (Inl (Unavailable ''runner cancellation could not be confirmed''), s) in
        (case tk_cancel_reply t of
           Some (Inr _) \<Rightarrow> (Inr (), s\<lparr>ds_cancel_sent := True\<rparr>)
         | Some (Inl e) \<Rightarrow> (case e of NotFound _ \<Rightarrow> (Inr (), s) | _ \<Rightarrow> refused)
         | None \<Rightarrow> refused)
      else (Inr (), s))"

definition beat_due :: "tick \<Rightarrow> dispatching \<Rightarrow> bool" where
  "beat_due t s \<longleftrightarrow> (case ds_last_beat s of None \<Rightarrow> True | Some b \<Rightarrow> tk_now t - b \<ge> 1000)"

definition tick_beat :: "string \<Rightarrow> tick \<Rightarrow> dispatching \<Rightarrow> (status + unit) \<times> dispatching" where
  "tick_beat run_id t s =
     (if beat_due t s then
        let s = s\<lparr>ds_calls := ds_calls s @ [CallHeartbeat run_id]\<rparr> in
        (case tk_beat_reply t of
           None \<Rightarrow> (Inl (DeadlineExceeded ''execution lease heartbeat timed out''), s)
         | Some (Inl e) \<Rightarrow> (Inl e, s)
         | Some (Inr _) \<Rightarrow> (Inr (), s\<lparr>ds_last_beat := Some (tk_beat_done t)\<rparr>))
      else (Inr (), s))"

definition on_tick :: "string \<Rightarrow> tick \<Rightarrow> dispatching \<Rightarrow> (status + unit) \<times> dispatching" where
  "on_tick run_id t s =
     (case tick_cancel run_id t s of (Inl e, s) \<Rightarrow> (Inl e, s) | (Inr _, s) \<Rightarrow> tick_beat run_id t s)"

fun dispatch_loop :: "string \<Rightarrow> happening list \<Rightarrow> dispatching \<Rightarrow> (status + dispatch_outcome) \<times> dispatching" where
  "dispatch_loop run_id [] s =
     (Inl (DeadlineExceeded ''runner execution deadline exceeded; cleanup unconfirmed''), s)"
| "dispatch_loop run_id (Message (Inl e) # hs) s = (Inl e, s)"
| "dispatch_loop run_id (Message (Inr None) # hs) s = (Inr (ds_outcome s), s)"
| "dispatch_loop run_id (Message (Inr (Some ev)) # hs) s =
     (if rv_run_id ev \<noteq> run_id then (Inl (DataLoss ''runner event run_id mismatch''), s)
      else let s = on_event ev s in
        if terminal_kind (rv_kind ev) then (Inr (ds_outcome s), s) else dispatch_loop run_id hs s)"
| "dispatch_loop run_id (Tick t # hs) s =
     (case on_tick run_id t s of (Inl e, s) \<Rightarrow> (Inl e, s) | (Inr _, s) \<Rightarrow> dispatch_loop run_id hs s)"

text \<open>The whole dispatch: connect, send, loop. \<open>answer\<close> is the runner's answer to the request.\<close>

definition dispatch_controlled ::
  "(string \<Rightarrow> status + unit) \<Rightarrow> string \<Rightarrow> bool \<Rightarrow> execute_request \<Rightarrow> (execute_request \<Rightarrow> status + unit) \<Rightarrow> happening list
     \<Rightarrow> dispatching \<Rightarrow> (status + dispatch_outcome) \<times> dispatching" where
  "dispatch_controlled channel endpoint has_tls req answer hs s =
     (case connect_with_tls channel endpoint has_tls of
        Inl e \<Rightarrow> (Inl e, s)
      | Inr _ \<Rightarrow> (case answer req of Inl e \<Rightarrow> (Inl e, s) | Inr _ \<Rightarrow> dispatch_loop (er_run_id req) hs s))"

section \<open>What an outcome says\<close>

text \<open>An outcome that is terminal is the last event the loop read, one of this run.\<close>

definition outcome_of_event :: "runner_event \<Rightarrow> dispatch_outcome \<Rightarrow> bool" where
  "outcome_of_event ev out \<longleftrightarrow> terminal_kind (rv_kind ev) \<and> do_terminal out
     \<and> do_final_state out = to_ascii_uppercase (rv_state ev) \<and> (do_completed out \<longleftrightarrow> rv_kind ev = KCompleted)
     \<and> do_cleanup_confirmed out = rv_cleanup_confirmed ev \<and> do_simulated out = rv_simulated ev
     \<and> do_detail out = rv_detail ev \<and> do_files_created out = rv_files_created ev
     \<and> do_bytes_written out = rv_bytes_written ev \<and> do_inject_ms out = rv_inject_ms ev"

lemma fold_event_terminal: "terminal_kind (rv_kind ev) \<Longrightarrow> outcome_of_event ev (fold_event ev out)"
  by (auto simp: outcome_of_event_def fold_event_def Let_def)

lemma fold_event_stage [simp]:
  "\<not> terminal_kind (rv_kind ev) \<Longrightarrow> fold_event ev out = out\<lparr>do_final_state := to_ascii_uppercase (rv_state ev)\<rparr>"
  by (simp add: fold_event_def Let_def)

lemma on_tick_outcome: "on_tick run_id t s = (r, s') \<Longrightarrow> ds_outcome s' = ds_outcome s \<and> ds_status s' = ds_status s"
  by (auto simp: on_tick_def tick_cancel_def tick_beat_def Let_def split: if_splits prod.splits sum.splits option.splits status.splits)

lemma on_event_sel [simp]:
  "ds_outcome (on_event ev s) = fold_event ev (ds_outcome s)"
  "ds_status (on_event ev s) = to_ascii_uppercase (rv_state ev)"
  by (simp_all add: on_event_def Let_def fold_event_def)

lemma dispatch_terminal:
  assumes "dispatch_loop run_id hs s = (Inr out, s')" and "\<not> do_terminal (ds_outcome s)"
  shows "(\<exists>ev. Message (Inr (Some ev)) \<in> set hs \<and> rv_run_id ev = run_id \<and> outcome_of_event ev out) \<or> \<not> do_terminal out"
  using assms
proof (induction run_id hs s rule: dispatch_loop.induct)
  case (4 run_id ev hs s)
  then have id: "rv_run_id ev = run_id" by (simp split: if_splits)
  show ?case
  proof (cases "terminal_kind (rv_kind ev)")
    case True
    with 4 id have "out = fold_event ev (ds_outcome s)" by simp
    with id True fold_event_terminal show ?thesis by auto
  next
    case False
    with "4.prems" id have r: "dispatch_loop run_id hs (on_event ev s) = (Inr out, s')" by simp
    have "\<not> do_terminal (ds_outcome (on_event ev s))" using "4.prems"(2) False by simp
    from "4.IH" [OF _ refl False r this] id show ?thesis by auto
  qed
next
  case (5 run_id t hs s)
  then obtain s1 u where t: "on_tick run_id t s = (Inr u, s1)" and r: "dispatch_loop run_id hs s1 = (Inr out, s')"
    by (auto split: prod.splits sum.splits)
  from on_tick_outcome [OF t] "5.prems"(2) have "\<not> do_terminal (ds_outcome s1)" by simp
  from "5.IH" [OF t [symmetric] refl r this] show ?case by auto
qed auto

text \<open>A stream that carries the events of a run, among ticks that find the runner well.\<close>

fun quiet :: "happening \<Rightarrow> bool" where
  "quiet (Message m) = False"
| "quiet (Tick t) = (tk_cancel_reply t = Some (Inr ()) \<and> tk_beat_reply t = Some (Inr ()))"

fun carries :: "happening list \<Rightarrow> runner_event list \<Rightarrow> bool" where
  "carries hs [] = True"
| "carries [] (ev # evs) = False"
| "carries (Message m # hs) (ev # evs) = (m = Inr (Some ev) \<and> carries hs evs)"
| "carries (Tick t # hs) (ev # evs) = (quiet (Tick t) \<and> carries hs (ev # evs))"

lemma quiet_tick: "quiet (Tick t) \<Longrightarrow> \<exists>s'. on_tick run_id t s = (Inr (), s')"
  by (auto simp: on_tick_def tick_cancel_def tick_beat_def Let_def)

lemma dispatch_carried:
  assumes "carries hs (evs @ [final])" and "\<forall>e \<in> set (evs @ [final]). rv_run_id e = run_id"
    and "\<forall>e \<in> set evs. \<not> terminal_kind (rv_kind e)" and "terminal_kind (rv_kind final)"
    and "do_rejected (ds_outcome s) = None"
  shows "\<exists>out s'. dispatch_loop run_id hs s = (Inr out, s') \<and> outcome_of_event final out
    \<and> (do_rejected out = (if rv_kind final = KRejected then Some (rv_detail final) else None))
    \<and> ds_status s' = to_ascii_uppercase (rv_state final)"
  using assms
proof (induction hs arbitrary: evs s)
  case Nil
  then show ?case by (cases evs) simp_all
next
  case (Cons h hs)
  show ?case
  proof (cases h)
    case (Tick t)
    have "quiet (Tick t) \<and> carries hs (evs @ [final])" using Cons.prems(1) Tick by (cases evs) simp_all
    moreover from this quiet_tick obtain s1 where t: "on_tick run_id t s = (Inr (), s1)" by blast
    moreover from on_tick_outcome [OF t] Cons.prems(5) have "do_rejected (ds_outcome s1) = None" by simp
    ultimately show ?thesis using Cons.IH [of evs s1] Cons.prems(2-4) Tick by simp
  next
    case (Message m)
    show ?thesis
    proof (cases evs)
      case Nil
      with Cons.prems Message have "m = Inr (Some final)" "rv_run_id final = run_id" by simp_all
      with Message Cons.prems(4,5) fold_event_terminal [OF Cons.prems(4)] show ?thesis
        by (simp add: Let_def) (simp add: fold_event_def terminal_kind_def Let_def)
    next
      case (Cons e es)
      with Cons.prems Message have e: "m = Inr (Some e)" "carries hs (es @ [final])" "rv_run_id e = run_id"
        "\<not> terminal_kind (rv_kind e)" by simp_all
      have "do_rejected (ds_outcome (on_event e s)) = None" using e(4) Cons.prems(5) by simp
      with Cons.IH [of es "on_event e s"] Cons.prems(2-4) e Message \<open>evs = e # es\<close> show ?thesis by (simp add: Let_def)
    qed
  qed
qed

end
