(* ===== verification/Execution.thy ===== *)
theory Execution
  imports Dispatch Registry Audit_Store
begin

text \<open>
  \<open>crates/asmodeus-control-plane/src/execution.rs\<close>: admission of a scenario run, its execution on a runner
  or in process, and the terminal audit record. With it the live handle of a run (\<open>run_control.rs\<close>), the
  identifiers of runs (\<open>state.rs\<close>) and the webhook request of a lifecycle event (\<open>webhook.rs\<close>).

  A started run is two transitions of the control plane: \<open>start_scenario\<close> ends with the durable
  \<open>QUEUED\<close> record and the live handle, \<open>finish_run\<close> with the durable terminal record. Between them
  comes the result of a dispatch, or of the in-process simulation. I/O outcomes and clocks are arguments;
  so is the text that tonic gives a status (\<open>T\<close>).
\<close>

section \<open>The control plane's state\<close>

datatype exec_error = EInvalidSignature | ETargetNotFound string | ENoActiveRunner | EForbidden
  | EInvalidManifest string | EDispatch string | ERunnerRejected string | ERunnerIncomplete string
  | EAuditSigning string | EAuditPersistence string

fun exec_error_text :: "exec_error \<Rightarrow> string" where
  "exec_error_text EInvalidSignature = ''scenario signature invalid''"
| "exec_error_text (ETargetNotFound t) = ''target runner not found or inactive: '' @ t"
| "exec_error_text ENoActiveRunner = ''no active runner available''"
| "exec_error_text EForbidden = ''role may not execute this scenario category''"
| "exec_error_text (EInvalidManifest d) = ''invalid execution parameters: '' @ d"
| "exec_error_text (EDispatch d) = ''dispatch: '' @ d"
| "exec_error_text (ERunnerRejected d) = ''runner rejected: '' @ d"
| "exec_error_text (ERunnerIncomplete d) = ''runner ended without a confirmed terminal result: '' @ d"
| "exec_error_text (EAuditSigning d) = ''audit signing: '' @ d"
| "exec_error_text (EAuditPersistence d) = ''audit persistence: '' @ d"

record active_run =
  av_category :: category
  av_cancel :: bool
  av_status :: string

definition active_run_new :: "category \<Rightarrow> active_run" where
  "active_run_new category = \<lparr>av_category = category, av_cancel = False, av_status = ''QUEUED''\<rparr>"

definition active_run_cancel :: "active_run \<Rightarrow> active_run" where
  "active_run_cancel a = a\<lparr>av_cancel := True, av_status := ''CANCELLING''\<rparr>"

text \<open>The parts of \<open>AppState\<close> a run touches, and the lifecycle events it sent to the webhook.\<close>

record app =
  ap_catalog_key :: bytes
  ap_signing_key :: bytes
  ap_registry :: registry_data
  ap_audit :: audit_store
  ap_runs :: "(string \<times> active_run) list"
  ap_events :: "(string \<times> audit_record) list"
  ap_namespace :: "string"
  ap_counter :: nat

definition show_hex16 :: "nat \<Rightarrow> string" where
  "show_hex16 n = map (\<lambda>i. hex_digit (n div 16 ^ i mod 16)) (rev [0..<16])"

definition run_namespace :: "bytes \<Rightarrow> string" where
  "run_namespace entropy = concat (map (\<lambda>c. show_hex2 (byte c)) entropy)"

text \<open>The counter is an \<open>AtomicU64\<close>, which wraps.\<close>

definition next_run_id :: "app \<Rightarrow> string \<times> app" where
  "next_run_id app =
     (''run_'' @ ap_namespace app @ ''_'' @ show_hex16 (ap_counter app),
      app\<lparr>ap_counter := (ap_counter app + 1) mod 2 ^ 64\<rparr>)"

definition runs_insert :: "string \<Rightarrow> active_run \<Rightarrow> (string \<times> active_run) list \<Rightarrow> (string \<times> active_run) list" where
  "runs_insert i a rs = AList.update i a rs"

definition runs_remove :: "string \<Rightarrow> (string \<times> active_run) list \<Rightarrow> (string \<times> active_run) list" where
  "runs_remove i rs = AList.delete i rs"

section \<open>Admission\<close>

record admission =
  ad_plan :: execution_plan
  ad_timeout :: nat
  ad_endpoint :: "string option"
  ad_record :: audit_record

definition exec_mode :: "string option \<Rightarrow> string" where
  "exec_mode endpoint = (if endpoint \<noteq> None then ''runner'' else ''simulated'')"

definition exec_runner_id :: "runner_record option \<Rightarrow> string" where
  "exec_runner_id selected = (case selected of
       Some r \<Rightarrow> rr_id r
     | None \<Rightarrow> if map_option rr_endpoint selected \<noteq> None then ''default-runner'' else ''in-process-sim'')"

definition default_measurements :: measurements where
  "default_measurements = \<lparr>ms_mttd_ms = 0, ms_mttr_ms = 0, ms_blue_team_detected = False\<rparr>"

definition default_evidence :: run_evidence where
  "default_evidence = \<lparr>ev_execution_mode = [], ev_feedback_received = False, ev_contained = False,
     ev_cleanup_confirmed = False, ev_failure_reason = None\<rparr>"

definition queued_record :: "string \<Rightarrow> scenario_entry \<Rightarrow> role \<Rightarrow> runner_record option \<Rightarrow> string \<Rightarrow> audit_record" where
  "queued_record now entry role selected run_id =
     \<lparr>ar_run_id = run_id, ar_scenario_id = se_id entry, ar_scenario_name = se_name entry,
      ar_category = category_as_str (se_category entry),
      ar_mitre_technique = (case se_mitre entry of Some t \<Rightarrow> mt_id t | None \<Rightarrow> []),
      ar_mitre_tactic = (case se_mitre entry of Some t \<Rightarrow> mt_tactic t | None \<Rightarrow> []),
      ar_severity = se_severity entry, ar_tag = category_tag (se_category entry),
      ar_initiator = role_as_str role, ar_runner_id = exec_runner_id selected, ar_status = ''QUEUED'',
      ar_measurements = default_measurements, ar_detection_source = ''PENDING_FEEDBACK'',
      ar_containment_action = ''UNCONFIRMED'', ar_cleanup_status = ''PENDING'', ar_timestamp_utc = now,
      ar_signature_hex = [], ar_public_key_hex = [],
      ar_evidence = Some (default_evidence\<lparr>ev_execution_mode := exec_mode (map_option rr_endpoint selected)\<rparr>)\<rparr>"

definition manifest_plan :: "manifest_lib \<Rightarrow> bytes \<Rightarrow> exec_error + execution_plan" where
  "manifest_plan L raw =
     and_then (reject_if (\<not> ml_utf8 L raw) (EInvalidManifest ''invalid utf-8'')) (\<lambda>_.
     and_then (case parse_and_validate L raw of Inl e \<Rightarrow> Inl (EInvalidManifest (manifest_error_text e)) | Inr m \<Rightarrow> Inr m)
       (\<lambda>manifest.
     case from_manifest manifest of Inl e \<Rightarrow> Inl (EInvalidManifest (manifest_error_text e)) | Inr p \<Rightarrow> Inr p))"

definition select_target :: "registry_data \<Rightarrow> string option \<Rightarrow> exec_error + runner_record option" where
  "select_target registry target =
     (let selected = find_for_target target registry in
      case clean_target target of
        Some t \<Rightarrow> if selected = None then Inl (ETargetNotFound t) else Inr selected
      | None \<Rightarrow> if selected = None \<and> rd_require_runner registry then Inl ENoActiveRunner else Inr selected)"

definition run_timeout :: "nat option \<Rightarrow> execution_plan \<Rightarrow> nat" where
  "run_timeout timeout_sec plan = (case timeout_sec of Some t \<Rightarrow> t | None \<Rightarrow> pl_max_duration_sec plan)"

text \<open>Everything before the durable append, in the order of its checks.\<close>

definition admit ::
  "ed25519 \<Rightarrow> audit_codec \<Rightarrow> manifest_lib \<Rightarrow> string \<Rightarrow> app \<Rightarrow> scenario_entry \<Rightarrow> role \<Rightarrow> string option \<Rightarrow> nat option
     \<Rightarrow> string \<Rightarrow> exec_error + admission" where
  "admit E J L now app entry role target timeout_sec run_id =
     and_then (reject_if (\<not> can role (required_capability (se_category entry))) EForbidden) (\<lambda>_.
     and_then (reject_if (\<not> is_valid E (se_manifest entry) (se_signature entry) (ap_catalog_key app)) EInvalidSignature) (\<lambda>_.
     and_then (manifest_plan L (se_manifest entry)) (\<lambda>plan.
     let timeout = run_timeout timeout_sec plan in
     and_then (reject_if (timeout = 0 \<or> timeout > pl_max_duration_sec plan)
                (EInvalidManifest ''timeout_sec must be positive and cannot extend the signed deadline'')) (\<lambda>_.
     and_then (select_target (ap_registry app) target) (\<lambda>selected.
     case ar_signed E J (ap_signing_key app) (queued_record now entry role selected run_id) of
       Inl _ \<Rightarrow> Inl (EAuditSigning ''secret key is malformed'')
     | Inr record \<Rightarrow> Inr \<lparr>ad_plan = plan, ad_timeout = timeout,
         ad_endpoint = map_option rr_endpoint selected, ad_record = record\<rparr>)))))"

text \<open>\<open>start_scenario_identified\<close>: admission, the durable append, the live handle, the first event.\<close>

definition start_scenario ::
  "ed25519 \<Rightarrow> audit_codec \<Rightarrow> manifest_lib \<Rightarrow> string \<Rightarrow> io_outcome \<Rightarrow> scenario_entry \<Rightarrow> role \<Rightarrow> string option \<Rightarrow> nat option
     \<Rightarrow> string \<Rightarrow> app \<Rightarrow> (exec_error + admission) \<times> app" where
  "start_scenario E J L now io entry role target timeout_sec run_id app =
     (case admit E J L now app entry role target timeout_sec run_id of
        Inl e \<Rightarrow> (Inl e, app)
      | Inr ad \<Rightarrow>
          (case as_append J (ad_record ad) io (ap_audit app) of
             (Inl e, s) \<Rightarrow> (Inl (EAuditPersistence e), app\<lparr>ap_audit := s\<rparr>)
           | (Inr _, s) \<Rightarrow>
               (Inr ad, app\<lparr>ap_audit := s, ap_runs := runs_insert run_id (active_run_new (se_category entry)) (ap_runs app),
                          ap_events := ap_events app @ [(''exercise_started'', ad_record ad)]\<rparr>)))"

section \<open>Execution\<close>

definition run_request :: "app \<Rightarrow> scenario_entry \<Rightarrow> admission \<Rightarrow> string \<Rightarrow> execute_request" where
  "run_request app entry ad run_id =
     \<lparr>er_scenario_id = se_id entry, er_manifest = se_manifest entry, er_signature = se_signature entry,
      er_public_key = ap_catalog_key app, er_target_dir = pl_target_dir (ad_plan ad),
      er_file_count = pl_file_count (ad_plan ad), er_chunk_size_kb = pl_chunk_size_kb (ad_plan ad),
      er_run_id = run_id, er_timeout_sec = ad_timeout ad\<rparr>"

text \<open>The in-process simulation looks at the cancellation flag and twice at the clock in every round.\<close>

partial_function (option) simulate_loop :: "(nat \<Rightarrow> instant) \<Rightarrow> nat \<Rightarrow> nat \<Rightarrow> nat \<Rightarrow> string option" where
  "simulate_loop clock timeout duration n =
     (if it_cancelled (clock n) then Some ''CANCELLED''
      else if it_elapsed (clock n) \<ge> timeout then Some ''TIMED_OUT''
      else if it_elapsed (clock (n + 1)) \<ge> duration then Some ''COMPLETED''
      else simulate_loop clock timeout duration (n + 2))"

definition simulate :: "(nat \<Rightarrow> instant) \<Rightarrow> admission \<Rightarrow> dispatch_outcome option" where
  "simulate clock ad =
     map_option (\<lambda>status. default_outcome\<lparr>do_terminal := True, do_completed := (status = ''COMPLETED''),
         do_final_state := status\<rparr>)
       (simulate_loop clock (ad_timeout ad * 1000) (pl_duration_ms (ad_plan ad)) 0)"

text \<open>The live status: \<open>INJECTING\<close> in process, the last state the runner sent (\<open>ds_status\<close>) otherwise.\<close>

definition set_live_status :: "string \<Rightarrow> string \<Rightarrow> app \<Rightarrow> app" where
  "set_live_status run_id status app =
     app\<lparr>ap_runs := AList.map_entry run_id (\<lambda>a. a\<lparr>av_status := status\<rparr>) (ap_runs app)\<rparr>"

section \<open>The terminal record\<close>

record settled =
  sd_status :: string
  sd_cleaned :: bool
  sd_detail :: string
  sd_error :: "exec_error option"
  sd_simulated :: bool

definition outcome_error :: "string \<Rightarrow> dispatch_outcome \<Rightarrow> exec_error option" where
  "outcome_error mode out =
     (case do_rejected out of
        Some reason \<Rightarrow> Some (ERunnerRejected reason)
      | None \<Rightarrow>
          if \<not> do_terminal out \<or> (mode = ''runner'' \<and> do_completed out \<and> \<not> do_cleanup_confirmed out)
          then Some (ERunnerIncomplete (do_final_state out)) else None)"

definition settle :: "(status \<Rightarrow> string) \<Rightarrow> string \<Rightarrow> status + dispatch_outcome \<Rightarrow> settled" where
  "settle T mode result =
     (case result of
        Inr out \<Rightarrow>
          (let error = outcome_error mode out in
           \<lparr>sd_status = (if error \<noteq> None then ''FAILED'' else do_final_state out), sd_cleaned = do_cleanup_confirmed out,
            sd_detail = do_detail out, sd_error = error, sd_simulated = do_simulated out\<rparr>)
      | Inl error \<Rightarrow>
          \<lparr>sd_status = ''FAILED'', sd_cleaned = False, sd_detail = T error, sd_error = Some (EDispatch (T error)),
           sd_simulated = (mode = ''simulated'')\<rparr>)"

definition finished_record :: "string \<Rightarrow> string \<Rightarrow> settled \<Rightarrow> audit_record \<Rightarrow> audit_record" where
  "finished_record now mode sd r =
     r\<lparr>ar_status := sd_status sd,
       ar_cleanup_status := (if mode = ''simulated'' then ''NOT_APPLICABLE''
                             else if sd_cleaned sd then ''SUCCESS'' else ''UNCONFIRMED''),
       ar_evidence := map_option (\<lambda>e. (if sd_simulated sd then e\<lparr>ev_execution_mode := ''simulated''\<rparr> else e)
           \<lparr>ev_cleanup_confirmed := sd_cleaned sd,
            ev_failure_reason := (if sd_detail sd = [] then None else Some (sd_detail sd))\<rparr>) (ar_evidence r),
       ar_timestamp_utc := now\<rparr>"

text \<open>The audit update, the live handle and the last event; the caller gets the error or the record.\<close>

definition finish_run ::
  "ed25519 \<Rightarrow> audit_codec \<Rightarrow> (status \<Rightarrow> string) \<Rightarrow> string \<Rightarrow> io_outcome \<Rightarrow> admission \<Rightarrow> string
     \<Rightarrow> status + dispatch_outcome \<Rightarrow> app \<Rightarrow> (exec_error + audit_record) \<times> app" where
  "finish_run E J T now io ad run_id result app =
     (let mode = exec_mode (ad_endpoint ad); sd = settle T mode result in
      case as_update J run_id
             (\<lambda>r. case ar_signed E J (ap_signing_key app) (finished_record now mode sd r) of
                Inl _ \<Rightarrow> Inl ''secret key is malformed'' | Inr r' \<Rightarrow> Inr r') io (ap_audit app) of
        (Inl e, s) \<Rightarrow>
          (Inl (EAuditPersistence e),
           set_live_status run_id ''AUDIT_PERSISTENCE_FAILED'' (app\<lparr>ap_audit := s\<rparr>))
      | (Inr None, s) \<Rightarrow>
          (Inl (EAuditPersistence ''admitted run disappeared''),
           app\<lparr>ap_audit := s, ap_runs := runs_remove run_id (ap_runs app)\<rparr>)
      | (Inr (Some record), s) \<Rightarrow>
          (case sd_error sd of Some e \<Rightarrow> Inl e | None \<Rightarrow> Inr record,
           app\<lparr>ap_audit := s, ap_runs := runs_remove run_id (ap_runs app),
               ap_events := ap_events app @
                 [(if ar_status record = ''COMPLETED'' then ''exercise_completed'' else ''exercise_finished'', record)]\<rparr>))"

section \<open>Lifecycle notifications\<close>

record webhook_payload =
  wp_event :: string
  wp_timestamp_utc :: string
  wp_exercise_id :: string
  wp_scenario_id :: string
  wp_mitre_technique :: string
  wp_target :: string
  wp_initiator :: string
  wp_tag :: string
  wp_data :: "string \<times> run_evidence option"

definition lifecycle :: "string \<times> audit_record \<Rightarrow> webhook_payload" where
  "lifecycle x = (case x of (name, r) \<Rightarrow>
     \<lparr>wp_event = name, wp_timestamp_utc = ar_timestamp_utc r, wp_exercise_id = ar_run_id r,
      wp_scenario_id = ar_scenario_id r, wp_mitre_technique = ar_mitre_technique r, wp_target = ar_runner_id r,
      wp_initiator = ar_initiator r, wp_tag = ar_tag r, wp_data = (ar_status r, ar_evidence r)\<rparr>)"

record webhook_dispatcher =
  wh_url :: "string option"
  wh_token :: "string option"

record webhook_request =
  wq_url :: string
  wq_headers :: "(string \<times> string) list"
  wq_body :: string

definition trimmed :: "string option \<Rightarrow> string option" where
  "trimmed v = (case map_option trim v of Some t \<Rightarrow> if t = [] then None else Some t | None \<Rightarrow> None)"

text \<open>\<open>env\<close> is the process environment.\<close>

definition webhook_from_env :: "(string \<Rightarrow> string option) \<Rightarrow> webhook_dispatcher" where
  "webhook_from_env env =
     \<lparr>wh_url = trimmed (env ''ASMODEUS_WEBHOOK_URL''),
      wh_token = trimmed (case env ''ASMODEUS_WEBHOOK_SECRET'' of Some s \<Rightarrow> Some s | None \<Rightarrow> env ''ASMODEUS_WEBHOOK_TOKEN'')\<rparr>"

text \<open>The request a notification sends, if any; \<open>body\<close> is serde_json's text of the payload.\<close>

definition webhook_dispatch ::
  "ed25519 \<Rightarrow> (webhook_payload \<Rightarrow> string option) \<Rightarrow> webhook_payload \<Rightarrow> bytes option \<Rightarrow> webhook_dispatcher \<Rightarrow> webhook_request option" where
  "webhook_dispatch E body payload signing_key w =
     (case wh_url w of
        None \<Rightarrow> None
      | Some url \<Rightarrow>
          (case body payload of
             None \<Rightarrow> None
           | Some json_body \<Rightarrow>
               Some \<lparr>wq_url = url,
                 wq_headers = [(''Content-Type'', ''application/json''), (''User-Agent'', ''Asmodeus-Control-Plane/0.1.0'')]
                   @ (case wh_token w of Some t \<Rightarrow> [(''X-Asmodeus-Token'', t)] | None \<Rightarrow> [])
                   @ (case signing_key of
                        None \<Rightarrow> []
                      | Some k \<Rightarrow> (case sign_message E json_body k of
                            Inr sig \<Rightarrow> [(''X-Asmodeus-Signature'', to_hex sig)] | Inl _ \<Rightarrow> [])),
                 wq_body = json_body\<rparr>))"

section \<open>The lifecycle engine\<close>

datatype engine_error = EngineRejected reject_reason | EngineTransition state_error

definition engine_execute :: "scenario_entry \<Rightarrow> engine_error + run_state" where
  "engine_execute entry =
     (let step = (\<lambda>ev s. case on s ev of Inl e \<Rightarrow> Inl (EngineTransition e) | Inr s' \<Rightarrow> Inr s') in
      and_then (case validate Synthetic (se_target_path entry) of Inl e \<Rightarrow> Inl (EngineRejected e) | Inr _ \<Rightarrow> Inr Idle) (\<lambda>s.
      and_then (step Validate s) (\<lambda>s.
      and_then (step Arm s) (\<lambda>s.
      and_then (step Inject s) (\<lambda>s.
      and_then (step Detect s) (\<lambda>s.
      and_then (step Contain s) (\<lambda>s.
      and_then (step DoCleanup s) (\<lambda>s.
      step Complete s))))))))"

end
