(* ===== verification/Execution_Safety.thy ===== *)
theory Execution_Safety
  imports Execution Registry_Safety
begin

text \<open>
  What the pieces give together. A refused start leaves no trace; an admitted one is journalled under the
  operator's key. The request an admitted run sends is one its runner accepts, with the same plan and
  deadline. And the terminal record says of the clean-up what the runner's worker did on its disk.
\<close>

section \<open>Run identifiers\<close>

lemma hex_digit_alnum: "d < 16 \<Longrightarrow> is_ascii_alphanumeric (hex_digit d)"
  by (simp add: is_ascii_alphanumeric_def is_ascii_digit_def hex_digit_byte)

lemma show_hex16_ok: "length (show_hex16 n) = 16" "list_all is_ascii_alphanumeric (show_hex16 n)"
  by (simp_all add: show_hex16_def list_all_iff hex_digit_alnum)

lemma run_namespace_ok: "length (run_namespace bs) = 2 * length bs" "list_all is_ascii_alphanumeric (run_namespace bs)"
proof -
  show "length (run_namespace bs) = 2 * length bs"
    by (induction bs) (simp_all add: run_namespace_def show_hex2_def)
  show "list_all is_ascii_alphanumeric (run_namespace bs)"
    by (induction bs) (simp_all add: run_namespace_def show_hex2_def hex_digit_alnum less_mult_imp_div_less)
qed

lemma next_run_id_ok:
  assumes "ap_namespace app = run_namespace bs" and "length bs = 16"
  shows "run_id_ok (fst (next_run_id app))"
proof -
  have "is_ascii_alphanumeric (CHR ''r'')" "is_ascii_alphanumeric (CHR ''u'')" "is_ascii_alphanumeric (CHR ''n'')"
    by (simp_all add: is_ascii_alphanumeric_def byte_def)
  then show ?thesis
    using assms run_namespace_ok [of bs] show_hex16_ok [of "ap_counter app"]
    by (auto simp: run_id_ok_def next_run_id_def list_all_iff)
qed

section \<open>Admission\<close>

lemma reject_if_Inl: "reject_if b e = Inl e' \<longleftrightarrow> b \<and> e' = e"
  by (auto simp: reject_if_def)

lemma manifest_plan_Inr:
  "manifest_plan L raw = Inr p \<longleftrightarrow> ml_utf8 L raw
     \<and> (\<exists>m. parse_and_validate L raw = Inr m \<and> from_manifest m = Inr p)"
  by (auto simp: manifest_plan_def split: sum.splits)

lemma select_target_Inr:
  "select_target d t = Inr x \<Longrightarrow> x = find_for_target t d"
  by (auto simp: select_target_def Let_def split: option.splits if_splits)

text \<open>What an admission has checked.\<close>

lemma admit_Inr:
  assumes "admit E J L now app entry role target timeout_sec rid = Inr ad"
  shows "can role (required_capability (se_category entry))
    \<and> is_valid E (se_manifest entry) (se_signature entry) (ap_catalog_key app)
    \<and> manifest_plan L (se_manifest entry) = Inr (ad_plan ad)
    \<and> ad_timeout ad = run_timeout timeout_sec (ad_plan ad)
    \<and> 0 < ad_timeout ad \<and> ad_timeout ad \<le> pl_max_duration_sec (ad_plan ad)
    \<and> ad_endpoint ad = map_option rr_endpoint (find_for_target target (ap_registry app))
    \<and> ar_signed E J (ap_signing_key app) (queued_record now entry role (find_for_target target (ap_registry app)) rid)
        = Inr (ad_record ad)"
proof -
  let ?timeout = "run_timeout timeout_sec"
  from assms obtain plan selected where
    a: "can role (required_capability (se_category entry))"
      "is_valid E (se_manifest entry) (se_signature entry) (ap_catalog_key app)"
      "manifest_plan L (se_manifest entry) = Inr plan" "0 < ?timeout plan" "?timeout plan \<le> pl_max_duration_sec plan"
      "select_target (ap_registry app) target = Inr selected"
    and r: "(case ar_signed E J (ap_signing_key app) (queued_record now entry role selected rid) of
         Inl _ \<Rightarrow> Inl (EAuditSigning ''secret key is malformed'')
       | Inr record \<Rightarrow> Inr \<lparr>ad_plan = plan, ad_timeout = ?timeout plan,
           ad_endpoint = map_option rr_endpoint selected, ad_record = record\<rparr>) = Inr ad"
    unfolding admit_def Let_def and_then_Inr reject_if_Inr by auto
  from r obtain signed where
    "ar_signed E J (ap_signing_key app) (queued_record now entry role selected rid) = Inr signed"
    "ad = \<lparr>ad_plan = plan, ad_timeout = ?timeout plan, ad_endpoint = map_option rr_endpoint selected, ad_record = signed\<rparr>"
    by (auto split: sum.splits)
  with a select_target_Inr [OF a(6)] show ?thesis by simp
qed

lemma admit_Inl:
  assumes "admit E J L now app entry role target timeout_sec rid = Inl e"
  shows "case e of
      EForbidden \<Rightarrow> \<not> can role (required_capability (se_category entry))
    | EInvalidSignature \<Rightarrow> \<not> is_valid E (se_manifest entry) (se_signature entry) (ap_catalog_key app)
    | EInvalidManifest _ \<Rightarrow> \<not> (\<exists>plan. manifest_plan L (se_manifest entry) = Inr plan
          \<and> 0 < run_timeout timeout_sec plan \<and> run_timeout timeout_sec plan \<le> pl_max_duration_sec plan)
    | ETargetNotFound t \<Rightarrow> clean_target target = Some t \<and> find_for_target target (ap_registry app) = None
    | ENoActiveRunner \<Rightarrow> clean_target target = None \<and> find_for_target target (ap_registry app) = None
        \<and> rd_require_runner (ap_registry app)
    | EAuditSigning _ \<Rightarrow> \<not> ed_sk_ok E (ap_signing_key app)
    | _ \<Rightarrow> False"
proof -
  have plan: "(\<exists>d. e = EInvalidManifest d) \<and> (\<forall>p. manifest_plan L (se_manifest entry) \<noteq> Inr p)" if "manifest_plan L (se_manifest entry) = Inl e"
    using that by (auto simp: manifest_plan_def and_then_Inl reject_if_Inl split: sum.splits)
  have select: "e = ENoActiveRunner \<and> clean_target target = None \<and> find_for_target target (ap_registry app) = None
      \<and> rd_require_runner (ap_registry app)
    \<or> (\<exists>t. e = ETargetNotFound t \<and> clean_target target = Some t \<and> find_for_target target (ap_registry app) = None)"
    if "select_target (ap_registry app) target = Inl e"
    using that by (auto simp: select_target_def Let_def split: option.splits if_splits)
  have sign: "\<not> ed_sk_ok E (ap_signing_key app)" if "ar_signed E J (ap_signing_key app) r = Inl x" for r x
    using that by (auto simp: ar_signed_def sign_message_def public_key_from_secret_key_def split: if_splits)
  from assms show ?thesis
    unfolding admit_def Let_def and_then_Inl reject_if_Inl
    by (elim disjE exE conjE) (auto dest!: plan select sign split: sum.splits option.splits)
qed

lemma as_append_fails:
  assumes "as_append J r io s = (Inl e, s')"
  shows "trail_get (as_trail s) (ar_run_id r) \<noteq> None \<or> io \<noteq> IoOk"
  using assms
  by (cases io) (auto simp: as_append_def persist_def append_to_file_def Let_def split: if_splits option.splits)

lemma queued_signed:
  assumes "ar_signed E J k (queued_record now entry role selected rid) = Inr r"
  shows "ar_run_id r = rid \<and> ar_status r = ''QUEUED'' \<and> ar_cleanup_status r = ''PENDING''
    \<and> ar_scenario_id r = se_id entry \<and> ar_initiator r = role_as_str role \<and> ar_runner_id r = exec_runner_id selected
    \<and> ar_evidence r = Some (default_evidence\<lparr>ev_execution_mode := exec_mode (map_option rr_endpoint selected)\<rparr>)"
  using assms by (auto simp: ar_signed_Inr queued_record_def)

text \<open>
  C14: A start is refused for a reason that holds and leaves nothing behind, or the run is admitted: its
  role may run the category, the signature of the entry holds under the catalog key, the manifest gives
  the plan, the timeout is positive and within the signed bound, and a runner is there when one is asked
  for or required. An admitted run has a live handle and exactly one record, queued, signed by the
  operator's key and kept by the log.
\<close>
theorem start_refused_or_journalled:
  assumes "ed_correct E" and "codec_ok J" and "as_inv J (ap_audit app)" and "untorn io"
    and "start_scenario E J L now io entry role target timeout_sec rid app = (r, app')"
  shows "as_inv J (ap_audit app') \<and>
    (case r of
      Inl e \<Rightarrow> app' = app \<and>
        (case e of
           EForbidden \<Rightarrow> \<not> can role (required_capability (se_category entry))
         | EInvalidSignature \<Rightarrow> \<not> is_valid E (se_manifest entry) (se_signature entry) (ap_catalog_key app)
         | EInvalidManifest _ \<Rightarrow> \<not> (\<exists>plan. manifest_plan L (se_manifest entry) = Inr plan
              \<and> 0 < run_timeout timeout_sec plan \<and> run_timeout timeout_sec plan \<le> pl_max_duration_sec plan)
         | ETargetNotFound t \<Rightarrow> clean_target target = Some t \<and> find_for_target target (ap_registry app) = None
         | ENoActiveRunner \<Rightarrow> clean_target target = None \<and> find_for_target target (ap_registry app) = None
              \<and> rd_require_runner (ap_registry app)
         | EAuditSigning _ \<Rightarrow> \<not> ed_sk_ok E (ap_signing_key app)
         | EAuditPersistence _ \<Rightarrow> trail_get (as_trail (ap_audit app)) rid \<noteq> None \<or> io \<noteq> IoOk
         | _ \<Rightarrow> False)
    | Inr ad \<Rightarrow>
        can role (required_capability (se_category entry))
        \<and> is_valid E (se_manifest entry) (se_signature entry) (ap_catalog_key app)
        \<and> manifest_plan L (se_manifest entry) = Inr (ad_plan ad)
        \<and> 0 < ad_timeout ad \<and> ad_timeout ad \<le> pl_max_duration_sec (ad_plan ad)
        \<and> ad_endpoint ad = map_option rr_endpoint (find_for_target target (ap_registry app))
        \<and> trail_get (as_trail (ap_audit app)) rid = None
        \<and> trail_get (as_trail (ap_audit app')) rid = Some (ad_record ad)
        \<and> ar_status (ad_record ad) = ''QUEUED''
        \<and> verify_with_key E J (ad_record ad) (ed_public E (ap_signing_key app))
        \<and> map_of (ap_runs app') rid = Some (active_run_new (se_category entry)))"
proof (cases "admit E J L now app entry role target timeout_sec rid")
  case (Inl e)
  with assms(5) have r: "r = Inl e" "app' = app" by (simp_all add: start_scenario_def)
  from admit_Inl [OF Inl] r assms(3) show ?thesis by (cases e) simp_all
next
  case (Inr ad)
  note ad = admit_Inr [OF Inr]
  then have q: "ar_run_id (ad_record ad) = rid" "ar_status (ad_record ad) = ''QUEUED''" using queued_signed by blast+
  have v: "verify_with_key E J (ad_record ad) (ed_public E (ap_signing_key app))"
    using signed_record_verifies [OF assms(1)] ad by blast
  obtain res s where a: "as_append J (ad_record ad) io (ap_audit app) = (res, s)"
    by (cases "as_append J (ad_record ad) io (ap_audit app)")
  from as_append_cases [OF assms(3) _ a] assms(4) q(1) have
    cases: "is_ok res \<and> trail_get (as_trail (ap_audit app)) rid = None \<and> s = publish J (ad_record ad) (ap_audit app)
      \<or> \<not> is_ok res \<and> s = ap_audit app" by (simp add: untorn_def)
  show ?thesis
  proof (cases res)
    case (Inl e)
    then have "s = ap_audit app" using cases by (simp add: is_ok_def)
    with Inl a assms(5) Inr have "r = Inl (EAuditPersistence e)" "app' = app" by (simp_all add: start_scenario_def)
    with as_append_fails [of J "ad_record ad" io "ap_audit app" e s] a Inl q assms(3) show ?thesis by simp
  next
    case (Inr u)
    then have s: "trail_get (as_trail (ap_audit app)) rid = None" "s = publish J (ad_record ad) (ap_audit app)"
      using cases by (simp_all add: is_ok_def)
    then have t: "trail_get (as_trail s) rid = Some (ad_record ad)" by (simp add: publish_def upsert_get q)
    have "as_inv J s" using publish_inv [OF assms(2,3)] s by simp
    moreover have "r = Inr ad" "app' = app\<lparr>ap_audit := s,
        ap_runs := runs_insert rid (active_run_new (se_category entry)) (ap_runs app),
        ap_events := ap_events app @ [(''exercise_started'', ad_record ad)]\<rparr>"
      using assms(5) a Inr \<open>admit E J L now app entry role target timeout_sec rid = Inr ad\<close>
      by (simp_all add: start_scenario_def)
    moreover have "map_of (runs_insert rid (active_run_new (se_category entry)) (ap_runs app)) rid
        = Some (active_run_new (se_category entry))" by (simp add: runs_insert_def update_conv')
    ultimately show ?thesis using ad q v s(1) t by simp
  qed
qed

section \<open>The request of an admitted run\<close>

text \<open>
  C15: The request of an admitted run is accepted by its runner, when the runner trusts the catalog's key:
  the plan the runner executes is the one the control plane admitted, its deadline is the admitted
  timeout, and the identifier is one a runner and its sandbox accept.
\<close>
theorem admitted_request_accepted:
  assumes "admit E J L now app entry role target timeout_sec (fst (next_run_id app)) = Inr ad"
    and "entry_sound E L (ap_catalog_key app) entry"
    and "ap_namespace app = run_namespace entropy" and "length entropy = 16"
  shows "runner_validate E L (Some (ap_catalog_key app)) (run_request app entry ad (fst (next_run_id app))) = Inr (ad_plan ad)
    \<and> worker_timeout_ms (run_request app entry ad (fst (next_run_id app))) (ad_plan ad) = ad_timeout ad * 1000
    \<and> path_in_scope (pl_target_dir (ad_plan ad))"
proof -
  let ?rid = "fst (next_run_id app)"
  note ad = admit_Inr [OF assms(1)]
  then obtain m where m: "ml_utf8 L (se_manifest entry)" "parse_and_validate L (se_manifest entry) = Inr m"
    "from_manifest m = Inr (ad_plan ad)" by (auto simp: manifest_plan_Inr)
  with assms(2) have i: "md_id (mf_metadata m) = se_id entry" by (auto simp: entry_sound_def)
  from m(2,3) have "path_in_scope (pl_target_dir (ad_plan ad))"
    by (auto simp: parse_and_validate_Inr intro: validated_dir_in_scope)
  moreover have "run_id_ok ?rid" by (rule next_run_id_ok [OF assms(3,4)])
  ultimately show ?thesis
    using ad m i by (simp add: runner_validate_def run_request_def ok_or_def worker_timeout_ms_def)
qed

section \<open>The end of a run\<close>

lemma to_upper_states [simp]:
  "to_ascii_uppercase ''COMPLETED'' = ''COMPLETED''" "to_ascii_uppercase ''CANCELLED'' = ''CANCELLED''"
  "to_ascii_uppercase ''TIMED_OUT'' = ''TIMED_OUT''" "to_ascii_uppercase ''CONTROL_LOST'' = ''CONTROL_LOST''"
  "to_ascii_uppercase ''FAILED'' = ''FAILED''" "to_ascii_uppercase ''CLEANUP_FAILED'' = ''CLEANUP_FAILED''"
  "to_ascii_uppercase ''REJECTED'' = ''REJECTED''"
  by (simp_all add: to_ascii_uppercase_def ascii_upper_def byte_def)

text \<open>A finished run is published with its signed record, or the audit store is as before.\<close>

lemma finish_run_cases:
  assumes "as_inv J (ap_audit app)" and "untorn io"
    and "finish_run E J T now io ad rid result app = (r, app')"
  defines "sd \<equiv> settle T (exec_mode (ad_endpoint ad)) result"
  obtains e where "r = Inl (EAuditPersistence e)" and "ap_audit app' = ap_audit app"
  | old rec where "trail_get (as_trail (ap_audit app)) rid = Some old"
    and "ar_signed E J (ap_signing_key app) (finished_record now (exec_mode (ad_endpoint ad)) sd old) = Inr rec"
    and "ap_audit app' = publish J rec (ap_audit app)" and "ap_runs app' = runs_remove rid (ap_runs app)"
    and "r = (case sd_error sd of Some e \<Rightarrow> Inl e | None \<Rightarrow> Inr rec)" and "ar_run_id rec = rid"
proof -
  let ?f = "\<lambda>r. case ar_signed E J (ap_signing_key app) (finished_record now (exec_mode (ad_endpoint ad)) sd r) of
      Inl _ \<Rightarrow> Inl ''secret key is malformed'' | Inr r' \<Rightarrow> Inr r'"
  obtain res s where u: "as_update J rid ?f io (ap_audit app) = (res, s)"
    by (cases "as_update J rid ?f io (ap_audit app)")
  from as_update_cases [OF assms(1) _ u] assms(2)
  consider old rec where "trail_get (as_trail (ap_audit app)) rid = Some old" "?f old = Inr rec" "ar_run_id rec = rid"
      "res = Inr (Some rec)" "s = publish J rec (ap_audit app)"
    | "\<forall>rec. res \<noteq> Inr (Some rec)" "s = ap_audit app"
    by (auto simp: untorn_def)
  then show thesis
  proof cases
    case (1 old rec)
    then show thesis
      using that(2) [of old rec] assms(3) u
      by (auto simp: finish_run_def Let_def sd_def [symmetric] split: sum.splits)
  next
    case 2
    with assms(3) u have "(\<exists>e. r = Inl (EAuditPersistence e)) \<and> ap_audit app' = ap_audit app"
      by (cases res) (auto simp: finish_run_def Let_def sd_def [symmetric] set_live_status_def split: option.splits)
    with that(1) show thesis by blast
  qed
qed

text \<open>The events of a worker, read by the control plane.\<close>

lemma dispatched_worker:
  assumes "run_worker bk req plan w = Some (Inr cleaned, w')" and "wd_events w' = wd_events w @ evs" and "carries hs evs"
  shows "\<exists>out s' final. dispatch_loop (er_run_id req) hs (dispatch_start st) = (Inr out, s')
    \<and> outcome_of_event final out \<and> (do_rejected out \<noteq> None \<longleftrightarrow> rv_kind final = KRejected)
    \<and> (terminal_event (er_run_id req) cleaned final \<or> rv_kind final = KRejected \<and> rv_state final = ''REJECTED'' \<and> \<not> cleaned
        \<and> \<not> rv_cleanup_confirmed final)
    \<and> (cleaned \<longrightarrow> (\<forall>q. prefix (resolve_path (pl_target_dir plan) @ [er_run_id req]) q \<longrightarrow> fs_get (wd_fs w') q = None))"
proof -
  let ?rid = "er_run_id req" and ?s = "dispatch_start st"
  have start: "do_rejected (ds_outcome ?s) = None" by (simp add: dispatch_start_def default_outcome_def)
  have stage: "\<not> terminal_kind (rv_kind e)" "rv_run_id e = ?rid" if "stage_event ?rid x e" for x e
    using that by (simp_all add: stage_event_def terminal_kind_def)
  from run_worker_Some [OF assms(1)] obtain stages final where
    e: "evs = stages @ [final]" "\<forall>e \<in> set stages. \<exists>x. stage_event ?rid x e" "rv_run_id final = ?rid"
      "terminal_kind (rv_kind final)"
      "terminal_event ?rid cleaned final \<or> rv_kind final = KRejected \<and> rv_state final = ''REJECTED'' \<and> \<not> cleaned
        \<and> \<not> rv_cleanup_confirmed final"
      "cleaned \<longrightarrow> (\<forall>q. prefix (resolve_path (pl_target_dir plan) @ [?rid]) q \<longrightarrow> fs_get (wd_fs w') q = None)"
  proof (elim disjE exE conjE)
    fix e1 e2
    assume a: "Inr cleaned = Inr False" "wd_events w' = wd_events w @ [e1, e2]" "stage_event ?rid ''Validated'' e1"
      "rv_kind e2 = KRejected" "rv_state e2 = ''REJECTED''" "rv_run_id e2 = ?rid" "\<not> rv_cleanup_confirmed e2"
    show thesis by (rule that [of "[e1]" e2]) (use a assms(2) in \<open>auto simp: terminal_kind_def\<close>)
  next
    fix e1 e2
    assume a: "Inr cleaned = Inr False" "wd_events w' = wd_events w @ [e1, e2]" "stage_event ?rid ''Validated'' e1"
      "rv_kind e2 = KRejected" "rv_state e2 = ''REJECTED''" "rv_run_id e2 = ?rid" "\<not> rv_cleanup_confirmed e2"
    show thesis by (rule that [of "[e1]" e2]) (use a assms(2) in \<open>auto simp: terminal_kind_def\<close>)
  next
    fix c e1 e2 e3 e4 e5
    assume a: "Inr cleaned = Inr c" "wd_events w' = wd_events w @ [e1, e2, e3, e4, e5]" "stage_event ?rid ''Validated'' e1"
      "stage_event ?rid ''Armed'' e2" "stage_event ?rid ''Injecting'' e3" "stage_event ?rid ''Cleanup'' e4"
      "terminal_event ?rid c e5" "c \<longrightarrow> (\<forall>q. prefix (resolve_path (pl_target_dir plan) @ [?rid]) q \<longrightarrow> fs_get (wd_fs w') q = None)"
    show thesis
      by (rule that [of "[e1, e2, e3, e4]" e5]) (use a assms(2) in \<open>auto simp: terminal_kind_def terminal_event_def\<close>)
  qed
  have ids: "\<forall>e \<in> set (stages @ [final]). rv_run_id e = ?rid" using e(2,3) stage(2) by auto
  have open': "\<forall>e \<in> set stages. \<not> terminal_kind (rv_kind e)" using e(2) stage(1) by blast
  from assms(3) have c: "carries hs (stages @ [final])" by (simp add: e(1))
  from dispatch_carried [OF c ids open' e(4) start] obtain out s' where
    "dispatch_loop ?rid hs ?s = (Inr out, s')" "outcome_of_event final out"
    "do_rejected out = (if rv_kind final = KRejected then Some (rv_detail final) else None)" by blast
  with e(5,6) show ?thesis by auto
qed


section \<open>A simulated run\<close>

lemma simulate_loop_ends:
  assumes "\<And>bound. \<exists>n. \<forall>k \<ge> n. bound \<le> it_elapsed (clock k)"
  shows "\<exists>st. simulate_loop clock timeout duration n = Some st \<and> st \<in> {''COMPLETED'', ''CANCELLED'', ''TIMED_OUT''}"
proof -
  from assms obtain N where N: "\<forall>k \<ge> N. timeout \<le> it_elapsed (clock k)" by blast
  show ?thesis
  proof (induction "N - n" arbitrary: n rule: less_induct)
    case less
    show ?case
    proof (cases "N \<le> n")
      case True
      with N show ?thesis by (subst simulate_loop.simps) simp
    next
      case False
      then have "N - (n + 2) < N - n" by simp
      from less.hyps [OF this] show ?thesis by (subst simulate_loop.simps) simp
    qed
  qed
qed


section \<open>Concrete runs\<close>

definition example_plane :: "registry_data \<Rightarrow> app" where
  "example_plane registry = \<lparr>ap_catalog_key = ''key'', ap_signing_key = ''key'', ap_registry = registry,
     ap_audit = empty_store, ap_runs = [], ap_events = [], ap_namespace = run_namespace (replicate 16 (CHR ''n'')),
     ap_counter = 1\<rparr>"

definition example_entry :: scenario_entry where
  "example_entry = builtin_entry toy_ed25519 example_lib ''key'' (hd BUILTINS)"

lemma hd_builtin: "hd BUILTINS \<in> set BUILTINS"
  by (simp add: BUILTINS_def)

lemma example_entry_sound: "entry_sound toy_ed25519 example_lib ''key'' example_entry"
  using builtin_sound [OF toy_correct _ example_lib_ok hd_builtin, of "''key''"]
  by (simp add: example_entry_def toy_ed25519_def)

lemma example_admitted:
  assumes "select_target registry None = Inr selected"
  shows "\<exists>ad. admit toy_ed25519 example_codec example_lib ''now'' (example_plane registry) example_entry Admin None None rid = Inr ad
    \<and> ad_endpoint ad = map_option rr_endpoint selected"
proof -
  have ok: "row_ok (hd BUILTINS)" using hd_builtin builtin_rows by blast
  from builtin_plan [OF ok] obtain p where p: "from_manifest (builtin_manifest (hd BUILTINS)) = Inr p" "pl_max_duration_sec p = 60"
    by blast
  have m: "se_manifest example_entry = ml_to_vec example_lib (builtin_manifest (hd BUILTINS))"
    by (simp add: example_entry_def builtin_entry_def Let_def)
  have "parse_and_validate example_lib (se_manifest example_entry) = Inr (builtin_manifest (hd BUILTINS))"
    using example_lib_ok hd_builtin builtin_validates [OF ok] by (auto simp: m parse_and_validate_Inr manifest_lib_ok_def)
  with p have "manifest_plan example_lib (se_manifest example_entry) = Inr p"
    by (simp add: manifest_plan_def example_lib_def)
  moreover have "is_valid toy_ed25519 (se_manifest example_entry) (se_signature example_entry) ''key''"
    using example_entry_sound by (simp add: entry_sound_def)
  moreover have "can Admin c" for c by (cases c) simp_all
  ultimately show ?thesis
    using assms p(2)
    by (simp add: admit_def example_plane_def run_timeout_def ar_signed_def sign_message_def public_key_from_secret_key_def
        toy_ed25519_def)
qed

lemma example_plane_inv: "as_inv J (ap_audit (example_plane registry))"
  by (simp add: example_plane_def as_inv_def empty_store_def from_jsonl_def)

lemma example_started:
  assumes "select_target registry None = Inr selected"
  shows "\<exists>ad app'. start_scenario toy_ed25519 example_codec example_lib ''now'' IoOk example_entry Admin None None rid
      (example_plane registry) = (Inr ad, app') \<and> ad_endpoint ad = map_option rr_endpoint selected
      \<and> as_inv example_codec (ap_audit app') \<and> trail_get (as_trail (ap_audit app')) rid = Some (ad_record ad)"
proof -
  from example_admitted [OF assms] obtain ad where
    a: "admit toy_ed25519 example_codec example_lib ''now'' (example_plane registry) example_entry Admin None None rid = Inr ad"
      "ad_endpoint ad = map_option rr_endpoint selected" by blast
  from admit_Inr [OF a(1)] queued_signed have q: "ar_run_id (ad_record ad) = rid" by blast
  obtain res s where s: "as_append example_codec (ad_record ad) IoOk empty_store = (res, s)"
    by (cases "as_append example_codec (ad_record ad) IoOk empty_store")
  have res: "res = Inr ()"
    using s by (simp add: empty_store_def trail_get_def as_append_def persist_def append_to_file_def)
  have inv: "as_inv example_codec empty_store" using example_plane_inv [of example_codec registry] by (simp add: example_plane_def)
  from as_append_cases [OF inv _ s] res have p: "s = publish example_codec (ad_record ad) empty_store" by (simp add: is_ok_def)
  have "start_scenario toy_ed25519 example_codec example_lib ''now'' IoOk example_entry Admin None None rid
      (example_plane registry) = (Inr ad, (example_plane registry)\<lparr>ap_audit := s,
        ap_runs := runs_insert rid (active_run_new (se_category example_entry)) [],
        ap_events := [(''exercise_started'', ad_record ad)]\<rparr>)"
    using a(1) s res by (simp add: start_scenario_def) (simp add: example_plane_def)
  moreover have "as_inv example_codec s" using publish_inv [OF example_codec_ok inv] p by simp
  moreover have "trail_get (as_trail s) rid = Some (ad_record ad)" by (simp add: p publish_def upsert_get q)
  ultimately show ?thesis using a(2) by simp
qed

lemma untorn_ok: "untorn IoOk"
  by (simp add: untorn_def)

lemma empty_selects: "select_target empty_registry None = Inr None"
  by (simp add: select_target_def clean_target_def find_for_target_def registry_records_def empty_registry_def)

lemma healthy_selects: "\<exists>r. select_target example_healthy None = Inr (Some r)"
  using example_healthy_route by (auto simp: select_target_def clean_target_def Let_def)

theorem start_refused_or_journalled_witness:
  "\<exists>ad app'. start_scenario toy_ed25519 example_codec example_lib ''now'' IoOk example_entry Admin None None ''run_1''
      (example_plane empty_registry) = (Inr ad, app')
    \<and> trail_get (as_trail (ap_audit app')) ''run_1'' = Some (ad_record ad)"
proof -
  from example_started [OF empty_selects] obtain ad app' where
    s: "start_scenario toy_ed25519 example_codec example_lib ''now'' IoOk example_entry Admin None None ''run_1''
      (example_plane empty_registry) = (Inr ad, app')" by blast
  from start_refused_or_journalled [OF toy_correct example_codec_ok example_plane_inv untorn_ok s] s show ?thesis by auto
qed

theorem admitted_request_accepted_witness:
  "\<exists>ad. runner_validate toy_ed25519 example_lib (Some ''key'')
     (run_request (example_plane empty_registry) example_entry ad (fst (next_run_id (example_plane empty_registry)))) = Inr (ad_plan ad)"
proof -
  let ?app = "example_plane empty_registry"
  from example_admitted [OF empty_selects] obtain ad where
    a: "admit toy_ed25519 example_codec example_lib ''now'' ?app example_entry Admin None None (fst (next_run_id ?app)) = Inr ad"
    by blast
  have k: "ap_catalog_key ?app = ''key''" "ap_namespace ?app = run_namespace (replicate 16 (CHR ''n''))"
    by (simp_all add: example_plane_def)
  have "entry_sound toy_ed25519 example_lib (ap_catalog_key ?app) example_entry" using example_entry_sound k by simp
  from admitted_request_accepted [OF a this k(2)] k(1) show ?thesis by auto
qed

lemma carries_all: "carries (map (\<lambda>e. Message (Inr (Some e))) evs) evs"
  by (induction evs) simp_all



text \<open>
  The status of a terminal record is the state text of the runner's terminal event, whatever it says: an
  event of the kind \<open>FAILED\<close> whose state reads \<open>running\<close> leaves a record that is not terminal.
\<close>

lemma foreign_state_stays_open:
  assumes "rv_kind ev = KFailed" and "rv_state ev = ''running''" and "ad_endpoint ad \<noteq> None"
  shows "\<not> ar_is_terminal (finished_record now ''runner'' (settle T ''runner'' (Inr (fold_event ev default_outcome))) r)"
proof -
  have "to_ascii_uppercase ''running'' = ''RUNNING''" by code_simp
  with assms show ?thesis
    by (simp add: finished_record_def settle_def Let_def outcome_error_def fold_event_def terminal_kind_def
        default_outcome_def ar_is_terminal_def)
qed

end
