(* ===== verification/Civil_Time.thy ===== *)
theory Civil_Time
  imports Rust_Prelude
begin

text \<open>
  The two conversions of a clock to a UTC date: \<open>format_civil_timestamp\<close> of
  \<open>crates/asmodeus-telemetry/src/audit.rs\<close>, in closed form, and \<open>chrono_free_timestamp\<close> with
  \<open>days_to_ymd\<close> of \<open>compliance.rs\<close>, which counts years and months off. Days and years are far from the
  bounds of their \<open>u64\<close> and \<open>i64\<close> (a \<open>u64\<close> of seconds is less than \<open>2 ^ 48\<close> days), and every other value
  is small, so numbers are exact. The year loop is a partial function: that it ends is a theorem.
\<close>

section \<open>The conversions\<close>

text \<open>\<open>{:0w}\<close>\<close>

definition show_padded :: "nat \<Rightarrow> nat \<Rightarrow> string" where
  "show_padded w n = replicate (w - length (show_nat n)) (CHR ''0'') @ show_nat n"

definition civil_date :: "nat \<Rightarrow> nat \<times> nat \<times> nat" where
  "civil_date days =
     (let z = days + 719468;
          era = z div 146097;
          doe = z - era * 146097;
          yoe = (doe - doe div 1460 + doe div 36524 - doe div 146096) div 365;
          y = yoe + era * 400;
          doy = doe - (365 * yoe + yoe div 4 - yoe div 100);
          mp = (5 * doy + 2) div 153;
          d = doy - (153 * mp + 2) div 5 + 1;
          m = (if mp < 10 then mp + 3 else mp - 9);
          year = (if m \<le> 2 then y + 1 else y)
      in (year, m, d))"

definition show_date :: "nat \<times> nat \<times> nat \<Rightarrow> string" where
  "show_date ymd = (case ymd of (y, m, d) \<Rightarrow> show_padded 4 y @ ''-'' @ show_padded 2 m @ ''-'' @ show_padded 2 d)"

definition show_time :: "nat \<Rightarrow> string" where
  "show_time day_secs = show_padded 2 (day_secs div 3600) @ '':'' @ show_padded 2 (day_secs mod 3600 div 60)
     @ '':'' @ show_padded 2 (day_secs mod 60)"

definition format_civil_timestamp :: "nat \<Rightarrow> nat \<Rightarrow> string" where
  "format_civil_timestamp secs millis =
     show_date (civil_date (secs div 86400)) @ ''T'' @ show_time (secs mod 86400) @ ''.'' @ show_padded 3 millis @ ''Z''"

definition is_leap_year :: "nat \<Rightarrow> bool" where
  "is_leap_year year \<longleftrightarrow> (year mod 4 = 0 \<and> year mod 100 \<noteq> 0) \<or> year mod 400 = 0"

definition days_in_year :: "nat \<Rightarrow> nat" where
  "days_in_year year = (if is_leap_year year then 366 else 365)"

partial_function (option) year_loop :: "nat \<Rightarrow> nat \<Rightarrow> (nat \<times> nat) option" where
  "year_loop year d =
     (if d < days_in_year year then Some (year, d) else year_loop (year + 1) (d - days_in_year year))"

definition days_in_months :: "nat \<Rightarrow> nat list" where
  "days_in_months year = [31, if is_leap_year year then 29 else 28, 31, 30, 31, 30, 31, 31, 30, 31, 30, 31]"

fun month_loop :: "nat list \<Rightarrow> nat \<Rightarrow> nat \<Rightarrow> nat \<times> nat" where
  "month_loop [] month d = (month, d)"
| "month_loop (dim # dims) month d = (if d < dim then (month, d) else month_loop dims (month + 1) (d - dim))"

definition days_to_ymd :: "nat \<Rightarrow> (nat \<times> nat \<times> nat) option" where
  "days_to_ymd days =
     (case year_loop 1970 days of
        None \<Rightarrow> None
      | Some (year, d) \<Rightarrow> (case month_loop (days_in_months year) 1 d of (month, d) \<Rightarrow> Some (year, month, d + 1)))"

definition chrono_free_timestamp :: "nat \<Rightarrow> string option" where
  "chrono_free_timestamp total_secs =
     map_option (\<lambda>ymd. show_date ymd @ ''T'' @ show_time (total_secs mod 86400) @ ''Z'') (days_to_ymd (total_secs div 86400))"

section \<open>Years, counted from the first of March of the year 0\<close>

definition leaps :: "nat \<Rightarrow> nat" where
  "leaps y = y div 4 - y div 100 + y div 400"

definition march :: "nat \<Rightarrow> nat" where
  "march y = 365 * y + leaps y"

text \<open>The first of January of \<open>y\<close>, a year after the year 0.\<close>

definition january :: "nat \<Rightarrow> nat" where
  "january y = march (y - 1) + 306"

lemma leaps_Suc: "leaps (Suc y) = leaps y + (if is_leap_year (Suc y) then 1 else 0)"
proof -
  have m: "Suc y mod 400 = 0 \<Longrightarrow> Suc y mod 100 = 0" "Suc y mod 100 = 0 \<Longrightarrow> Suc y mod 4 = 0"
    using mod_mod_cancel [of 100 400 "Suc y"] mod_mod_cancel [of 4 100 "Suc y"] by simp_all
  obtain e where e: "y div 4 = y div 100 + e" using le_Suc_ex [OF div_le_mono2 [of 4 100 y]] by auto
  have s: "Suc y div k = y div k + (if Suc y mod k = 0 then 1 else 0)" for k by (simp add: div_Suc)
  show ?thesis
    unfolding leaps_def is_leap_year_def s [of 4] s [of 100] s [of 400] e
    using m by (cases "Suc y mod 4 = 0"; cases "Suc y mod 100 = 0"; cases "Suc y mod 400 = 0") simp_all
qed

lemma march_Suc: "march (Suc y) = march y + days_in_year (Suc y)"
  by (simp add: march_def leaps_Suc days_in_year_def)

lemma january_Suc: "1 \<le> y \<Longrightarrow> january (Suc y) = january y + days_in_year y"
  by (cases y) (simp_all add: january_def march_Suc)

lemma january_march: "1 \<le> y \<Longrightarrow> january y + days_in_year y = march y + 306"
  using january_Suc [of y] by (simp add: january_def)

text \<open>A day belongs to one year.\<close>

lemma year_unique:
  fixes f :: "nat \<Rightarrow> nat"
  assumes "f y \<le> d" "d < f (Suc y)" "f y' \<le> d" "d < f (Suc y')" and "\<And>n. f n \<le> f (Suc n)"
  shows "y = y'"
proof (rule ccontr)
  assume "y \<noteq> y'"
  then have "Suc y \<le> y' \<or> Suc y' \<le> y" by linarith
  then show False
    using assms lift_Suc_mono_le [of f] by (metis leD le_trans)
qed

lemma march_mono: "march n \<le> march (Suc n)"
  by (simp add: march_Suc)

section \<open>The year of the closed form\<close>

text \<open>A year of an era is its century, its cycle of four years and its place in that.\<close>

definition era_year :: "nat \<Rightarrow> nat" where
  "era_year doe = (doe - doe div 1460 + doe div 36524 - doe div 146096) div 365"

lemma era_year_parts:
  assumes "doe = 36524 * c + 1461 * q + 365 * s + k" and "c < 4" and "q < 25" and "s < 4"
    and "k < 365 \<or> k = 365 \<and> s = 3 \<and> (q < 24 \<or> c = 3)"
  shows "era_year doe = 100 * c + 4 * q + s"
proof -
  define t where "t = 24 * c + q + 365 * s + k"
  define u where "u = (if 1460 \<le> t then 1 else 0 :: nat)"
  define l where "l = (if k = 365 \<and> c = 3 \<and> q = 24 then 1 else 0 :: nat)"
  have t: "t < 2920" using assms by (auto simp: t_def)
  have "doe = 1460 * (25 * c + q) + t" by (simp add: assms(1) t_def)
  then have a: "doe div 1460 = 25 * c + q + u" using t by (auto simp: u_def)
  define r where "r = 1461 * q + 365 * s + k"
  have r: "doe = 36524 * c + r" "r = 36524 \<and> l = 1 \<or> r < 36524 \<and> l = 0"
    using assms by (auto simp: r_def l_def)
  then have b: "doe div 36524 = c + l" by auto
  have e: "doe div 146096 = l" using r assms(2-5) by (auto simp: r_def l_def)
  have "doe - doe div 1460 + doe div 36524 - doe div 146096 = 365 * (100 * c + 4 * q + s) + (k - u)"
    using assms unfolding a b e by (auto simp: u_def t_def)
  moreover have "k - u < 365" using assms by (auto simp: u_def t_def)
  ultimately show ?thesis by (simp add: era_year_def)
qed

lemma era_parts:
  fixes doe :: nat
  assumes "doe < 146097"
  obtains c q s k where "doe = 36524 * c + 1461 * q + 365 * s + k" and "c < 4" and "q < 25" and "s < 4"
    and "k < 365 \<or> k = 365 \<and> s = 3 \<and> (q < 24 \<or> c = 3)"
proof -
  define c where "c = min 3 (doe div 36524)"
  define r where "r = doe - 36524 * c"
  define q where "q = r div 1461"
  define t where "t = r mod 1461"
  define s where "s = min 3 (t div 365)"
  have r: "doe = 36524 * c + r" "r < 36524 \<or> r = 36524 \<and> c = 3" "c < 4"
    using assms by (auto simp: r_def c_def min_def)
  have t: "r = 1461 * q + t" "t < 1461" by (simp_all add: q_def t_def)
  have s: "t = 365 * s + (t - 365 * s)" "s < 4" "t - 365 * s < 365 \<or> t - 365 * s = 365 \<and> s = 3"
    using t(2) by (auto simp: s_def min_def)
  have q: "q < 25" "t - 365 * s = 365 \<Longrightarrow> s = 3 \<Longrightarrow> q < 24 \<or> c = 3" using r t by auto
  show thesis by (rule that [of c q s "t - 365 * s"]) (use r t s q in auto)
qed

text \<open>The year that starts in March and the day in it.\<close>

lemma civil_year:
  assumes "z = era * 146097 + doe" and "doe < 146097" and "yoe = era_year doe"
    and "doy = doe - (365 * yoe + yoe div 4 - yoe div 100)"
  shows "march (yoe + era * 400) + doy = z \<and> doy < days_in_year (Suc (yoe + era * 400))"
proof -
  obtain c q s k where doe: "doe = 36524 * c + 1461 * q + 365 * s + k" and b: "c < 4" "q < 25" "s < 4"
    and k: "k < 365 \<or> k = 365 \<and> s = 3 \<and> (q < 24 \<or> c = 3)"
    using era_parts [OF assms(2)] by blast
  have y: "yoe = 100 * c + 4 * q + s" using era_year_parts [OF doe b k] assms(3) by simp
  have d: "yoe div 4 = 25 * c + q" "yoe div 100 = c" "yoe div 400 = 0" using b unfolding y by auto
  then have doy: "doy = k" using assms(4) doe y by simp
  have "leaps (yoe + era * 400) = 97 * era + (24 * c + q)"
  proof -
    have "4 dvd era * 400" "100 dvd era * 400" "400 dvd era * 400" by simp_all
    then have "(yoe + era * 400) div 4 = yoe div 4 + era * 400 div 4" "(yoe + era * 400) div 100 = yoe div 100 + era * 400 div 100"
      "(yoe + era * 400) div 400 = yoe div 400 + era * 400 div 400"
      by (simp_all only: div_plus_div_distrib_dvd_right)
    then show ?thesis using d by (simp add: leaps_def)
  qed
  then have "march (yoe + era * 400) + k = z"
    unfolding march_def assms(1) doe y by simp
  moreover have "is_leap_year (Suc (yoe + era * 400))" if "k = 365"
  proof -
    from k that have s: "s = 3" "q < 24 \<or> c = 3" by auto
    define n where "n = c + 4 * era"
    have n: "Suc (yoe + era * 400) = 100 * n + 4 * (q + 1)" using s(1) by (simp add: y n_def)
    have "(100 * n + 4 * (q + 1)) mod 4 = 0" by (simp add: mod_eq_0_iff_dvd)
    moreover have "(100 * n + 4 * (q + 1)) mod 100 = 4 * (q + 1) mod 100" by simp
    moreover have "4 * (q + 1) mod 100 \<noteq> 0" if "q \<noteq> 24" using that b(2) by simp
    moreover have "(100 * n + 4 * (q + 1)) mod 400 = 0" if "q = 24" "c = 3"
    proof -
      have "100 * n + 4 * (q + 1) = 400 * (era + 1)" using that by (simp add: n_def)
      then show ?thesis by (simp only: mod_mult_self1_is_0)
    qed
    ultimately show ?thesis using s(2) unfolding is_leap_year_def n by (metis less_irrefl)
  qed
  then have "k < days_in_year (Suc (yoe + era * 400))" using k by (auto simp: days_in_year_def)
  ultimately show ?thesis by (simp add: doy)
qed

section \<open>The loops\<close>

lemma year_loop_ends:
  assumes "1 \<le> year"
  shows "\<exists>y d'. year_loop year d = Some (y, d') \<and> january y + d' = january year + d \<and> d' < days_in_year y
    \<and> year \<le> y \<and> y \<le> year + d div 365"
  using assms
proof (induction d arbitrary: year rule: less_induct)
  case (less d)
  show ?case
  proof (cases "d < days_in_year year")
    case True
    then show ?thesis by (subst year_loop.simps) simp
  next
    case False
    have n: "365 \<le> days_in_year year" by (simp add: days_in_year_def)
    with False have "d - days_in_year year < d" by linarith
    from less.IH [OF this, of "Suc year"] obtain y d' where
      r: "year_loop (Suc year) (d - days_in_year year) = Some (y, d')"
        "january y + d' = january (Suc year) + (d - days_in_year year)" "d' < days_in_year y"
        "Suc year \<le> y" "y \<le> Suc year + (d - days_in_year year) div 365" by auto
    have "(d - days_in_year year) div 365 \<le> (d - 365) div 365" using n by (intro div_le_mono) linarith
    moreover have "Suc ((d - 365) div 365) = d div 365" using False n by (simp add: div_if [of d 365])
    ultimately show ?thesis
      using r False january_Suc [OF less.prems] by (subst year_loop.simps) auto
  qed
qed

lemma month_loop_sound:
  assumes "d < sum_list dims"
  shows "\<exists>m d'. month_loop dims month d = (month + m, d') \<and> m < length dims \<and> d' < dims ! m
    \<and> d = sum_list (take m dims) + d'"
  using assms
proof (induction dims arbitrary: month d)
  case (Cons dim dims)
  show ?case
  proof (cases "d < dim")
    case True
    then show ?thesis by (intro exI [of _ 0] exI [of _ d]) simp
  next
    case False
    with Cons.prems have "d - dim < sum_list dims" by auto
    from Cons.IH [OF this, of "month + 1"] obtain m d' where
      r: "month_loop dims (Suc month) (d - dim) = (Suc month + m, d')" "m < length dims" "d' < dims ! m"
        "d - dim = sum_list (take m dims) + d'" by auto
    with False show ?thesis by (intro exI [of _ "Suc m"] exI [of _ d']) auto
  qed
qed simp

lemma sum_months: "sum_list (days_in_months y) = days_in_year y"
  by (simp add: days_in_months_def days_in_year_def)

lemma month_loop_at:
  "m < length dims \<Longrightarrow> j < dims ! m \<Longrightarrow> month_loop dims month (sum_list (take m dims) + j) = (month + m, j)"
proof (induction dims arbitrary: month m)
  case (Cons dim dims)
  then show ?case by (cases m) auto
qed simp

text \<open>The months of the closed form are those the months loop counts off.\<close>

lemma month_bounds:
  fixes doy :: nat
  defines "mp \<equiv> (5 * doy + 2) div 153"
  shows "(153 * mp + 2) div 5 \<le> doy" and "doy < (153 * mp + 155) div 5"
proof -
  have mp: "153 * mp \<le> 5 * doy + 2" "5 * doy + 2 < 153 * mp + 153"
    unfolding mp_def by (simp, metis mult.commute mult_Suc_right add.commute dividend_less_div_times zero_less_numeral)
  then have "153 * mp + 2 < Suc doy * 5" by simp
  then show "(153 * mp + 2) div 5 \<le> doy" using less_mult_imp_div_less [of "153 * mp + 2" "Suc doy" 5] by simp
  from mp(2) have "Suc doy * 5 \<le> 153 * mp + 155" by simp
  then show "doy < (153 * mp + 155) div 5"
    using less_eq_div_iff_mult_less_eq [of 5 "Suc doy" "153 * mp + 155"] by simp
qed

lemma months_after:
  assumes "doy < 306"
  shows "month_loop (days_in_months y) 1 (doy + (if is_leap_year y then 60 else 59))
    = ((5 * doy + 2) div 153 + 3, doy - (153 * ((5 * doy + 2) div 153) + 2) div 5) \<and> (5 * doy + 2) div 153 < 10"
proof -
  define mp where "mp = (5 * doy + 2) div 153"
  define j where "j = doy - (153 * mp + 2) div 5"
  have doy: "doy = (153 * mp + 2) div 5 + j" "(153 * mp + 2) div 5 + j < (153 * mp + 155) div 5"
    using month_bounds [of doy] by (simp_all add: mp_def j_def)
  have "5 * doy + 2 < 10 * 153" using assms by simp
  then have mp: "mp < 10" unfolding mp_def by (rule less_mult_imp_div_less)
  then have "mp \<in> {0, 1, 2, 3, 4, 5, 6, 7, 8, 9}" by auto
  then have t: "(153 * mp + 2) div 5 + (if is_leap_year y then 60 else 59) = sum_list (take (mp + 2) (days_in_months y))
      \<and> (153 * mp + 155) div 5 = (153 * mp + 2) div 5 + days_in_months y ! (mp + 2) \<and> mp + 2 < length (days_in_months y)"
    by (elim insertE emptyE) (simp_all add: days_in_months_def)
  then have "month_loop (days_in_months y) 1 (sum_list (take (mp + 2) (days_in_months y)) + j) = (1 + (mp + 2), j)"
    using doy(2) by (intro month_loop_at) auto
  moreover have "doy + (if is_leap_year y then 60 else 59) = sum_list (take (mp + 2) (days_in_months y)) + j"
    using doy(1) conjunct1 [OF t] by linarith
  ultimately show ?thesis using mp unfolding mp_def [symmetric] j_def [symmetric] by simp
qed

lemma months_before:
  assumes "306 \<le> doy" and "doy < 366" and "doy = 365 \<Longrightarrow> is_leap_year y"
  shows "month_loop (days_in_months y) 1 (doy - 306)
    = ((5 * doy + 2) div 153 - 9, doy - (153 * ((5 * doy + 2) div 153) + 2) div 5) \<and> 10 \<le> (5 * doy + 2) div 153
      \<and> (5 * doy + 2) div 153 < 12"
proof -
  define mp where "mp = (5 * doy + 2) div 153"
  define j where "j = doy - (153 * mp + 2) div 5"
  have doy: "doy = (153 * mp + 2) div 5 + j" "(153 * mp + 2) div 5 + j < (153 * mp + 155) div 5"
    using month_bounds [of doy] by (simp_all add: mp_def j_def)
  have "5 * doy + 2 < 12 * 153" using assms by simp
  then have mp: "mp < 12" unfolding mp_def by (rule less_mult_imp_div_less)
  have "\<not> mp < 10"
  proof
    assume "mp < 10"
    then have "(153 * mp + 155) div 5 \<le> (153 * 9 + 155) div 5" by (intro div_le_mono) simp
    with doy assms(1) show False by simp
  qed
  with mp have "mp = 10 \<or> mp = 11" by linarith
  then have "mp - 10 < length (days_in_months y) \<and> j < days_in_months y ! (mp - 10)
      \<and> doy - 306 = sum_list (take (mp - 10) (days_in_months y)) + j"
    using doy assms by (elim disjE; auto simp: days_in_months_def; linarith)
  then have "month_loop (days_in_months y) 1 (doy - 306) = (1 + (mp - 10), j)" using month_loop_at by metis
  with mp \<open>\<not> mp < 10\<close> show ?thesis unfolding mp_def [symmetric] j_def [symmetric] by simp
qed

section \<open>The two agree\<close>

text \<open>The date of the closed form lies in its year, as the loops count it.\<close>

lemma civil_date_sound:
  assumes "civil_date days = (year, m, d)"
  shows "1 \<le> year \<and> january year \<le> days + 719468 \<and> days + 719468 < january (Suc year) \<and> 1 \<le> d
    \<and> month_loop (days_in_months year) 1 (days + 719468 - january year) = (m, d - 1)"
proof -
  define z where "z = days + 719468"
  define era where "era = z div 146097"
  define doe where "doe = z - era * 146097"
  define yoe where "yoe = era_year doe"
  define y where "y = yoe + era * 400"
  define doy where "doy = doe - (365 * yoe + yoe div 4 - yoe div 100)"
  define mp where "mp = (5 * doy + 2) div 153"
  have z: "z = era * 146097 + doe" "doe < 146097" by (simp_all add: doe_def era_def minus_div_mult_eq_mod)
  from civil_year [OF z yoe_def doy_def] have y: "march y + doy = z" "doy < days_in_year (Suc y)" by (simp_all add: y_def)
  have "1969 \<le> y"
  proof (rule ccontr)
    assume "\<not> 1969 \<le> y"
    then have "Suc y \<le> 1969" by simp
    then have "march (Suc y) \<le> march 1969" by (rule lift_Suc_mono_le [of march, OF march_mono])
    with y have "z < march 1969" unfolding march_Suc by linarith
    moreover have "march 1969 = 719162" by (simp add: march_def leaps_def)
    ultimately show False unfolding z_def by linarith
  qed
  then have y1: "1 \<le> y" by simp
  note jan = january_march [OF y1] january_Suc [OF y1] january_Suc [of "Suc y"]
  have date: "(year, m, d) = (if mp < 10 then (if mp + 3 \<le> 2 then y + 1 else y) else if mp - 9 \<le> 2 then y + 1 else y,
      if mp < 10 then mp + 3 else mp - 9, doy - (153 * mp + 2) div 5 + 1)"
    unfolding assms [symmetric] civil_date_def Let_def z_def [symmetric] era_def [symmetric] doe_def [symmetric]
        era_year_def [symmetric] yoe_def [symmetric] y_def [symmetric] doy_def [symmetric] mp_def [symmetric]
    by (cases "mp < 10") simp_all
  show ?thesis
  proof (cases "doy < 306")
    case True
    from months_after [OF True, of y] have mp: "mp < 10"
      and l: "month_loop (days_in_months y) 1 (doy + (if is_leap_year y then 60 else 59)) = (mp + 3, doy - (153 * mp + 2) div 5)"
      by (simp_all add: mp_def)
    have "z - january y = doy + (if is_leap_year y then 60 else 59)" "january y \<le> z" "z < january (Suc y)"
      using y jan True by (auto simp: days_in_year_def split: if_splits)
    with l mp date y1 show ?thesis by (simp add: z_def)
  next
    case False
    have leap: "doy = 365 \<Longrightarrow> is_leap_year (Suc y)" "doy < 366" using y(2) by (auto simp: days_in_year_def split: if_splits)
    from months_before [of doy "Suc y"] False leap have mp: "10 \<le> mp" "mp < 12"
      and l: "month_loop (days_in_months (Suc y)) 1 (doy - 306) = (mp - 9, doy - (153 * mp + 2) div 5)"
      by (auto simp: mp_def)
    have "z - january (Suc y) = doy - 306" "january (Suc y) \<le> z" "z < january (Suc (Suc y))"
      using y jan False leap(2) by (auto simp: days_in_year_def)
    with l mp date y1 show ?thesis by (simp add: z_def)
  qed
qed

lemma january_1970: "january 1970 = 719468"
  by (simp add: january_def march_def leaps_def)

lemma january_mono: "january n \<le> january (Suc n)"
  using march_mono [of "n - 1"] by (cases n) (simp_all add: january_def)

lemma days_to_ymd_eq: "days_to_ymd days = Some (civil_date days)"
proof -
  obtain year m d where c: "civil_date days = (year, m, d)" by (cases "civil_date days")
  from civil_date_sound [OF c] have s: "1 \<le> year" "january year \<le> days + 719468" "days + 719468 < january (Suc year)" "1 \<le> d"
    "month_loop (days_in_months year) 1 (days + 719468 - january year) = (m, d - 1)" by blast+
  from year_loop_ends [of 1970 days] obtain y d' where
    l: "year_loop 1970 days = Some (y, d')" "january y + d' = january 1970 + days" "d' < days_in_year y" "1970 \<le> y" by auto
  then have "january y \<le> days + 719468" "days + 719468 < january (Suc y)"
    using january_Suc [of y] by (simp_all add: january_1970)
  from year_unique [of january, OF this s(2,3) january_mono] have y: "y = year" .
  with l have "d' = days + 719468 - january year" by (simp add: january_1970)
  with l s y c show ?thesis by (simp add: days_to_ymd_def)
qed


text \<open>
  C31: The two timestamps of one second agree: the date counted off year by year and month by month is
  the date of the closed form, so the audit trail and the compliance report name it alike, down to the
  fraction that only the audit trail shows.
\<close>
theorem timestamps_agree:
  "days_to_ymd days = Some (civil_date days)
    \<and> (\<exists>t. chrono_free_timestamp secs = Some (t @ ''Z'')
    \<and> format_civil_timestamp secs millis = t @ ''.'' @ show_padded 3 millis @ ''Z'')"
  by (simp add: chrono_free_timestamp_def format_civil_timestamp_def days_to_ymd_eq)

end
