(* ===== verification/Clickhouse.thy ===== *)
theory Clickhouse
  imports Example_Codec
begin

text \<open>
  \<open>crates/asmodeus-telemetry/src/clickhouse.rs\<close>: the export of audit records as a batch \<open>INSERT\<close> and as
  newline-delimited JSON. The reader of SQL values at the end is the syntax ClickHouse documents for
  string literals (a doubled quote, backslash escapes) and numbers; reading a row back gives the fields of
  the record, whatever they contain.
\<close>

section \<open>The export\<close>

fun str_join :: "string \<Rightarrow> string list \<Rightarrow> string" where
  "str_join sep [] = []"
| "str_join sep [x] = x"
| "str_join sep (x # y # xs) = x @ sep @ str_join sep (y # xs)"

abbreviation QUOTE :: char where
  "QUOTE \<equiv> CHR 0x27"

abbreviation BACKSLASH :: char where
  "BACKSLASH \<equiv> CHR 0x5C"

abbreviation TAB :: char where
  "TAB \<equiv> CHR 0x09"

definition escape_char :: "char \<Rightarrow> string" where
  "escape_char ch =
     (if ch = QUOTE then [QUOTE, QUOTE]
      else if ch = BACKSLASH then [BACKSLASH, BACKSLASH]
      else if ch = LF then [BACKSLASH, CHR ''n'']
      else if ch = CR then [BACKSLASH, CHR ''r'']
      else if ch = TAB then [BACKSLASH, CHR ''t'']
      else [ch])"

definition escape_sql_string :: "string \<Rightarrow> string" where
  "escape_sql_string input = concat (map escape_char input)"

datatype sql_value = SqlText string | SqlNumber nat

fun show_sql :: "sql_value \<Rightarrow> string" where
  "show_sql (SqlText s) = [QUOTE] @ escape_sql_string s @ [QUOTE]"
| "show_sql (SqlNumber n) = show_nat n"

text \<open>serde_json's text of the optional evidence.\<close>

definition evidence_json :: "audit_codec \<Rightarrow> audit_record \<Rightarrow> string" where
  "evidence_json J r = (case ar_evidence r of None \<Rightarrow> ''null'' | Some e \<Rightarrow> jc_evidence J e)"

definition sql_fields :: "audit_codec \<Rightarrow> audit_record \<Rightarrow> sql_value list" where
  "sql_fields J r =
     [SqlText (ar_run_id r), SqlText (ar_scenario_id r), SqlText (ar_scenario_name r), SqlText (ar_category r),
      SqlText (ar_mitre_technique r), SqlText (ar_mitre_tactic r), SqlText (ar_severity r), SqlText (ar_tag r),
      SqlText (ar_initiator r), SqlText (ar_runner_id r), SqlText (ar_status r),
      SqlNumber (ms_mttd_ms (ar_measurements r)), SqlNumber (ms_mttr_ms (ar_measurements r)),
      SqlNumber (if ms_blue_team_detected (ar_measurements r) then 1 else 0),
      SqlText (ar_detection_source r), SqlText (ar_containment_action r), SqlText (ar_cleanup_status r),
      SqlText (ar_timestamp_utc r), SqlText (ar_signature_hex r), SqlText (ar_public_key_hex r),
      SqlText (evidence_json J r)]"

definition record_to_sql_row :: "audit_codec \<Rightarrow> audit_record \<Rightarrow> string" where
  "record_to_sql_row J r = ''('' @ str_join '', '' (map show_sql (sql_fields J r)) @ '')''"

definition INSERT_HEAD :: string where
  "INSERT_HEAD = ''INSERT INTO apex.asmodeus_runs ('' @ [LF]
     @ ''    run_id, scenario_id, scenario_name, category, mitre_technique, mitre_tactic,'' @ [LF]
     @ ''    severity, tag, initiator, runner_id, status, mttd_ms, mttr_ms, blue_team_detected,'' @ [LF]
     @ ''    detection_source, containment_action, cleanup_status, timestamp, signature_hex, public_key_hex, evidence_json'' @ [LF]
     @ '') VALUES'' @ [LF]"

definition records_to_clickhouse_sql :: "audit_codec \<Rightarrow> audit_record list \<Rightarrow> string" where
  "records_to_clickhouse_sql J records =
     (if records = [] then []
      else INSERT_HEAD @ str_join ('','' @ [LF]) (map (record_to_sql_row J) records) @ '';'' @ [LF])"

text \<open>The flattened row; \<open>row_json\<close> is serde_json's text of one.\<close>

record clickhouse_json_row =
  cj_text :: "string list"
  cj_mttd_ms :: nat
  cj_mttr_ms :: nat
  cj_blue_team_detected :: nat
  cj_rest :: "string list"

definition clickhouse_json_row_of :: "audit_codec \<Rightarrow> audit_record \<Rightarrow> clickhouse_json_row" where
  "clickhouse_json_row_of J r =
     \<lparr>cj_text = [ar_run_id r, ar_scenario_id r, ar_scenario_name r, ar_category r, ar_mitre_technique r,
        ar_mitre_tactic r, ar_severity r, ar_tag r, ar_initiator r, ar_runner_id r, ar_status r],
      cj_mttd_ms = ms_mttd_ms (ar_measurements r), cj_mttr_ms = ms_mttr_ms (ar_measurements r),
      cj_blue_team_detected = (if ms_blue_team_detected (ar_measurements r) then 1 else 0),
      cj_rest = [ar_detection_source r, ar_containment_action r, ar_cleanup_status r, ar_timestamp_utc r,
        ar_signature_hex r, ar_public_key_hex r, evidence_json J r]\<rparr>"

fun records_to_clickhouse_ndjson ::
  "audit_codec \<Rightarrow> (clickhouse_json_row \<Rightarrow> string + string) \<Rightarrow> audit_record list \<Rightarrow> string + string" where
  "records_to_clickhouse_ndjson J row_json [] = Inr []"
| "records_to_clickhouse_ndjson J row_json (r # rs) =
     and_then (row_json (clickhouse_json_row_of J r)) (\<lambda>line.
     and_then (records_to_clickhouse_ndjson J row_json rs) (\<lambda>out. Inr (line @ [LF] @ out)))"

section \<open>Reading it back\<close>

text \<open>The rest of a string literal after its opening quote, and what follows the closing one.\<close>

fun read_literal :: "string \<Rightarrow> (string \<times> string) option" where
  "read_literal [] = None"
| "read_literal [c] = (if c = QUOTE then Some ([], []) else None)"
| "read_literal (c # d # cs) =
     (if c = QUOTE then (if d = QUOTE then map_option (\<lambda>(s, r). (QUOTE # s, r)) (read_literal cs) else Some ([], d # cs))
      else if c = BACKSLASH then
        map_option (\<lambda>(s, r). ((if d = CHR ''n'' then LF else if d = CHR ''r'' then CR else if d = CHR ''t'' then TAB else d) # s, r))
          (read_literal cs)
      else map_option (\<lambda>(s, r). (c # s, r)) (read_literal (d # cs)))"

fun read_number :: "nat \<Rightarrow> string \<Rightarrow> nat \<times> string" where
  "read_number acc [] = (acc, [])"
| "read_number acc (c # cs) = (case to_digit 10 c of Some d \<Rightarrow> read_number (acc * 10 + d) cs | None \<Rightarrow> (acc, c # cs))"

fun read_value :: "string \<Rightarrow> (sql_value \<times> string) option" where
  "read_value [] = None"
| "read_value (c # cs) =
     (if c = QUOTE then map_option (\<lambda>(s, r). (SqlText s, r)) (read_literal cs)
      else if to_digit 10 c \<noteq> None then (case read_number 0 (c # cs) of (n, r) \<Rightarrow> Some (SqlNumber n, r)) else None)"

fun read_values :: "nat \<Rightarrow> string \<Rightarrow> (sql_value list \<times> string) option" where
  "read_values 0 cs = None"
| "read_values (Suc n) cs =
     (case read_value cs of
        None \<Rightarrow> None
      | Some (v, r) \<Rightarrow>
          if take 2 r = '', '' then map_option (\<lambda>(vs, r'). (v # vs, r')) (read_values n (drop 2 r))
          else if take 1 r = '')'' then Some ([v], drop 1 r) else None)"

definition read_row :: "string \<Rightarrow> (sql_value list \<times> string) option" where
  "read_row cs = (if take 1 cs = ''('' then read_values (length cs) (drop 1 cs) else None)"

lemma read_escaped: "take 1 rest \<noteq> [QUOTE] \<Longrightarrow> read_literal (escape_sql_string s @ QUOTE # rest) = Some (s, rest)"
proof (induction s)
  case Nil
  then show ?case by (cases rest) (auto simp: escape_sql_string_def)
next
  case (Cons c s)
  have ne: "\<exists>d ds. escape_sql_string s @ QUOTE # rest = d # ds" by (cases "escape_sql_string s") auto
  then obtain d ds where d: "escape_sql_string s @ QUOTE # rest = d # ds" by blast
  have "escape_sql_string (c # s) @ QUOTE # rest = escape_char c @ d # ds"
    using d by (simp add: escape_sql_string_def)
  with Cons d show ?case by (simp add: escape_char_def)
qed

lemma read_digits: "digits_val 10 acc s = Some n \<Longrightarrow> read_number acc (s @ rest) = read_number n rest"
  by (induction s arbitrary: acc) (auto split: option.splits)

lemma show_nat_head: "\<exists>c cs. show_nat n = c # cs \<and> to_digit 10 c \<noteq> None"
proof (induction n rule: show_nat.induct)
  case (1 n)
  have d: "to_digit 10 (chr (48 + m)) \<noteq> None" if "m < 10" for m
    using that by (simp add: to_digit_def Let_def)
  show ?case
  proof (cases "n < 10")
    case True
    with d show ?thesis by (subst show_nat.simps) simp
  next
    case False
    with 1 obtain c cs where "show_nat (n div 10) = c # cs" "to_digit 10 c \<noteq> None" by blast
    with False show ?thesis by (subst show_nat.simps) simp
  qed
qed

lemma quote_no_digit: "to_digit 10 QUOTE = None" "to_digit 10 (CHR '','') = None" "to_digit 10 (CHR '')'') = None"
  by (simp_all add: to_digit_def byte_def)

lemma read_shown:
  assumes "rest = c # cs" and "c = CHR '','' \<or> c = CHR '')''"
  shows "read_value (show_sql v @ rest) = Some (v, rest)"
proof (cases v)
  case (SqlText s)
  have "read_literal (escape_sql_string s @ QUOTE # rest) = Some (s, rest)"
    using assms by (intro read_escaped) auto
  with SqlText show ?thesis by simp
next
  case (SqlNumber n)
  obtain d ds where d: "show_nat n = d # ds" "to_digit 10 d \<noteq> None" using show_nat_head by blast
  then have "d \<noteq> QUOTE" using quote_no_digit(1) by auto
  moreover have "read_number 0 (show_nat n @ rest) = (n, rest)"
    using read_digits [OF show_nat_digits, of n rest] assms quote_no_digit(2,3) by auto
  ultimately show ?thesis using SqlNumber d by auto
qed

lemma read_joined:
  "vs \<noteq> [] \<Longrightarrow> length vs \<le> n \<Longrightarrow> read_values n (str_join '', '' (map show_sql vs) @ CHR '')'' # rest) = Some (vs, rest)"
proof (induction n arbitrary: vs)
  case (Suc n)
  then obtain v ws where vs: "vs = v # ws" by (cases vs) auto
  show ?case
  proof (cases ws)
    case Nil
    with vs read_shown [of "CHR '')'' # rest" "CHR '')''" rest v] show ?thesis by simp
  next
    case (Cons w us)
    let ?r = "str_join '', '' (map show_sql ws) @ CHR '')'' # rest"
    have j: "str_join '', '' (map show_sql vs) @ CHR '')'' # rest = show_sql v @ CHR '','' # CHR '' '' # ?r"
      using vs Cons by simp
    have "read_value (show_sql v @ CHR '','' # CHR '' '' # ?r) = Some (v, CHR '','' # CHR '' '' # ?r)"
      by (rule read_shown) auto
    moreover have "read_values n ?r = Some (ws, rest)" using Suc.IH [of ws] Suc.prems(2) vs Cons by simp
    ultimately show ?thesis unfolding j using vs by simp
  qed
qed simp

lemma join_length: "length xs \<le> length (str_join '', '' xs) + 1"
  by (induction "'', '' :: string" xs rule: str_join.induct) auto

text \<open>
  C34: A row of the ClickHouse export reads back as the fields of its record, whatever they contain: no
  quote, backslash or control character in a field ends its literal early or changes it, so no field can
  add a value, a row or a statement.
\<close>
theorem sql_row_roundtrip:
  "read_row (record_to_sql_row J r @ rest) = Some (sql_fields J r, rest)"
proof -
  let ?row = "str_join '', '' (map show_sql (sql_fields J r)) @ CHR '')'' # rest"
  have "length (sql_fields J r) \<le> length (str_join '', '' (map show_sql (sql_fields J r))) + 1"
    using join_length [of "map show_sql (sql_fields J r)"] by simp
  moreover have "sql_fields J r \<noteq> []" by (simp add: sql_fields_def)
  ultimately have "read_values (length (CHR ''('' # ?row)) ?row = Some (sql_fields J r, rest)"
    by (intro read_joined) auto
  moreover have "record_to_sql_row J r @ rest = CHR ''('' # ?row" by (simp add: record_to_sql_row_def)
  ultimately show ?thesis by (simp only: read_row_def) simp
qed

end
