(* ===== verification/Compliance.thy ===== *)
theory Compliance
  imports Aggregates Float32 Civil_Time
begin

text \<open>
  \<open>crates/asmodeus-telemetry/src/compliance.rs\<close>: the compliance report over six controls of NIST CSF 2.0
  and PCI-DSS 4. The detection rate is computed in single precision (\<open>Float32\<close>); the lemmas show that
  the thresholds decide as the exact ratio does while a control has fewer than \<open>2 ^ 20\<close> runs. The texts of
  the report (Markdown, JSON) are not modelled.
\<close>

section \<open>Scenarios and controls\<close>

record scenario_technique =
  st_technique_id :: string
  st_fidelity :: string

record scenario_meta =
  sm_id :: string
  sm_name :: string
  sm_category :: string
  sm_mitre_technique :: string
  sm_fidelity :: string
  sm_technique_refs :: "scenario_technique list"

definition is_behavioral :: "scenario_meta \<Rightarrow> bool" where
  "is_behavioral s \<longleftrightarrow> sm_fidelity s = ''behavioral''"

definition matches_any :: "string list \<Rightarrow> scenario_meta \<Rightarrow> bool" where
  "matches_any techniques s \<longleftrightarrow>
     (if list_ex (\<lambda>r. List.member techniques (st_technique_id r)) (sm_technique_refs s) then True
      else List.member techniques (sm_mitre_technique s))"

definition is_behavioral_for_any :: "string list \<Rightarrow> scenario_meta \<Rightarrow> bool" where
  "is_behavioral_for_any techniques s \<longleftrightarrow>
     (if sm_technique_refs s \<noteq> []
      then list_ex (\<lambda>r. st_fidelity r = ''behavioral'' \<and> List.member techniques (st_technique_id r)) (sm_technique_refs s)
      else is_behavioral s \<and> List.member techniques (sm_mitre_technique s))"

datatype standard = NistCsf2 | PciDss4

fun standard_as_str :: "standard \<Rightarrow> string" where
  "standard_as_str NistCsf2 = ''NIST CSF 2.0''"
| "standard_as_str PciDss4 = ''PCI-DSS v4.0''"

record control_def =
  cd_id :: string
  cd_standard :: standard
  cd_title :: string
  cd_description :: string
  cd_techniques :: "string list"

definition CONTROLS :: "control_def list" where
  "CONTROLS =
    [\<lparr>cd_id = ''NIST-DE.CM-01'', cd_standard = NistCsf2,
       cd_title = ''Continuous Monitoring & Event Detection'',
       cd_description = ''Networks and computing environments are continuously monitored to detect potential cybersecurity events.'',
       cd_techniques = [''T1071'', ''T1568'', ''T1041'']\<rparr>,
     \<lparr>cd_id = ''NIST-PR.DS-01'', cd_standard = NistCsf2,
       cd_title = ''Data-at-Rest Protection'',
       cd_description = ''Data-at-rest is protected against unauthorized modification or destruction (e.g. ransomware canary validation).'',
       cd_techniques = [''T1486'']\<rparr>,
     \<lparr>cd_id = ''NIST-PR.AC-04'', cd_standard = NistCsf2,
       cd_title = ''Credential & Access Protection'',
       cd_description = ''Access permissions and authentication credentials are managed and guarded (e.g. honeytoken access canary).'',
       cd_techniques = [''T1003'']\<rparr>,
     \<lparr>cd_id = ''NIST-RS.RP-01'', cd_standard = NistCsf2,
       cd_title = ''Incident Response Plan Execution'',
       cd_description = ''Response processes and procedures are executed and maintained to contain incidents within target MTTR.'',
       cd_techniques = [''T1486'', ''T1611'', ''T1053'', ''T1562.001'']\<rparr>,
     \<lparr>cd_id = ''PCI-DSS-11.4'', cd_standard = PciDss4,
       cd_title = ''Breach & Attack Simulation / Penetration Testing'',
       cd_description = ''External and internal penetration testing and attack simulation methodologies are actively validated.'',
       cd_techniques = [''T1486'', ''T1611'', ''T1071'', ''T1003'', ''T1041'']\<rparr>,
     \<lparr>cd_id = ''PCI-DSS-11.5'', cd_standard = PciDss4,
       cd_title = ''Intrusion Detection / Prevention System Validation'',
       cd_description = ''Network and host intrusion-detection and/or intrusion-prevention techniques are actively verified.'',
       cd_techniques = [''T1070'', ''T1053'', ''T1562.001'']\<rparr>]"

record compliance_control =
  cc_control_id :: string
  cc_standard :: string
  cc_title :: string
  cc_description :: string
  cc_mapped_techniques :: "string list"
  cc_matching_scenarios :: "string list"
  cc_behavioral_scenarios :: "string list"
  cc_marker_only_scenarios :: "string list"
  cc_prevention_eligible :: bool
  cc_coverage_note :: "string option"
  cc_total_runs :: nat
  cc_detected_runs :: nat
  cc_detection_rate_pct :: rat
  cc_status :: string

record compliance_report =
  cr_generated_at_utc :: string
  cr_total_controls :: nat
  cr_compliant_controls :: nat
  cr_partial_controls :: nat
  cr_non_compliant_controls :: nat
  cr_overall_compliance_score :: nat
  cr_controls :: "compliance_control list"

section \<open>The report\<close>

definition MARKER_NOTE :: string where
  "MARKER_NOTE = ''marker-only coverage: matched scenarios prove indicator detection only, '' @
     ''not behavioural execution or prevention of the mapped technique(s)''"

definition matching_runs :: "string list \<Rightarrow> audit_record list \<Rightarrow> audit_record list" where
  "matching_runs techniques records =
     filter (\<lambda>r. has_confirmed_feedback r \<and> list_ex (\<lambda>t. ar_mitre_technique r = t) techniques) records"

definition detected_count :: "audit_record list \<Rightarrow> nat" where
  "detected_count rs = length (filter (\<lambda>r. ms_blue_team_detected (ar_measurements r)) rs)"

definition detection_rate :: "nat \<Rightarrow> nat \<Rightarrow> rat" where
  "detection_rate detected tot =
     (if tot > 0 then f32_mul (f32_div (f32_of_nat detected) (f32_of_nat tot)) 100 else 0)"

definition control_status :: "string list \<Rightarrow> nat \<Rightarrow> rat \<Rightarrow> string" where
  "control_status matching tot rate =
     (if matching = [] then ''NOT_TESTED''
      else if tot = 0 then ''NO_EVIDENCE''
      else if rate \<ge> 80 then ''COMPLIANT''
      else if rate \<ge> 40 then ''PARTIAL''
      else ''NON_COMPLIANT'')"

definition evaluate_control :: "scenario_meta list \<Rightarrow> audit_record list \<Rightarrow> control_def \<Rightarrow> compliance_control" where
  "evaluate_control scenarios records d =
     (let techniques = cd_techniques d;
          matched = filter (matches_any techniques) scenarios;
          matching = map sm_id matched;
          behavioral = map sm_id (filter (is_behavioral_for_any techniques) matched);
          marker_only = map sm_id (filter (\<lambda>s. \<not> is_behavioral_for_any techniques s) matched);
          eligible = (behavioral \<noteq> []);
          runs = matching_runs techniques records;
          tot = length runs;
          detected = detected_count runs;
          rate = detection_rate detected tot in
      \<lparr>cc_control_id = cd_id d, cc_standard = standard_as_str (cd_standard d), cc_title = cd_title d,
       cc_description = cd_description d, cc_mapped_techniques = techniques, cc_matching_scenarios = matching,
       cc_behavioral_scenarios = behavioral, cc_marker_only_scenarios = marker_only,
       cc_prevention_eligible = eligible,
       cc_coverage_note = (if matching \<noteq> [] \<and> \<not> eligible then Some MARKER_NOTE else None),
       cc_total_runs = tot, cc_detected_runs = detected, cc_detection_rate_pct = rate,
       cc_status = control_status matching tot rate\<rparr>)"

text \<open>One round of the loop: the three counters and the evaluated controls.\<close>

definition tally :: "compliance_control \<Rightarrow> nat \<times> nat \<times> nat \<times> compliance_control list \<Rightarrow> nat \<times> nat \<times> nat \<times> compliance_control list" where
  "tally c acc = (case acc of (compliant, partly, non, cs) \<Rightarrow>
     (if cc_status c = ''COMPLIANT'' then (compliant + 1, partly, non, cs @ [c])
      else if cc_status c = ''PARTIAL'' then (compliant, partly + 1, non, cs @ [c])
      else (compliant, partly, non + 1, cs @ [c])))"

definition overall_score :: "nat \<Rightarrow> nat \<Rightarrow> nat \<Rightarrow> nat" where
  "overall_score compliant partly tot =
     (if tot > 0
      then f32_as_u8 (f32_clamp 0 100
        (f32_div (f32_add (f32_mul (f32_of_nat compliant) 100) (f32_mul (f32_of_nat partly) 50)) (f32_of_nat tot)))
      else 0)"

text \<open>The time stamp is computed by a loop (\<open>Civil_Time\<close>); \<open>None\<close> stands for its not ending.\<close>

definition generate :: "nat \<Rightarrow> scenario_meta list \<Rightarrow> audit_record list \<Rightarrow> compliance_report option" where
  "generate secs scenarios records =
     (case fold tally (map (evaluate_control scenarios records) CONTROLS) (0, 0, 0, []) of
        (compliant, partly, non, controls) \<Rightarrow>
          map_option (\<lambda>now.
            \<lparr>cr_generated_at_utc = now, cr_total_controls = length controls, cr_compliant_controls = compliant,
             cr_partial_controls = partly, cr_non_compliant_controls = non,
             cr_overall_compliance_score = overall_score compliant partly (length controls),
             cr_controls = controls\<rparr>)
          (chrono_free_timestamp secs))"

section \<open>The thresholds decide as the exact ratio does\<close>

lemma f32_round_le:
  assumes "f32_pos x" and "x \<le> c" and "c = of_int m * 2 powi k" and "m < 2 ^ 24"
  shows "f32_round x \<le> c"
  using f32_round_mono [OF assms(1,2)] f32_round_exact [OF f32_pos_mono [OF assms(1,2)] assms(3,4)] by simp

lemma f32_round_ge:
  assumes "f32_pos c" and "c \<le> x" and "c = of_int m * 2 powi k" and "m < 2 ^ 24"
  shows "c \<le> f32_round x"
  using f32_round_mono [OF assms(1,2)] f32_round_exact [OF assms(1,3,4)] by simp

lemma lead_bit_eq:
  assumes "f32_pos x" and "2 powi l \<le> x" and "x < 2 powi (l + 1)"
  shows "lead_bit x = l"
proof -
  have "2 powi l < (2::rat) powi (lead_bit x + 1)" "2 powi lead_bit x < (2::rat) powi (l + 1)"
    using lead_bit_bounds [OF assms(1)] assms(2,3) by linarith+
  then show ?thesis by (simp add: pow2_less)
qed

text \<open>A fifth that is not a multiple of the last place rounds up, here; so 100 times it passes the threshold.\<close>

lemma f32_round_fifth:
  assumes "of_nat n = 2 ^ 26 * (2::rat) powi k" and "0 < n"
  shows "f32_round (of_nat n / 5) = 13421773 * 2 powi k"
proof -
  have "(1::rat) \<le> of_nat n" using assms(2) by simp
  then have "1 / 5 \<le> of_nat n / (5::rat)" by (rule divide_right_mono) simp
  moreover have "(2::rat) powi (- 126) \<le> 1 / 5"
    using pow2_le [of "- 126" "- 3"] by (simp add: power_int_minus)
  ultimately have pos: "f32_pos (of_nat n / 5)" by (simp add: f32_pos_def)
  have l: "2 powi (k + 23) = 2 ^ 23 * (2::rat) powi k" "2 powi (k + 23 + 1) = 2 ^ 24 * (2::rat) powi k"
    using pow2_add [of 23 k] pow2_add [of 24 k] by (simp_all add: add.commute)
  have u: "0 < (2::rat) powi k" by simp
  have "lead_bit (of_nat n / 5) - 23 = k"
    unfolding diff_eq_eq by (rule lead_bit_eq [OF pos]) (use u l assms(1) in simp_all)
  moreover have "of_nat n / 5 / 2 powi k = (67108864 / 5 :: rat)"
    unfolding assms(1) by simp
  moreover have "\<lfloor>67108864 / 5 :: rat\<rfloor> = 13421772" by (rule floor_unique) simp_all
  then have "round_half_even (67108864 / 5) = 13421773" by (simp add: round_half_even_def Let_def)
  ultimately show ?thesis by (simp only: f32_round_eq [OF pos])
qed

lemma rate_threshold:
  assumes n: "of_nat n = 2 ^ 26 * (2::rat) powi k" "0 < n" "n \<le> 4"
    and t: "0 < tot" "tot < 2 ^ 20" and d: "detected < 2 ^ 24"
  shows "of_nat (20 * n) \<le> detection_rate detected tot \<longleftrightarrow> n * tot \<le> 5 * detected"
proof -
  define u :: rat where "u = 2 powi k"
  have u: "0 < u" "of_nat n = 67108864 * u" using n(1) by (simp_all add: u_def)
  have k7: "2 powi (k + 7) = 128 * u" using pow2_add [of k 7] by (simp add: u_def)
  define x :: rat where "x = of_nat detected / of_nat tot"
  have rate: "detection_rate detected tot = f32_round (f32_round x * 100)"
    using t d by (simp add: detection_rate_def f32_mul_def f32_div_def f32_of_nat_exact x_def)
  have p: "f32_pos (of_nat (20 * n))" "of_nat (20 * n) = of_int 10485760 * (2::rat) powi (k + 7)"
  proof -
    have "(of_nat 1 :: rat) \<le> of_nat (20 * n)" using n(2) by (simp only: of_nat_le_iff)
    then show "f32_pos (of_nat (20 * n))" by (intro f32_pos_one) simp
  qed (simp add: k7 u(2))
  show ?thesis
  proof (cases "n * tot \<le> 5 * detected")
    case True
    then have "of_nat (n * tot) \<le> (of_nat (5 * detected) :: rat)" by (simp only: of_nat_le_iff)
    then have "of_nat n / 5 \<le> x" using t(1) by (simp add: x_def field_simps)
    moreover have "f32_pos (of_nat n / 5)"
      using f32_pos_quotient [of n 5] n(2) by simp
    ultimately have "13421773 * u \<le> f32_round x"
      using f32_round_mono [of "of_nat n / 5" x] f32_round_fifth [OF n(1,2)] by (simp add: u_def)
    then have "of_nat (20 * n) \<le> f32_round x * 100" using u by simp
    from f32_round_ge [OF p(1) this p(2)] True rate show ?thesis by simp
  next
    case False
    have "detection_rate detected tot < of_nat (20 * n)"
    proof (cases "detected = 0")
      case True
      with rate n(2) show ?thesis by (simp add: x_def f32_round_def)
    next
      case d0: False
      have pos: "f32_pos x" unfolding x_def by (rule f32_pos_quotient) (use d0 t in simp_all)
      have "of_nat (5 * detected + 1) \<le> (of_nat (n * tot) :: rat)" using False by (simp only: of_nat_le_iff)
      then have "x \<le> of_nat n / 5 - 1 / (5 * of_nat tot)" using t(1) by (simp add: x_def field_simps)
      moreover have "of_nat n / 5 - 13421770 * u \<le> 1 / (5 * of_nat tot)"
      proof -
        have "of_nat tot \<le> (of_nat (2 ^ 20) :: rat)" using t(2) by (simp only: of_nat_le_iff)
        then have "1 / (5 * 2 ^ 20) \<le> 1 / (5 * (of_nat tot :: rat))" using t(1) by (intro divide_left_mono) simp_all
        moreover have "of_nat n \<le> (4::rat)" using n(3) by simp
        ultimately show ?thesis using u(2) by simp
      qed
      ultimately have "x \<le> 13421770 * u" by linarith
      then have r: "f32_round x \<le> 13421770 * u"
        using f32_round_le [OF pos, of "13421770 * u" 13421770 k] by (simp add: u_def)
      have "2 powi lead_bit x \<le> f32_round x" "x < 2 powi (lead_bit x + 1)"
        using f32_round_binade [OF pos] lead_bit_bounds [OF pos] by blast+
      moreover have "2 powi (lead_bit x + 1) = 2 * (2::rat) powi lead_bit x" using pow2_add [of "lead_bit x" 1] by simp
      ultimately have "x \<le> f32_round x * 100" using f32_pos_gt [OF pos] by linarith
      then have "f32_pos (f32_round x * 100)" by (rule f32_pos_mono [OF pos])
      moreover have "f32_round x * 100 \<le> 10485759 * (128 * u)" using r u(1) by simp
      ultimately have "f32_round (f32_round x * 100) \<le> 10485759 * (128 * u)"
        using f32_round_le [of "f32_round x * 100" "10485759 * (128 * u)" 10485759 "k + 7"] by (simp add: k7)
      then show ?thesis unfolding rate using u by simp
    qed
    with False show ?thesis by simp
  qed
qed

lemma rate_80: "0 < tot \<Longrightarrow> tot < 2 ^ 20 \<Longrightarrow> detected < 2 ^ 24 \<Longrightarrow> 80 \<le> detection_rate detected tot \<longleftrightarrow> 4 * tot \<le> 5 * detected"
  using rate_threshold [of 4 "- 24" tot detected] by (simp add: power_int_minus)

lemma rate_40: "0 < tot \<Longrightarrow> tot < 2 ^ 20 \<Longrightarrow> detected < 2 ^ 24 \<Longrightarrow> 40 \<le> detection_rate detected tot \<longleftrightarrow> 2 * tot \<le> 5 * detected"
  using rate_threshold [of 2 "- 25" tot detected] by (simp add: power_int_minus)

text \<open>The score is the exact mean of the controls' marks, rounded down.\<close>

lemma f32_round_frac:
  assumes "0 < a" and "a \<le> 600" and "b = 6"
  shows "nat \<lfloor>f32_round (of_nat a / of_nat b)\<rfloor> = a div b" and "f32_round (of_nat a / of_nat b) \<le> 100" 
    and "0 \<le> f32_round (of_nat a / of_nat b)"
proof -
  let ?x = "of_nat a / of_nat b :: rat"
  have pos: "f32_pos ?x" by (rule f32_pos_quotient) (use assms in simp_all)
  let ?k = "a div 6"
  have a: "of_nat a = 6 * of_nat ?k + (of_nat (a mod 6) :: rat)" "(of_nat (a mod 6) :: rat) \<le> 5"
  proof -
    have "a = 6 * ?k + a mod 6" by simp
    then have "(of_nat a :: rat) = of_nat (6 * ?k + a mod 6)" by simp
    then show "of_nat a = 6 * of_nat ?k + (of_nat (a mod 6) :: rat)" by (simp only: of_nat_add of_nat_mult of_nat_numeral)
    have "a mod 6 \<le> 5" by simp
    then have "(of_nat (a mod 6) :: rat) \<le> of_nat 5" by (simp only: of_nat_le_iff)
    then show "(of_nat (a mod 6) :: rat) \<le> 5" by simp
  qed
  have k: "?k \<le> 100" using assms(2) by simp
  have half: "(2::rat) powi (- 3) = 1 / 8" by (simp add: power_int_minus)
  have "?x \<le> of_nat ?k + 7 / 8" using a assms(3) by simp
  moreover have "of_nat ?k + 7 / 8 = of_int (int (8 * ?k + 7)) * (2::rat) powi (- 3)" unfolding half by simp
  ultimately have up: "f32_round ?x \<le> of_nat ?k + 7 / 8"
    by (rule f32_round_le [OF pos]) (use k in simp)
  have low: "of_nat ?k \<le> f32_round ?x"
  proof (cases "?k = 0")
    case True
    have "0 \<le> f32_round ?x" using f32_round_binade [OF pos] pow2_pos(2) [of "lead_bit ?x"] by linarith
    with True show ?thesis by simp
  next
    case False
    have "of_nat ?k \<le> ?x" using a assms(3) by simp
    with False k show ?thesis
      by (intro f32_round_ge [where m = "int ?k" and k = 0] f32_pos_one) auto
  qed
  have "\<lfloor>f32_round ?x\<rfloor> = int ?k" using up low by (intro floor_unique) simp_all
  then show "nat \<lfloor>f32_round ?x\<rfloor> = a div b" using assms(3) by simp
  show "0 \<le> f32_round ?x" using low of_nat_0_le_iff [of ?k, where 'a = rat] by linarith
  have "?x \<le> 100" using assms by simp
  then show "f32_round ?x \<le> 100" by (intro f32_round_le [OF pos, where m = 100 and k = 0]) simp_all
qed

lemma overall_score_eq:
  assumes "c + p \<le> 6"
  shows "overall_score c p 6 = (100 * c + 50 * p) div 6"
proof -
  have e: "f32_round (of_nat n) = of_nat n" if "n < 2 ^ 24" for n
    using f32_of_nat_exact [OF that] by (simp add: f32_of_nat_def)
  let ?n = "100 * c + 50 * p"
  have "f32_mul (f32_of_nat c) 100 = of_nat (100 * c)" "f32_mul (f32_of_nat p) 50 = of_nat (50 * p)"
    using assms e [of "c * 100"] e [of "p * 50"] by (simp_all add: f32_mul_def f32_of_nat_exact mult.commute)
  then have "f32_add (f32_mul (f32_of_nat c) 100) (f32_mul (f32_of_nat p) 50) = of_nat ?n"
    using e [of ?n] assms by (simp add: f32_add_def)
  then have "overall_score c p 6 = f32_as_u8 (f32_clamp 0 100 (f32_round (of_nat ?n / of_nat 6)))"
    by (simp add: overall_score_def f32_div_def f32_of_nat_exact)
  also have "\<dots> = ?n div 6"
  proof (cases "?n = 0")
    case False
    have "?n \<le> 600" using assms by simp
    with False f32_round_frac [of ?n 6] have
      "nat \<lfloor>f32_round (of_nat ?n / of_nat 6)\<rfloor> = ?n div 6"
      "f32_round (of_nat ?n / of_nat 6) \<le> 100" "0 \<le> f32_round (of_nat ?n / of_nat 6)" by auto
    then show ?thesis by (auto simp: f32_as_u8_def f32_clamp_def)
  qed (simp add: f32_round_def f32_clamp_def f32_as_u8_def)
  finally show ?thesis .
qed

section \<open>The report counts what its controls say\<close>

lemma tally_fold:
  assumes "fold tally cs (c, p, n, acc) = (c', p', n', acc')"
  shows "c' = c + length (filter (\<lambda>x. cc_status x = ''COMPLIANT'') cs)
    \<and> p' = p + length (filter (\<lambda>x. cc_status x = ''PARTIAL'') cs)
    \<and> c' + p' + n' = c + p + n + length cs \<and> acc' = acc @ cs"
  using assms
proof (induction cs arbitrary: c p n acc)
  case (Cons x cs)
  obtain c1 p1 n1 acc1 where t: "tally x (c, p, n, acc) = (c1, p1, n1, acc1)" by (metis prod_cases4)
  with Cons.prems have "fold tally cs (c1, p1, n1, acc1) = (c', p', n', acc')" by simp
  from Cons.IH [OF this] t show ?case by (auto simp: tally_def split: if_splits)
qed simp

lemma status_cases:
  "control_status m t r = ''COMPLIANT'' \<longleftrightarrow> m \<noteq> [] \<and> t \<noteq> 0 \<and> r \<ge> 80"
  "control_status m t r = ''PARTIAL'' \<longleftrightarrow> m \<noteq> [] \<and> t \<noteq> 0 \<and> r < 80 \<and> r \<ge> 40"
  by (auto simp: control_status_def)

lemma length_CONTROLS [simp]: "length CONTROLS = 6"
  by (simp add: CONTROLS_def)

text \<open>The status of a control, decided on whole numbers of runs.\<close>

definition exact_status :: "scenario_meta list \<Rightarrow> audit_record list \<Rightarrow> string list \<Rightarrow> string" where
  "exact_status scenarios records techniques =
     (let runs = matching_runs techniques records; detected = detected_count runs in
      if \<not> list_ex (matches_any techniques) scenarios then ''NOT_TESTED''
      else if runs = [] then ''NO_EVIDENCE''
      else if 5 * detected \<ge> 4 * length runs then ''COMPLIANT''
      else if 5 * detected \<ge> 2 * length runs then ''PARTIAL'' else ''NON_COMPLIANT'')"

lemma evaluate_status:
  assumes "length records < 2 ^ 20"
  shows "cc_status (evaluate_control scenarios records d) = exact_status scenarios records (cd_techniques d)"
proof -
  let ?runs = "matching_runs (cd_techniques d) records"
  have "length ?runs < 2 ^ 20"
    using assms length_filter_le unfolding matching_runs_def by (rule le_less_trans [rotated])
  moreover have "detected_count ?runs \<le> length ?runs" unfolding detected_count_def by (rule length_filter_le)
  ultimately have len: "length ?runs < 2 ^ 20" "detected_count ?runs < 2 ^ 24" by simp_all
  have "(filter (matches_any (cd_techniques d)) scenarios = []) \<longleftrightarrow> \<not> list_ex (matches_any (cd_techniques d)) scenarios"
    by (simp add: filter_empty_conv list_ex_iff)
  then show ?thesis
    using rate_80 [OF _ len] rate_40 [OF _ len]
    by (auto simp: evaluate_control_def Let_def control_status_def exact_status_def not_le)
qed

text \<open>
  C0: The compliance report is honest about its numbers. For fewer than \<open>2 ^ 20\<close> records the status of each
  of its six controls, computed in single precision, is the one the exact counts give: compliant at four
  detected runs in five, partial at two in five, and never without a matching scenario and a run with
  confirmed feedback. The three buckets count these statuses and add up to the controls, and the score is
  the exact mean of the marks 100, 50 and 0, rounded down. A report is always produced.
\<close>
theorem compliance_exact:
  assumes "length records < 2 ^ 20"
  shows "\<exists>r. generate secs scenarios records = Some r \<and> cr_total_controls r = 6
    \<and> cr_controls r = map (evaluate_control scenarios records) CONTROLS
    \<and> map cc_status (cr_controls r) = map (\<lambda>d. exact_status scenarios records (cd_techniques d)) CONTROLS
    \<and> cr_compliant_controls r = count_list (map cc_status (cr_controls r)) ''COMPLIANT''
    \<and> cr_partial_controls r = count_list (map cc_status (cr_controls r)) ''PARTIAL''
    \<and> cr_compliant_controls r + cr_partial_controls r + cr_non_compliant_controls r = 6
    \<and> cr_overall_compliance_score r = (100 * cr_compliant_controls r + 50 * cr_partial_controls r) div 6"
proof -
  let ?cs = "map (evaluate_control scenarios records) CONTROLS"
  obtain c p n acc where f: "fold tally ?cs (0, 0, 0, []) = (c, p, n, acc)" by (metis prod_cases4)
  note t = tally_fold [OF f]
  obtain now where now: "chrono_free_timestamp secs = Some now"
    using days_to_ymd_eq by (auto simp: chrono_free_timestamp_def)
  have count: "length (filter (\<lambda>x. f x = s) xs) = count_list (map f xs) s" for f :: "compliance_control \<Rightarrow> string" and s xs
    by (induction xs) auto
  have s: "map cc_status ?cs = map (\<lambda>d. exact_status scenarios records (cd_techniques d)) CONTROLS"
    using evaluate_status [OF assms] by simp
  have "overall_score c p 6 = (100 * c + 50 * p) div 6" using t by (intro overall_score_eq) simp
  with t now f show ?thesis unfolding s [symmetric] count by (simp add: generate_def)
qed

theorem compliance_exact_witness:
  "\<exists>r. generate 0 [] [] = Some r \<and> cr_overall_compliance_score r = 0"
proof -
  have e: "exact_status [] [] ts = ''NOT_TESTED''" for ts by (simp add: exact_status_def)
  obtain r where r: "generate 0 [] [] = Some r"
    "map cc_status (cr_controls r) = map (\<lambda>d. exact_status [] [] (cd_techniques d)) CONTROLS"
    "cr_compliant_controls r = count_list (map cc_status (cr_controls r)) ''COMPLIANT''"
    "cr_partial_controls r = count_list (map cc_status (cr_controls r)) ''PARTIAL''"
    "cr_overall_compliance_score r = (100 * cr_compliant_controls r + 50 * cr_partial_controls r) div 6"
    using compliance_exact [of "[]" 0 "[]"] by (auto simp del: map_map)
  have "map cc_status (cr_controls r) = replicate 6 ''NOT_TESTED''"
    unfolding r(2) e by (simp add: CONTROLS_def numeral_eq_Suc)
  then have "cr_compliant_controls r = 0" "cr_partial_controls r = 0" unfolding r(3,4) by (simp_all add: numeral_eq_Suc)
  with r(1,5) show ?thesis by simp
qed

end
