(* ===== verification/Resilience.thy ===== *)
theory Resilience
  imports Aggregates Float32 Json "HOL-Library.AList" "HOL-Library.Multiset"
begin

text \<open>
  The percentages and the score of \<open>crates/asmodeus-telemetry/src/lib.rs\<close>, and the numbers of the resilience
  report of \<open>reporting.rs\<close>: the six NIST functions, the tactics and the recommendations. Title, summary and
  Markdown are not modelled.
\<close>

section \<open>Percentages and score\<close>

definition TARGET_MTTR_MS :: nat where
  "TARGET_MTTR_MS = 300"

definition detection_rate_pct :: "aggregate \<Rightarrow> rat" where
  "detection_rate_pct a =
     (if ag_feedback_received a = 0 then 0
      else f32_div (f32_mul 100 (f32_of_nat (ag_detected a))) (f32_of_nat (ag_feedback_received a)))"

definition recovery_speed_pct :: "aggregate \<Rightarrow> rat" where
  "recovery_speed_pct a =
     (if ag_containment_samples a = 0 then 0
      else let mean = mean_mttr_ms a in
        if mean = 0 then 100
        else f32_clamp 0 100 (f32_div (f32_mul 100 (f32_of_nat TARGET_MTTR_MS)) (f32_of_nat mean)))"

definition resilience_score :: "rat \<Rightarrow> rat \<Rightarrow> nat" where
  "resilience_score repelled recovery =
     f32_as_u8 (f32_clamp 0 100 (f32_add (f32_mul (1 / 2) repelled) (f32_mul (1 / 2) recovery)))"

section \<open>The report\<close>

record nist_function =
  nf_function_name :: string
  nf_code :: string
  nf_scenarios_evaluated :: nat
  nf_successful_detections :: nat
  nf_score_pct :: rat
  nf_status :: string
  nf_details :: "string list"

record tactic_stat =
  ts_tactic_name :: string
  ts_total_runs :: nat
  ts_detected_runs :: nat
  ts_mean_mttd_ms :: nat
  ts_mean_mttr_ms :: nat

record resilience_report =
  re_total_runs :: nat
  re_confirmed_feedback_runs :: nat
  re_simulated_runs :: nat
  re_pending_feedback_runs :: nat
  re_detected_runs :: nat
  re_contained_runs :: nat
  re_resilience_score :: nat
  re_detection_rate_pct :: rat
  re_mean_mttd_ms :: nat
  re_mean_mttr_ms :: nat
  re_target_mttr_ms :: nat
  re_mttr_sla_status :: string
  re_nist_functions :: "nist_function list"
  re_tactics_breakdown :: "tactic_stat list"
  re_recommendations :: "string list"

text \<open>The counters of the loop over the records.\<close>

record nist_counts =
  nc_de_total :: nat
  nc_de_detected :: nat
  nc_pr_total :: nat
  nc_pr_detected :: nat
  nc_rs_total :: nat
  nc_rs_contained :: nat
  nc_rc_total :: nat
  nc_rc_cleaned :: nat
  nc_tactics :: "(string \<times> aggregate) list"

definition counts0 :: nist_counts where
  "counts0 = \<lparr>nc_de_total = 0, nc_de_detected = 0, nc_pr_total = 0, nc_pr_detected = 0, nc_rs_total = 0,
     nc_rs_contained = 0, nc_rc_total = 0, nc_rc_cleaned = 0, nc_tactics = []\<rparr>"

definition evaluated :: "audit_record \<Rightarrow> bool" where
  "evaluated r \<longleftrightarrow> ar_is_terminal r \<and> has_confirmed_feedback r"

definition tactic_key :: "audit_record \<Rightarrow> string" where
  "tactic_key r = (if ar_mitre_tactic r \<noteq> [] then ar_mitre_tactic r else ''Infrastructure Chaos'')"

definition protects :: "audit_record \<Rightarrow> bool" where
  "protects r \<longleftrightarrow> str_contains (ar_mitre_technique r) ''T1003'' \<or> str_contains (ar_mitre_technique r) ''T1053''
     \<or> str_contains (ar_mitre_technique r) ''T1562''"

definition contained_fast :: "audit_record \<Rightarrow> bool" where
  "contained_fast r \<longleftrightarrow> (case ar_evidence r of None \<Rightarrow> False | Some e \<Rightarrow> ev_contained e)
     \<and> ms_mttr_ms (ar_measurements r) \<le> TARGET_MTTR_MS * 2"

definition count_if :: "bool \<Rightarrow> nat \<Rightarrow> nat" where
  "count_if b n = (if b then n + 1 else n)"

definition count_record :: "audit_record \<Rightarrow> nist_counts \<Rightarrow> nist_counts" where
  "count_record r c =
     (let detected = ms_blue_team_detected (ar_measurements r); red = (ar_category r = ''red_team'') in
      c\<lparr>nc_tactics := AList.map_default (tactic_key r) (record_run ag_default r) (\<lambda>a. record_run a r) (nc_tactics c),
        nc_de_total := count_if red (nc_de_total c),
        nc_de_detected := count_if (red \<and> detected) (nc_de_detected c),
        nc_pr_total := count_if (protects r) (nc_pr_total c),
        nc_pr_detected := count_if (protects r \<and> detected) (nc_pr_detected c),
        nc_rs_total := count_if detected (nc_rs_total c),
        nc_rs_contained := count_if (detected \<and> contained_fast r) (nc_rs_contained c),
        nc_rc_total := nc_rc_total c + 1,
        nc_rc_cleaned := count_if (starts_with (ar_cleanup_status r) ''SUCCESS'') (nc_rc_cleaned c)\<rparr>)"

definition count_records :: "audit_record list \<Rightarrow> nist_counts" where
  "count_records records = fold count_record (filter evaluated records) counts0"

definition calc_pct :: "nat \<Rightarrow> nat \<Rightarrow> rat" where
  "calc_pct num den = (if den = 0 then 0 else f32_div (f32_mul 100 (f32_of_nat num)) (f32_of_nat den))"

text \<open>\<open>{:.1}\<close> of a non-negative number: the nearest multiple of a tenth, ties to even.\<close>

definition show_tenths :: "rat \<Rightarrow> string" where
  "show_tenths x = (let n = nat (round_half_even (10 * x)) in show_nat (n div 10) @ ''.'' @ show_nat (n mod 10))"

definition graded :: "nat \<Rightarrow> bool \<Rightarrow> string \<Rightarrow> string \<Rightarrow> string" where
  "graded n good yes no = (if n = 0 then ''NO DATA'' else if good then yes else no)"

definition not_assessed :: "string \<Rightarrow> string \<Rightarrow> string \<Rightarrow> nist_function" where
  "not_assessed name code why = \<lparr>nf_function_name = name, nf_code = code, nf_scenarios_evaluated = 0,
     nf_successful_detections = 0, nf_score_pct = 0, nf_status = ''NOT_ASSESSED'', nf_details = [why]\<rparr>"

definition nist_functions :: "nist_counts \<Rightarrow> nat \<Rightarrow> nat \<Rightarrow> nist_function list" where
  "nist_functions c mttd mttr =
     (let pr = calc_pct (nc_pr_detected c) (nc_pr_total c); de = calc_pct (nc_de_detected c) (nc_de_total c);
          rs = calc_pct (nc_rs_contained c) (nc_rs_total c); rc = calc_pct (nc_rc_cleaned c) (nc_rc_total c) in
      [not_assessed ''Govern'' ''GV'' ''Execution feedback does not assess organizational governance.'',
       not_assessed ''Identify'' ''ID'' ''Runner inventory is not evidence of asset-discovery coverage.'',
       \<lparr>nf_function_name = ''Protect'', nf_code = ''PR'', nf_scenarios_evaluated = nc_pr_total c,
        nf_successful_detections = nc_pr_detected c, nf_score_pct = pr,
        nf_status = graded (nc_pr_total c) (pr \<ge> 80) ''STRONG'' ''ATTENTION_REQUIRED'',
        nf_details = [''Canary filesystem sandbox strictly whitelisted to /var/tmp and /tmp (INV-0)'',
          ''Scores describe submitted exercise feedback, not a compliance certification'',
          ''Host hardening and credential protection effectiveness: '' @ show_tenths pr @ ''%'']\<rparr>,
       \<lparr>nf_function_name = ''Detect'', nf_code = ''DE'', nf_scenarios_evaluated = nc_de_total c,
        nf_successful_detections = nc_de_detected c, nf_score_pct = de,
        nf_status = graded (nc_de_total c) (de \<ge> 90) ''OPTIMAL'' ''IMPROVEMENT_NEEDED'',
        nf_details = [''Mean Time To Detect (MTTD): '' @ show_nat mttd @ '' ms across evaluated attack techniques'',
          ''Only explicit feedback for runner executions is evaluated'',
          ''Overall detection efficiency: '' @ show_tenths de @ ''%'']\<rparr>,
       \<lparr>nf_function_name = ''Respond'', nf_code = ''RS'', nf_scenarios_evaluated = nc_rs_total c,
        nf_successful_detections = nc_rs_contained c, nf_score_pct = rs,
        nf_status = graded (nc_rs_total c) (rs \<ge> 80) ''AGILE'' ''LATENCY_RISK'',
        nf_details = [''Mean Time To Remediate (MTTR): '' @ show_nat mttr @ '' ms (target: '' @ show_nat TARGET_MTTR_MS @ '' ms)'',
          ''Containment must be explicitly confirmed by the feedback submitter'']\<rparr>,
       \<lparr>nf_function_name = ''Recover'', nf_code = ''RC'', nf_scenarios_evaluated = nc_rc_total c,
        nf_successful_detections = nc_rc_cleaned c, nf_score_pct = rc,
        nf_status = graded (nc_rc_total c) (nc_rc_total c = nc_rc_cleaned c) ''VERIFIED'' ''CLEANUP_UNCONFIRMED'',
        nf_details = [''Self-cleaning rollback success: '' @ show_tenths rc @ ''% (zero residual artifacts)'',
          ''Cleanup requires a terminal runner confirmation'']\<rparr>])"

definition tactics_breakdown :: "nist_counts \<Rightarrow> tactic_stat list" where
  "tactics_breakdown c = sort_key ts_tactic_name (map (\<lambda>(name, a).
     \<lparr>ts_tactic_name = name, ts_total_runs = ag_scenarios_executed a, ts_detected_runs = ag_detected a,
      ts_mean_mttd_ms = mean_mttd_ms a, ts_mean_mttr_ms = mean_mttr_ms a\<rparr>) (nc_tactics c))"

definition sla_status :: "aggregate \<Rightarrow> string" where
  "sla_status a =
     (if mean_mttr_ms a \<le> TARGET_MTTR_MS \<and> ag_contained a > 0 then ''COMPLIANT ('' @ map chr [226, 137, 164] @ '' 300 ms)''
      else if ag_contained a = 0 then ''NO DATA''
      else ''DEGRADED (> 300 ms)'')"

definition recommendations :: "aggregate \<Rightarrow> string list" where
  "recommendations a =
     (let rs =
        (if mean_mttr_ms a > TARGET_MTTR_MS
         then [''Tune SOAR automated playbooks: average MTTR ('' @ show_nat (mean_mttr_ms a) @
               '' ms) exceeds target SLA ('' @ show_nat TARGET_MTTR_MS @ '' ms).''] else [])
        @ (if detection_rate_pct a < 90 \<and> ag_feedback_received a > 0
           then [''Enhance eBPF sensor heuristic rules for low-visibility TTPs (e.g. credential honeytokens).''] else [])
        @ (if ag_feedback_received a = 0
           then [''Collect Blue Team feedback for live runner executions before assessing defense effectiveness.''] else [])
      in if rs = [] then [''Continue scheduled recurring automated campaigns to sustain peak cyber-readiness.''] else rs)"

definition build_report :: "audit_record list \<Rightarrow> aggregate \<Rightarrow> resilience_report" where
  "build_report records a =
     (let rate = detection_rate_pct a; c = count_records records in
      \<lparr>re_total_runs = ag_scenarios_executed a, re_confirmed_feedback_runs = ag_feedback_received a,
       re_simulated_runs = ag_simulated_runs a, re_pending_feedback_runs = ag_pending_feedback a,
       re_detected_runs = ag_detected a, re_contained_runs = ag_contained a,
       re_resilience_score = resilience_score rate (recovery_speed_pct a), re_detection_rate_pct = rate,
       re_mean_mttd_ms = mean_mttd_ms a, re_mean_mttr_ms = mean_mttr_ms a, re_target_mttr_ms = TARGET_MTTR_MS,
       re_mttr_sla_status = sla_status a,
       re_nist_functions = nist_functions c (mean_mttd_ms a) (mean_mttr_ms a),
       re_tactics_breakdown = tactics_breakdown c, re_recommendations = recommendations a\<rparr>)"

text \<open>The report of one run verifies its record under the operator's key, or under the key it carries.\<close>

definition run_signature_verified :: "ed25519 \<Rightarrow> audit_codec \<Rightarrow> audit_record \<Rightarrow> bytes option \<Rightarrow> bool" where
  "run_signature_verified E J r trusted =
     (case trusted of Some pk \<Rightarrow> verify_with_key E J r pk | None \<Rightarrow> ar_verify E J r)"

section \<open>Scores stay in range\<close>

lemma f32_clamp_range: "lo \<le> hi \<Longrightarrow> lo \<le> f32_clamp lo hi x \<and> f32_clamp lo hi x \<le> hi"
  by (simp add: f32_clamp_def)

lemma resilience_score_le: "resilience_score x y \<le> 100"
proof -
  define z where "z = f32_clamp 0 100 (f32_add (f32_mul (1 / 2) x) (f32_mul (1 / 2) y))"
  have "z \<le> 100" unfolding z_def using f32_clamp_range [of 0 100] by simp
  then have "\<lfloor>z\<rfloor> \<le> \<lfloor>100 :: rat\<rfloor>" by (rule floor_mono)
  then have "nat \<lfloor>z\<rfloor> \<le> nat \<lfloor>100 :: rat\<rfloor>" by (rule nat_mono)
  then have "nat \<lfloor>z\<rfloor> \<le> 100" by simp
  with \<open>z \<le> 100\<close> show ?thesis unfolding resilience_score_def z_def [symmetric] f32_as_u8_def by simp
qed

section \<open>The report covers the runs with confirmed feedback\<close>

lemma count_if_simps [simp]: "count_if True n = n + 1" "count_if False n = n"
  by (simp_all add: count_if_def)

text \<open>Every counter of successes stays below its counter of evaluations.\<close>

definition counts_ok :: "nist_counts \<Rightarrow> bool" where
  "counts_ok c \<longleftrightarrow> nc_de_detected c \<le> nc_de_total c \<and> nc_pr_detected c \<le> nc_pr_total c
     \<and> nc_rs_contained c \<le> nc_rs_total c \<and> nc_rc_cleaned c \<le> nc_rc_total c
     \<and> nc_de_total c \<le> nc_rc_total c \<and> nc_pr_total c \<le> nc_rc_total c \<and> nc_rs_total c \<le> nc_rc_total c
     \<and> distinct (map fst (nc_tactics c))
     \<and> sum_list (map (ag_scenarios_executed \<circ> snd) (nc_tactics c)) = nc_rc_total c"

lemma map_default_sum:
  assumes "f v = n" and "\<And>a. f (g a) = f a + n"
  shows "sum_list (map (f \<circ> snd) (AList.map_default k v g al)) = sum_list (map (f \<circ> snd) al) + (n :: nat)"
  using assms by (induction al) auto

lemma map_default_keys: "distinct (map fst al) \<Longrightarrow> distinct (map fst (AList.map_default k v g al))"
  by (rule distinct_map_default)

lemma evaluated_counts: "evaluated r \<Longrightarrow> ag_scenarios_executed (record_run a r) = ag_scenarios_executed a + 1"
  by (simp add: record_run_def contribution_def evaluated_def Let_def ag_default_def split: option.splits)

lemma count_record_ok:
  assumes "counts_ok c" and "evaluated r"
  shows "counts_ok (count_record r c) \<and> nc_rc_total (count_record r c) = nc_rc_total c + 1"
proof -
  have "sum_list (map (ag_scenarios_executed \<circ> snd) (AList.map_default (tactic_key r) (record_run ag_default r) (\<lambda>a. record_run a r) (nc_tactics c)))
      = sum_list (map (ag_scenarios_executed \<circ> snd) (nc_tactics c)) + 1"
    by (rule map_default_sum) (simp_all add: evaluated_counts [OF assms(2)], simp add: ag_default_def)
  then show ?thesis
    using assms(1) map_default_keys [of "nc_tactics c"]
    by (auto simp: counts_ok_def count_record_def Let_def count_if_def)
qed

lemma count_records_ok: "counts_ok (count_records rs) \<and> nc_rc_total (count_records rs) = length (filter evaluated rs)"
proof -
  have "counts_ok (fold count_record xs c) \<and> nc_rc_total (fold count_record xs c) = nc_rc_total c + length xs"
    if "counts_ok c" and "\<forall>x \<in> set xs. evaluated x" for xs c
    using that by (induction xs arbitrary: c) (simp_all add: count_record_ok)
  from this [of counts0 "filter evaluated rs"] show ?thesis
    by (simp add: count_records_def counts0_def counts_ok_def)
qed

lemma feedback_contribution: "ag_feedback_received (contribution r) = (if evaluated r then 1 else 0)"
  by (auto simp: contribution_def evaluated_def Let_def ag_default_def has_confirmed_feedback_def split: option.splits)

lemma feedback_received_evaluated: "ag_feedback_received (from_records rs) = length (filter evaluated rs)"
  unfolding counter_from_records [OF counters(3)] by (induction rs) (simp_all add: feedback_contribution)

lemma contained_le_feedback: "ag_contained (from_records rs) \<le> ag_feedback_received (from_records rs)
    \<and> ag_containment_samples (from_records rs) = ag_contained (from_records rs)
    \<and> ag_detected (from_records rs) \<le> ag_feedback_received (from_records rs)"
  unfolding counter_from_records [OF counters(2)] counter_from_records [OF counters(3)]
    counter_from_records [OF counters(6)] counter_from_records [OF counters(8)]
  using contribution_parts(3-5) by (auto intro!: sum_list_le simp: comp_def)

lemma sorted_names: "distinct (map fst (nc_tactics c)) \<Longrightarrow>
    sorted_wrt (<) (map ts_tactic_name (tactics_breakdown c))
    \<and> sum_list (map ts_total_runs (tactics_breakdown c)) = sum_list (map (ag_scenarios_executed \<circ> snd) (nc_tactics c))"
proof -
  assume d: "distinct (map fst (nc_tactics c))"
  let ?xs = "map (\<lambda>(name, a). \<lparr>ts_tactic_name = name, ts_total_runs = ag_scenarios_executed a, ts_detected_runs = ag_detected a,
      ts_mean_mttd_ms = mean_mttd_ms a, ts_mean_mttr_ms = mean_mttr_ms a\<rparr>) (nc_tactics c)"
  have n: "map ts_tactic_name ?xs = map fst (nc_tactics c)" and t: "map ts_total_runs ?xs = map (ag_scenarios_executed \<circ> snd) (nc_tactics c)"
    by (simp_all add: case_prod_beta comp_def)
  have p: "mset (tactics_breakdown c) = mset ?xs" by (simp only: tactics_breakdown_def mset_sort)
  have "sorted (map ts_tactic_name (tactics_breakdown c))" by (simp only: tactics_breakdown_def sorted_sort_key)
  moreover have "mset (map ts_tactic_name (tactics_breakdown c)) = mset (map ts_tactic_name ?xs)"
    using p by (simp only: mset_map)
  then have "distinct (map ts_tactic_name (tactics_breakdown c))"
    unfolding n by (rule mset_eq_imp_distinct_iff [THEN iffD2]) (rule d)
  moreover have "mset (map ts_total_runs (tactics_breakdown c)) = mset (map ts_total_runs ?xs)"
    using p by (simp only: mset_map)
  then have "sum_list (map ts_total_runs (tactics_breakdown c)) = sum_list (map ts_total_runs ?xs)"
    by (simp only: sum_mset_sum_list [symmetric])
  ultimately show ?thesis unfolding t by (simp only: strict_sorted_iff)
qed


end
