(* ===== verification/Api.thy ===== *)
theory Api
  imports Domain Json Crypto
begin

text \<open>
  \<open>crates/asmodeus-control-plane/src/api.rs\<close>: the errors of the HTTP interface with their status codes, and
  the role of a caller, from a signed bearer token or, where the stand allows it, from a plain header. The
  base64 and JSON decoders and HMAC-SHA256 are parameters; a header's value is \<open>None\<close> when it is not
  visible ASCII. The mapping of the errors of the execution layers is with their handlers (\<open>Server\<close>).
\<close>

section \<open>Errors\<close>

datatype api_error = ApiUnauthorized string | ApiForbidden string | ApiNotFound string | ApiConflict string
  | ApiUnprocessable string | ApiInternal string | ApiBadGateway string

fun api_error_text :: "api_error \<Rightarrow> string" where
  "api_error_text (ApiUnauthorized m) = ''Unauthorized: '' @ m"
| "api_error_text (ApiForbidden m) = ''Forbidden: '' @ m"
| "api_error_text (ApiNotFound m) = ''Not Found: '' @ m"
| "api_error_text (ApiConflict m) = ''Conflict: '' @ m"
| "api_error_text (ApiUnprocessable m) = ''Unprocessable: '' @ m"
| "api_error_text (ApiInternal m) = ''Internal: '' @ m"
| "api_error_text (ApiBadGateway m) = ''Bad Gateway: '' @ m"

fun error_response :: "api_error \<Rightarrow> nat \<times> string" where
  "error_response (ApiUnauthorized m) = (401, m)"
| "error_response (ApiForbidden m) = (403, m)"
| "error_response (ApiNotFound m) = (404, m)"
| "error_response (ApiConflict m) = (409, m)"
| "error_response (ApiUnprocessable m) = (422, m)"
| "error_response (ApiInternal m) = (500, m)"
| "error_response (ApiBadGateway m) = (502, m)"

section \<open>Bearer tokens\<close>

type_synonym process_env = "string \<Rightarrow> string option"
type_synonym header_map = "string \<Rightarrow> string option option"

record token_lib =
  tl_base64url :: "string \<Rightarrow> bytes option"
  tl_json :: "bytes \<Rightarrow> json option"
  tl_hmac_verify :: "bytes \<Rightarrow> bytes \<Rightarrow> bytes \<Rightarrow> bool"

definition APEX_CONTRACT_VERSION :: string where
  "APEX_CONTRACT_VERSION = ''1.0''"

definition DEFAULT_APEX_ISSUER :: string where
  "DEFAULT_APEX_ISSUER = ''https://identity.apex.local''"

definition DEFAULT_APEX_AUDIENCE :: string where
  "DEFAULT_APEX_AUDIENCE = ''apex''"

definition env_or :: "process_env \<Rightarrow> string \<Rightarrow> string \<Rightarrow> string" where
  "env_or env name dflt = (case env name of Some v \<Rightarrow> v | None \<Rightarrow> dflt)"

fun audience_matches :: "json \<Rightarrow> string \<Rightarrow> bool" where
  "audience_matches (JStr one) expected \<longleftrightarrow> one = expected"
| "audience_matches (JArr many) expected \<longleftrightarrow> list_ex (\<lambda>x. as_str x = Some expected) many"
| "audience_matches _ expected \<longleftrightarrow> False"

definition MISSING_CLAIM :: string where
  "MISSING_CLAIM = ''missing required APEX identity claim''"

definition required_text :: "json \<Rightarrow> string \<Rightarrow> api_error + string" where
  "required_text claims key =
     (case Option.bind (json_get claims key) as_str of
        Some v \<Rightarrow> if v \<noteq> [] then Inr v else Inl (ApiUnauthorized MISSING_CLAIM)
      | None \<Rightarrow> Inl (ApiUnauthorized MISSING_CLAIM))"

definition required_number :: "json \<Rightarrow> string \<Rightarrow> api_error + nat" where
  "required_number claims key =
     (case Option.bind (json_get claims key) as_u64 of
        Some n \<Rightarrow> Inr n | None \<Rightarrow> Inl (ApiUnauthorized MISSING_CLAIM))"

definition or_unauthorized :: "string \<Rightarrow> 'a option \<Rightarrow> api_error + 'a" where
  "or_unauthorized m x = (case x of Some v \<Rightarrow> Inr v | None \<Rightarrow> Inl (ApiUnauthorized m))"

definition unless_unauthorized :: "bool \<Rightarrow> string \<Rightarrow> api_error + unit" where
  "unless_unauthorized b m = reject_if (\<not> b) (ApiUnauthorized m)"

text \<open>\<open>split('.')\<close> has at least one part; a token has exactly three.\<close>

definition token_parts :: "string \<Rightarrow> api_error + string \<times> string \<times> string" where
  "token_parts token =
     (case split_on CHR ''.'' token of
        [h, p, s] \<Rightarrow> Inr (h, p, s)
      | _ \<Rightarrow> Inl (ApiUnauthorized ''malformed bearer token''))"

text \<open>The checks on the claims, in their order. \<open>now\<close> is \<open>None\<close> for a clock before 1970.\<close>

definition check_claims :: "process_env \<Rightarrow> nat option \<Rightarrow> json \<Rightarrow> api_error + unit" where
  "check_claims env clock claims =
     and_then (required_text claims ''iss'') (\<lambda>iss.
     and_then (unless_unauthorized (iss = env_or env ''ASMODEUS_JWT_ISSUER'' DEFAULT_APEX_ISSUER)
                ''unexpected bearer token issuer'') (\<lambda>_.
     and_then (or_unauthorized MISSING_CLAIM (json_get claims ''aud'')) (\<lambda>aud.
     and_then (unless_unauthorized (audience_matches aud (env_or env ''ASMODEUS_JWT_AUDIENCE'' DEFAULT_APEX_AUDIENCE))
                ''unexpected bearer token audience'') (\<lambda>_.
     and_then (required_text claims ''actor_type'') (\<lambda>actor.
     and_then (unless_unauthorized (actor = ''user'') ''unsupported APEX actor type'') (\<lambda>_.
     and_then (required_text claims ''apex_contract_version'') (\<lambda>v.
     and_then (unless_unauthorized (v = APEX_CONTRACT_VERSION) ''unsupported APEX contract version'') (\<lambda>_.
     and_then (required_text claims ''sub'') (\<lambda>_.
     and_then (required_text claims ''tenant_id'') (\<lambda>_.
     and_then (required_text claims ''jti'') (\<lambda>_.
     and_then (unless_unauthorized (Option.bind (json_get claims ''permissions'') as_array \<noteq> None) MISSING_CLAIM) (\<lambda>_.
     and_then (or_unauthorized ''system time is before Unix epoch'' clock) (\<lambda>now.
     and_then (required_number claims ''iat'') (\<lambda>iat.
     and_then (required_number claims ''nbf'') (\<lambda>nbf.
     and_then (required_number claims ''exp'') (\<lambda>exp.
     and_then (unless_unauthorized (\<not> (iat > sat_add64 now 60 \<or> nbf > sat_add64 now 60)) ''bearer token is not active'') (\<lambda>_.
     unless_unauthorized (\<not> exp \<le> now) ''bearer token has expired'')))))))))))))))))"

definition verified_apex_claims :: "token_lib \<Rightarrow> process_env \<Rightarrow> nat option \<Rightarrow> string \<Rightarrow> api_error + json" where
  "verified_apex_claims T env clock token =
     and_then (token_parts token) (\<lambda>(header_part, payload_part, signature_part).
     and_then (or_unauthorized ''malformed bearer token'' (tl_base64url T header_part)) (\<lambda>header_bytes.
     and_then (or_unauthorized ''malformed bearer token'' (tl_json T header_bytes)) (\<lambda>header.
     and_then (unless_unauthorized (Option.bind (json_get header ''alg'') as_str = Some ''HS256'')
                ''unsupported bearer token algorithm'') (\<lambda>_.
     and_then (or_unauthorized ''JWT verifier is not configured'' (env ''ASMODEUS_JWT_SECRET'')) (\<lambda>secret.
     and_then (unless_unauthorized (\<not> length secret < 32) ''JWT verifier secret is too short'') (\<lambda>_.
     and_then (or_unauthorized ''malformed bearer token'' (tl_base64url T signature_part)) (\<lambda>signature.
     and_then (unless_unauthorized (tl_hmac_verify T secret (header_part @ ''.'' @ payload_part) signature)
                ''invalid bearer token signature'') (\<lambda>_.
     and_then (or_unauthorized ''malformed bearer token'' (tl_base64url T payload_part)) (\<lambda>payload_bytes.
     and_then (or_unauthorized ''malformed bearer token'' (tl_json T payload_bytes)) (\<lambda>claims.
     and_then (check_claims env clock claims) (\<lambda>_. Inr claims)))))))))))"

section \<open>The role of a caller\<close>

definition parse_role :: "string \<Rightarrow> api_error + role" where
  "parse_role raw = or_unauthorized ''unknown APEX role'' (role_from_str raw)"

definition role_from_bearer :: "token_lib \<Rightarrow> process_env \<Rightarrow> nat option \<Rightarrow> header_map \<Rightarrow> api_error + role option" where
  "role_from_bearer T env clock headers =
     (case headers ''authorization'' of
        None \<Rightarrow> Inr None
      | Some value \<Rightarrow>
          and_then (or_unauthorized ''malformed Authorization header'' value) (\<lambda>raw.
          and_then (or_unauthorized ''malformed Authorization header'' (split_once CHR '' '' raw)) (\<lambda>(scheme, token).
          and_then (unless_unauthorized (\<not> (\<not> eq_ignore_ascii_case scheme ''bearer'' \<or> token = []))
                     ''expected Bearer authorization'') (\<lambda>_.
          and_then (verified_apex_claims T env clock token) (\<lambda>claims.
          and_then (required_text claims ''role'') (\<lambda>name.
          and_then (parse_role name) (\<lambda>role. Inr (Some role))))))))"

definition allow_unsigned_role_header :: "process_env \<Rightarrow> bool" where
  "allow_unsigned_role_header env \<longleftrightarrow>
     (case env ''ASMODEUS_ALLOW_ROLE_HEADER'' of
        None \<Rightarrow> False
      | Some v \<Rightarrow> to_ascii_lowercase v \<in> set [''1'', ''true'', ''yes''])"

definition caller_role :: "token_lib \<Rightarrow> process_env \<Rightarrow> nat option \<Rightarrow> header_map \<Rightarrow> api_error + role" where
  "caller_role T env clock headers =
     and_then (role_from_bearer T env clock headers) (\<lambda>found.
     case found of
       Some role \<Rightarrow> Inr role
     | None \<Rightarrow>
         if allow_unsigned_role_header env
         then and_then (or_unauthorized ''missing Authorization bearer token'' (Option.bind (headers ''x-apex-role'') id)) parse_role
         else Inl (ApiUnauthorized ''missing Authorization bearer token''))"

section \<open>Only issued tokens give a role\<close>

lemma or_unauthorized_Inr [simp]: "or_unauthorized m x = Inr v \<longleftrightarrow> x = Some v"
  by (simp add: or_unauthorized_def split: option.splits)

lemma unless_unauthorized_Inr [simp]: "unless_unauthorized b m = Inr u \<longleftrightarrow> b"
  by (simp add: unless_unauthorized_def)

lemma required_text_Inr [simp]:
  "required_text claims key = Inr v \<longleftrightarrow> json_get claims key = Some (JStr v) \<and> v \<noteq> []"
  by (auto simp: required_text_def bind_eq_Some_conv elim: as_str.elims split: option.splits)

lemma required_number_Inr [simp]:
  "required_number claims key = Inr n \<longleftrightarrow> json_get claims key = Some (JNum (PosInt n))"
  by (auto simp: required_number_def bind_eq_Some_conv elim: as_u64.elims split: option.splits)

lemma split_on_parts: "split_on c s = a # bs \<Longrightarrow> c \<notin> set a \<and> (case bs of [] \<Rightarrow> s = a | _ \<Rightarrow> \<exists>r. s = a @ c # r \<and> split_on c r = bs)"
proof (induction c s arbitrary: a bs rule: split_on.induct)
  case (2 c x xs)
  obtain y ys where y: "split_on c xs = y # ys" by (meson neq_Nil_conv split_on_not_Nil)
  with "2.IH" "2.prems" show ?case
    by (cases "x = c"; cases ys) (fastforce split: if_splits list.splits)+
qed simp

lemma token_parts_Inr:
  "token_parts token = Inr (h, p, s) \<Longrightarrow>
    token = h @ ''.'' @ p @ ''.'' @ s \<and> CHR ''.'' \<notin> set h \<and> CHR ''.'' \<notin> set p"
  using split_on_parts [of "CHR ''.''" token h "[p, s]"] split_on_parts [of "CHR ''.''" _ p "[s]"]
    split_on_parts [of "CHR ''.''" _ s "[]"]
  by (fastforce simp: token_parts_def split: list.splits)

text \<open>What the claims of an accepted token say, and when.\<close>

definition current_claims :: "process_env \<Rightarrow> nat \<Rightarrow> json \<Rightarrow> bool" where
  "current_claims env now claims \<longleftrightarrow>
     json_get claims ''iss'' = Some (JStr (env_or env ''ASMODEUS_JWT_ISSUER'' DEFAULT_APEX_ISSUER))
     \<and> (\<exists>aud. json_get claims ''aud'' = Some aud
          \<and> audience_matches aud (env_or env ''ASMODEUS_JWT_AUDIENCE'' DEFAULT_APEX_AUDIENCE))
     \<and> json_get claims ''actor_type'' = Some (JStr ''user'')
     \<and> json_get claims ''apex_contract_version'' = Some (JStr ''1.0'')
     \<and> (\<exists>iat nbf exp. json_get claims ''iat'' = Some (JNum (PosInt iat))
          \<and> json_get claims ''nbf'' = Some (JNum (PosInt nbf)) \<and> json_get claims ''exp'' = Some (JNum (PosInt exp))
          \<and> iat \<le> now + 60 \<and> nbf \<le> now + 60 \<and> now < exp)"

lemma check_claims_current:
  "check_claims env clock claims = Inr () \<Longrightarrow> \<exists>now. clock = Some now \<and> current_claims env now claims"
  by (auto simp: check_claims_def current_claims_def APEX_CONTRACT_VERSION_def not_less sat_add64_def)

lemma verified_apex_claims_Inr:
  assumes "verified_apex_claims T env clock token = Inr claims"
  shows "\<exists>h p s secret sig payload now. token = h @ ''.'' @ p @ ''.'' @ s
    \<and> CHR ''.'' \<notin> set h \<and> CHR ''.'' \<notin> set p \<and> env ''ASMODEUS_JWT_SECRET'' = Some secret \<and> 32 \<le> length secret
    \<and> tl_hmac_verify T secret (h @ ''.'' @ p) sig \<and> tl_base64url T p = Some payload \<and> tl_json T payload = Some claims
    \<and> clock = Some now \<and> current_claims env now claims"
proof -
  obtain h p s where t: "token_parts token = Inr (h, p, s)"
    using assms by (auto simp: verified_apex_claims_def)
  with assms obtain secret sig payload where r: "env ''ASMODEUS_JWT_SECRET'' = Some secret" "32 \<le> length secret"
    "tl_hmac_verify T secret (h @ ''.'' @ p) sig" "tl_base64url T p = Some payload" "tl_json T payload = Some claims"
    "check_claims env clock claims = Inr ()"
    by (auto simp: verified_apex_claims_def)
  with token_parts_Inr [OF t] check_claims_current [OF r(6)] show ?thesis by blast
qed

lemma dot_split:
  "h @ CHR ''.'' # p = h' @ CHR ''.'' # p' \<Longrightarrow> CHR ''.'' \<notin> set h \<Longrightarrow> CHR ''.'' \<notin> set h' \<Longrightarrow> h = h' \<and> p = p'"
proof (induction h arbitrary: h')
  case Nil
  then show ?case by (cases h') auto
next
  case (Cons x h)
  then show ?case by (cases h') auto
qed

text \<open>
  C0: A caller acts under a role only with a token the identity provider issued. Assume that the verifier's
  HMAC accepts, under the configured secret, only the signing inputs \<open>header.payload\<close> of issued tokens. Then a
  role comes from the role claim of an issued payload that is addressed to this service, names a user, is
  active up to a minute of clock skew and has not expired; the secret has at least 32 bytes. The unsigned
  role header counts only when there is no Authorization header at all and the stand enables it.
\<close>
theorem role_needs_issued_token:
  assumes "\<forall>secret m sig. env ''ASMODEUS_JWT_SECRET'' = Some secret \<longrightarrow> tl_hmac_verify T secret m sig
      \<longrightarrow> (\<exists>(h, p) \<in> issued. m = h @ ''.'' @ p \<and> CHR ''.'' \<notin> set h)"
    and "caller_role T env clock headers = Inr role"
  shows "(\<exists>h p payload claims name now. (h, p) \<in> issued \<and> tl_base64url T p = Some payload \<and> tl_json T payload = Some claims
        \<and> clock = Some now \<and> current_claims env now claims
        \<and> json_get claims ''role'' = Some (JStr name) \<and> role_from_str name = Some role
        \<and> (\<exists>secret. env ''ASMODEUS_JWT_SECRET'' = Some secret \<and> 32 \<le> length secret))
    \<or> (headers ''authorization'' = None \<and> allow_unsigned_role_header env
        \<and> (\<exists>raw. headers ''x-apex-role'' = Some (Some raw) \<and> role_from_str raw = Some role))"
proof -
  from assms(2) obtain found where f: "role_from_bearer T env clock headers = Inr found"
    by (auto simp: caller_role_def)
  show ?thesis
  proof (cases found)
    case None
    with f have "headers ''authorization'' = None"
      by (auto simp: role_from_bearer_def split: option.splits prod.splits)
    moreover from assms(2) f None have "allow_unsigned_role_header env"
      "\<exists>raw. headers ''x-apex-role'' = Some (Some raw) \<and> role_from_str raw = Some role"
      by (auto simp: caller_role_def parse_role_def bind_eq_Some_conv split: if_splits)
    ultimately show ?thesis by blast
  next
    case (Some r)
    with assms(2) f have "found = Some role" by (simp add: caller_role_def)
    with f obtain token claims name where t: "verified_apex_claims T env clock token = Inr claims"
      "json_get claims ''role'' = Some (JStr name)" "role_from_str name = Some role"
      by (auto simp: role_from_bearer_def parse_role_def split: option.splits prod.splits)
    from verified_apex_claims_Inr [OF t(1)] obtain h p s secret sig payload now where v:
      "CHR ''.'' \<notin> set h" "env ''ASMODEUS_JWT_SECRET'' = Some secret" "32 \<le> length secret"
      "tl_hmac_verify T secret (h @ ''.'' @ p) sig" "tl_base64url T p = Some payload" "tl_json T payload = Some claims"
      "clock = Some now" "current_claims env now claims" by blast
    from assms(1) v(2,4) obtain h' p' where i: "(h', p') \<in> issued" "h @ ''.'' @ p = h' @ ''.'' @ p'" "CHR ''.'' \<notin> set h'"
      by blast
    with v(1) have "(h, p) \<in> issued" using dot_split [of h p h' p'] by simp
    with t v show ?thesis by blast
  qed
qed

section \<open>A concrete token\<close>

definition example_claims :: json where
  "example_claims = JObj [(''actor_type'', JStr ''user''), (''apex_contract_version'', JStr ''1.0''), (''aud'', JArr [JStr ''apex'']),
     (''exp'', JNum (PosInt 2000)), (''iat'', JNum (PosInt 1000)), (''iss'', JStr ''https://identity.apex.local''),
     (''jti'', JStr ''1''), (''nbf'', JNum (PosInt 1000)), (''permissions'', JArr []), (''role'', JStr ''red_team''),
     (''sub'', JStr ''u''), (''tenant_id'', JStr ''t'')]"

definition example_tokens :: token_lib where
  "example_tokens = \<lparr>tl_base64url = Some,
     tl_json = (\<lambda>b. if b = ''p'' then Some example_claims else if b = ''h'' then Some (JObj [(''alg'', JStr ''HS256'')]) else None),
     tl_hmac_verify = (\<lambda>k m s. m = ''h.p'' \<and> s = ''s'')\<rparr>"

definition example_process :: process_env where
  "example_process name = (if name = ''ASMODEUS_JWT_SECRET'' then Some (replicate 32 CHR ''k'') else None)"

definition example_headers :: header_map where
  "example_headers name = (if name = ''authorization'' then Some (Some ''Bearer h.p.s'') else None)"

lemma example_caller: "caller_role example_tokens example_process (Some 1500) example_headers = Inr RedTeam"
proof -
  have "eq_ignore_ascii_case ''Bearer'' ''bearer''" by code_simp
  moreover have "token_parts ''h.p.s'' = Inr (''h'', ''p'', ''s'')" by code_simp
  moreover have "check_claims example_process (Some 1500) example_claims = Inr ()"
    by (simp add: check_claims_def example_claims_def required_text_def required_number_def json_get_def env_or_def
        example_process_def DEFAULT_APEX_ISSUER_def DEFAULT_APEX_AUDIENCE_def APEX_CONTRACT_VERSION_def
        unless_unauthorized_def or_unauthorized_def and_then_def sat_add64_def reject_if_def)
  moreover have "parse_role ''red_team'' = Inr RedTeam" by code_simp
  ultimately show ?thesis
    by (simp add: caller_role_def role_from_bearer_def example_headers_def verified_apex_claims_def example_tokens_def
        json_get_def example_process_def or_unauthorized_def unless_unauthorized_def and_then_def reject_if_def)
      (simp add: required_text_def json_get_def example_claims_def)
qed

theorem role_needs_issued_token_witness:
  "\<exists>p payload claims. (''h'', p) \<in> {(''h'', ''p'')} \<and> tl_base64url example_tokens p = Some payload
     \<and> tl_json example_tokens payload = Some claims \<and> current_claims example_process 1500 claims"
proof -
  have "\<forall>secret m sig. example_process ''ASMODEUS_JWT_SECRET'' = Some secret \<longrightarrow> tl_hmac_verify example_tokens secret m sig
      \<longrightarrow> (\<exists>(h, p) \<in> {(''h'', ''p'')}. m = h @ ''.'' @ p \<and> CHR ''.'' \<notin> set h)"
    by (simp add: example_tokens_def)
  from role_needs_issued_token [OF this example_caller] show ?thesis
    by (auto simp: example_headers_def)
qed

end
