(* ===== verification/Server.thy ===== *)
theory Server
  imports Api Execution Campaign_Exec Scheduler Registry_Safety
begin

text \<open>
  The state behind the HTTP interface (\<open>AppState\<close> of \<open>crates/asmodeus-control-plane/src/state.rs\<close>) and what a
  handler needs of the outside: one \<open>world\<close> per request holds the libraries, the clock, the environment and
  how the I/O of the request ends. A handler is a function of the world, the headers and its decoded
  arguments to an answer and the next state; the steps of one handler are taken together, the interleavings
  that matter are treated with the components it calls.
\<close>

section \<open>State and world\<close>

record server =
  sv_app :: app
  sv_audit_public_key :: bytes
  sv_registry_disk :: "registry_snapshot option"
  sv_catalog :: catalog
  sv_campaigns :: "campaign_catalog persistent"
  sv_campaign_runs :: "campaign_run_store persistent"
  sv_controls :: "(string \<times> control_state) list"
  sv_schedules :: "schedule_catalog persistent"

record ping_reply =
  pg_healthy :: bool
  pg_state :: string
  pg_cpu_usage_pct :: nat
  pg_active_exercise_id :: string
  pg_version :: string

record run_payload =
  rp_target_override :: "string option"
  rp_timeout_sec :: "nat option"
  rp_background :: bool

record world =
  wo_tokens :: token_lib
  wo_env :: process_env
  wo_clock :: "nat option"
  wo_now :: string
  wo_epoch_secs :: nat
  wo_ed :: ed25519
  wo_audit :: audit_codec
  wo_manifest :: manifest_lib
  wo_url :: url_lib
  wo_campaigns_json :: "campaign_catalog json_codec"
  wo_campaign_runs_json :: "campaign_run_store json_codec"
  wo_schedules_json :: "schedule_catalog json_codec"
  wo_run_payload :: "bytes \<Rightarrow> string + run_payload"
  wo_audit_io :: io_outcome
  wo_write :: write_outcome
  wo_registry_write :: bool
  wo_probes :: "probe_op list"
  wo_ping :: "string \<Rightarrow> string + ping_reply"
  wo_pkg_version :: string
  wo_ended :: "admission \<Rightarrow> status + dispatch_outcome"
  wo_status_text :: "status \<Rightarrow> string"
  wo_later :: string
  wo_finish_io :: io_outcome

definition who :: "world \<Rightarrow> header_map \<Rightarrow> api_error + role" where
  "who W hdrs = caller_role (wo_tokens W) (wo_env W) (wo_clock W) hdrs"

definition require :: "bool \<Rightarrow> string \<Rightarrow> api_error + unit" where
  "require b m = reject_if (\<not> b) (ApiForbidden m)"

definition unless_unprocessable :: "bool \<Rightarrow> string \<Rightarrow> api_error + unit" where
  "unless_unprocessable b m = reject_if (\<not> b) (ApiUnprocessable m)"

definition or_not_found :: "string \<Rightarrow> 'a option \<Rightarrow> api_error + 'a" where
  "or_not_found m x = (case x of Some v \<Rightarrow> Inr v | None \<Rightarrow> Inl (ApiNotFound m))"

text \<open>The checks of a handler, then its action; a failed check leaves the state alone.\<close>

definition guarded :: "api_error + 'a \<Rightarrow> ('a \<Rightarrow> (api_error + 'r) \<times> server) \<Rightarrow> server \<Rightarrow> (api_error + 'r) \<times> server" where
  "guarded g k s = (case g of Inl e \<Rightarrow> (Inl e, s) | Inr a \<Rightarrow> k a)"

section \<open>Parts of the state\<close>

abbreviation sv_trail :: "server \<Rightarrow> audit_trail" where
  "sv_trail s \<equiv> as_trail (ap_audit (sv_app s))"

abbreviation sv_runs :: "server \<Rightarrow> (string \<times> active_run) list" where
  "sv_runs s \<equiv> ap_runs (sv_app s)"

definition set_runs :: "((string \<times> active_run) list \<Rightarrow> (string \<times> active_run) list) \<Rightarrow> server \<Rightarrow> server" where
  "set_runs f s = s\<lparr>sv_app := (sv_app s)\<lparr>ap_runs := f (ap_runs (sv_app s))\<rparr>\<rparr>"

definition set_audit :: "audit_store \<Rightarrow> server \<Rightarrow> server" where
  "set_audit a s = s\<lparr>sv_app := (sv_app s)\<lparr>ap_audit := a\<rparr>\<rparr>"

definition sv_registry :: "server \<Rightarrow> runner_registry" where
  "sv_registry s = \<lparr>rs_data = ap_registry (sv_app s), rs_disk = sv_registry_disk s\<rparr>"

definition set_registry :: "runner_registry \<Rightarrow> server \<Rightarrow> server" where
  "set_registry r s = s\<lparr>sv_app := (sv_app s)\<lparr>ap_registry := rs_data r\<rparr>, sv_registry_disk := rs_disk r\<rparr>"

definition entry_category :: "server \<Rightarrow> string \<Rightarrow> category option" where
  "entry_category s i = map_option se_category (cg_get (sv_catalog s) i)"

definition may_run :: "server \<Rightarrow> role \<Rightarrow> string \<Rightarrow> bool" where
  "may_run s role i \<longleftrightarrow> (\<exists>c. entry_category s i = Some c \<and> can role (required_capability c))"

lemma may_run_code [code]:
  "may_run s role i \<longleftrightarrow> (case entry_category s i of None \<Rightarrow> False | Some c \<Rightarrow> can role (required_capability c))"
  by (simp add: may_run_def split: option.splits)

section \<open>Errors of the execution layers\<close>

fun api_of_campaign :: "campaign_error \<Rightarrow> api_error" where
  "api_of_campaign (CampNotFound m) = ApiNotFound m"
| "api_of_campaign (CampForbidden m) = ApiForbidden m"
| "api_of_campaign (CampConflict m) = ApiConflict m"
| "api_of_campaign (CampPersistence m) = ApiInternal m"

fun api_of_exec :: "exec_error \<Rightarrow> api_error" where
  "api_of_exec EInvalidSignature = ApiUnprocessable (exec_error_text EInvalidSignature)"
| "api_of_exec (ERunnerRejected m) = ApiUnprocessable (exec_error_text (ERunnerRejected m))"
| "api_of_exec (EInvalidManifest m) = ApiUnprocessable (exec_error_text (EInvalidManifest m))"
| "api_of_exec EForbidden = ApiForbidden ''role may not execute this scenario category''"
| "api_of_exec (ETargetNotFound m) = ApiNotFound (exec_error_text (ETargetNotFound m))"
| "api_of_exec (EDispatch m) = ApiBadGateway (exec_error_text (EDispatch m))"
| "api_of_exec ENoActiveRunner = ApiBadGateway (exec_error_text ENoActiveRunner)"
| "api_of_exec (ERunnerIncomplete m) = ApiInternal (exec_error_text (ERunnerIncomplete m))"
| "api_of_exec (EAuditSigning m) = ApiInternal (exec_error_text (EAuditSigning m))"
| "api_of_exec (EAuditPersistence m) = ApiInternal (exec_error_text (EAuditPersistence m))"

definition map_error :: "('e \<Rightarrow> 'f) \<Rightarrow> 'e + 'a \<Rightarrow> 'f + 'a" where
  "map_error f r = (case r of Inl e \<Rightarrow> Inl (f e) | Inr a \<Rightarrow> Inr a)"

section \<open>Cancelling\<close>

text \<open>\<open>cancel_scenario\<close> and \<open>request_cancel\<close> of \<open>campaign_execution.rs\<close>.\<close>

definition cancel_scenario :: "string \<Rightarrow> server \<Rightarrow> server" where
  "cancel_scenario i s = set_runs (AList.map_entry i active_run_cancel) s"

definition request_cancel :: "string \<Rightarrow> server \<Rightarrow> bool \<times> server" where
  "request_cancel i s =
     (case map_of (sv_controls s) i of
        None \<Rightarrow> (False, s)
      | Some control \<Rightarrow>
          (case control_cancel control of (current, control') \<Rightarrow>
             let s' = s\<lparr>sv_controls := AList.update i control' (sv_controls s)\<rparr> in
             (True, case current of None \<Rightarrow> s' | Some run_id \<Rightarrow> cancel_scenario run_id s')))"

section \<open>Lemmas on handlers\<close>

named_theorems http_defs \<open>guards and state updates of the handlers\<close>

lemmas guard_defs [http_defs] = guarded_def require_def unless_unprocessable_def or_not_found_def map_error_def

lemma require_Inr [simp]: "require b m = Inr u \<longleftrightarrow> b"
  by (simp add: require_def)

lemma unless_unprocessable_Inr [simp]: "unless_unprocessable b m = Inr u \<longleftrightarrow> b"
  by (simp add: unless_unprocessable_def)

lemma or_not_found_Inr [simp]: "or_not_found m x = Inr v \<longleftrightarrow> x = Some v"
  by (simp add: or_not_found_def split: option.splits)

lemma map_error_Inr [simp]: "map_error f r = Inr v \<longleftrightarrow> r = Inr v"
  by (simp add: map_error_def split: sum.splits)

text \<open>A handler that changes the state, or answers anything but an error, has passed its checks.\<close>

lemma guarded_cases:
  "guarded g k s = (res, s') \<Longrightarrow> (\<exists>e. g = Inl e \<and> res = Inl e \<and> s' = s) \<or> (\<exists>a. g = Inr a \<and> k a = (res, s'))"
  by (auto simp: guarded_def split: sum.splits)

lemma guarded_changes: "guarded g k s = (res, s') \<Longrightarrow> s' \<noteq> s \<Longrightarrow> \<exists>a. g = Inr a \<and> k a = (res, s')"
  using guarded_cases by blast

lemma set_simps [simp]:
  "sv_catalog (set_runs f s) = sv_catalog s" "sv_catalog (set_audit a s) = sv_catalog s" "sv_catalog (set_registry r s) = sv_catalog s"
  "sv_runs (set_runs f s) = f (sv_runs s)" "sv_runs (set_audit a s) = sv_runs s" "sv_runs (set_registry r s) = sv_runs s"
  "ap_audit (sv_app (set_runs f s)) = ap_audit (sv_app s)" "ap_audit (sv_app (set_audit a s)) = a"
  "ap_audit (sv_app (set_registry r s)) = ap_audit (sv_app s)"
  "sv_controls (set_runs f s) = sv_controls s" "sv_controls (set_audit a s) = sv_controls s"
  "sv_controls (set_registry r s) = sv_controls s"
  by (simp_all add: set_runs_def set_audit_def set_registry_def)

section \<open>Cancelling only cancels\<close>

text \<open>
  Between two states every live run and every control is still there, a run is as it was or cancelled, a control keeps
  its stage and stays cancelled, and nothing else of the state has changed.
\<close>

definition only_cancels :: "server \<Rightarrow> server \<Rightarrow> bool" where
  "only_cancels s s' \<longleftrightarrow>
     s' = s\<lparr>sv_app := (sv_app s)\<lparr>ap_runs := sv_runs s'\<rparr>, sv_controls := sv_controls s'\<rparr>
     \<and> map fst (sv_runs s') = map fst (sv_runs s) \<and> map fst (sv_controls s') = map fst (sv_controls s)
     \<and> (\<forall>i. map_of (sv_runs s') i = map_of (sv_runs s) i \<or> map_of (sv_runs s') i = map_option active_run_cancel (map_of (sv_runs s) i))
     \<and> (\<forall>i c. map_of (sv_controls s) i = Some c \<longrightarrow>
          (\<exists>c'. map_of (sv_controls s') i = Some c' \<and> cc_current c' = cc_current c \<and> (cc_cancelled c \<longrightarrow> cc_cancelled c')))"

lemma only_cancels_refl [simp]: "only_cancels s s"
  by (simp add: only_cancels_def)

lemma cancel_twice [simp]: "active_run_cancel (active_run_cancel a) = active_run_cancel a"
  by (simp add: active_run_cancel_def)

lemma only_cancels_trans:
  assumes "only_cancels s t" and "only_cancels t u"
  shows "only_cancels s u"
proof -
  have "map_of (sv_runs u) i = map_of (sv_runs s) i \<or> map_of (sv_runs u) i = map_option active_run_cancel (map_of (sv_runs s) i)" for i
  proof -
    have "map_of (sv_runs t) i = map_of (sv_runs s) i \<or> map_of (sv_runs t) i = map_option active_run_cancel (map_of (sv_runs s) i)"
        "map_of (sv_runs u) i = map_of (sv_runs t) i \<or> map_of (sv_runs u) i = map_option active_run_cancel (map_of (sv_runs t) i)"
      using assms unfolding only_cancels_def by blast+
    then show ?thesis by (cases "map_of (sv_runs s) i") auto
  qed
  moreover have "\<exists>c'. map_of (sv_controls u) i = Some c' \<and> cc_current c' = cc_current c \<and> (cc_cancelled c \<longrightarrow> cc_cancelled c')"
    if "map_of (sv_controls s) i = Some c" for i c
    using assms that unfolding only_cancels_def by metis
  moreover have "u = s\<lparr>sv_app := (sv_app s)\<lparr>ap_runs := sv_runs u\<rparr>, sv_controls := sv_controls u\<rparr>"
  proof -
    have t: "t = s\<lparr>sv_app := (sv_app s)\<lparr>ap_runs := sv_runs t\<rparr>, sv_controls := sv_controls t\<rparr>"
      and u: "u = t\<lparr>sv_app := (sv_app t)\<lparr>ap_runs := sv_runs u\<rparr>, sv_controls := sv_controls u\<rparr>"
      using assms unfolding only_cancels_def by blast+
    show ?thesis by (subst u, subst t, subst (3) t) simp
  qed
  moreover have "map fst (sv_runs u) = map fst (sv_runs s)" "map fst (sv_controls u) = map fst (sv_controls s)"
    using assms unfolding only_cancels_def by simp_all
  ultimately show ?thesis unfolding only_cancels_def by blast
qed

lemma keys_map_entry: "map fst (AList.map_entry k f al) = map fst al"
  by (induction al) auto

lemma cancel_scenario_only: "only_cancels s (cancel_scenario i s)"
  by (auto simp: only_cancels_def cancel_scenario_def set_runs_def keys_map_entry AList.map_of_map_entry split: option.splits)

lemma cancel_scenario_get:
  "map_of (sv_runs (cancel_scenario i s)) k
     = (if k = i then map_option active_run_cancel (map_of (sv_runs s) k) else map_of (sv_runs s) k)"
  by (simp add: cancel_scenario_def AList.map_of_map_entry split: option.splits)

lemma request_cancel_only:
  assumes "request_cancel i s = (b, s')"
  shows "only_cancels s s' \<and> (b \<longleftrightarrow> i \<in> set (map fst (sv_controls s)))
    \<and> (\<forall>c. map_of (sv_controls s) i = Some c \<longrightarrow>
         (\<exists>c'. map_of (sv_controls s') i = Some c' \<and> cc_cancelled c' \<and> cc_current c' = cc_current c)
         \<and> (\<forall>k a. cc_current c = Some k \<longrightarrow> map_of (sv_runs s) k = Some a \<longrightarrow> map_of (sv_runs s') k = Some (active_run_cancel a)))"
proof (cases "map_of (sv_controls s) i")
  case None
  then have "i \<notin> set (map fst (sv_controls s))" by (simp add: map_of_eq_None_iff)
  with None assms show ?thesis by (auto simp: request_cancel_def)
next
  case (Some c)
  let ?t = "s\<lparr>sv_controls := AList.update i (c\<lparr>cc_cancelled := True\<rparr>) (sv_controls s)\<rparr>"
  have i: "i \<in> set (map fst (sv_controls s))" using Some by (metis map_of_eq_None_iff option.distinct(1) set_map)
  have t: "only_cancels s ?t"
    using i Some by (auto simp: only_cancels_def update_keys update_conv')
  have b: "b" and s': "s' = (case cc_current c of None \<Rightarrow> ?t | Some k \<Rightarrow> cancel_scenario k ?t)"
    using assms Some by (auto simp: request_cancel_def control_cancel_def Let_def split: option.splits)
  have "only_cancels s s'"
    using only_cancels_trans [OF t cancel_scenario_only] t by (auto simp: s' split: option.splits)
  moreover have "sv_controls s' = sv_controls ?t" by (simp add: s' cancel_scenario_def split: option.splits)
  ultimately show ?thesis
    using b i Some by (auto simp: s' cancel_scenario_get update_conv' split: option.splits)
qed

end
