(* ===== verification/Example_Server.thy ===== *)
theory Example_Server
  imports Server Execution_Safety Example_Stores
begin

text \<open>
  A concrete control plane for the witnesses of the HTTP layer: the built-in catalog under a toy signature scheme,
  an audit trail holding one terminal run of a runner, empty snapshots, and a development environment that accepts
  the role header.
\<close>

definition example_dev_env :: process_env where
  "example_dev_env name = (if name = ''ASMODEUS_ALLOW_ROLE_HEADER'' then Some ''1'' else None)"

definition example_as :: "role \<Rightarrow> header_map" where
  "example_as r name = (if name = ''x-apex-role'' then Some (Some (role_as_str r)) else None)"

definition example_world :: world where
  "example_world = \<lparr>wo_tokens = example_tokens, wo_env = example_dev_env, wo_clock = Some 1500, wo_now = ''now'',
     wo_epoch_secs = 1500, wo_ed = toy_ed25519, wo_audit = example_codec, wo_manifest = example_lib,
     wo_url = \<lparr>ul_parse = (\<lambda>_. None), ul_grpc_uri = (\<lambda>_. False)\<rparr>,
     wo_campaigns_json = \<lparr>js_enc = (\<lambda>_. []), js_dec = (\<lambda>_. None)\<rparr>, wo_campaign_runs_json = run_codec,
     wo_schedules_json = schedule_codec, wo_run_payload = (\<lambda>_. Inl ''malformed''), wo_audit_io = IoOk, wo_write = WriteOk,
     wo_registry_write = True, wo_probes = [], wo_ping = (\<lambda>_. Inl ''unreachable''), wo_pkg_version = ''0.1.0'',
     wo_ended = (\<lambda>_. Inr (default_outcome\<lparr>do_terminal := True, do_completed := True, do_final_state := ''COMPLETED''\<rparr>)),
     wo_status_text = (\<lambda>_. ''error''), wo_later = ''later'', wo_finish_io = IoOk\<rparr>"

definition example_memory :: "'a \<Rightarrow> 'a persistent" where
  "example_memory v = \<lparr>pe_value = v, pe_disk = None\<rparr>"

definition example_done :: audit_record where
  "example_done = example_record\<lparr>ar_status := ''SUCCESS'', ar_cleanup_status := ''CONFIRMED''\<rparr>"

definition example_server :: server where
  "example_server = \<lparr>
     sv_app = (example_plane \<lparr>rd_runners = [], rd_require_runner = False, rd_next_epoch = 0\<rparr>)\<lparr>ap_audit := publish example_codec example_done empty_store\<rparr>,
     sv_audit_public_key = ''key'', sv_registry_disk = None, sv_catalog = catalog_seeded toy_ed25519 example_lib ''key'',
     sv_campaigns = example_memory [], sv_campaign_runs = example_memory default_store, sv_controls = [],
     sv_schedules = example_memory live_catalog\<rparr>"

lemma example_who: "who example_world (example_as r) = Inr r"
proof -
  have "allow_unsigned_role_header example_dev_env" by code_simp
  moreover have "role_from_str (role_as_str r) = Some r" by (cases r; simp only:; code_simp)
  ultimately show ?thesis
    by (simp add: who_def caller_role_def role_from_bearer_def example_world_def example_as_def parse_role_def
      or_unauthorized_def)
qed

lemma example_trail: "sv_trail example_server = [example_done]"
  by (simp add: example_server_def publish_def empty_store_def upsert_def)

lemma example_audit_inv: "as_inv example_codec (ap_audit (sv_app example_server))"
  using publish_inv [OF example_codec_ok] by (simp add: example_server_def as_inv_def empty_store_def from_jsonl_def)

lemma example_world_simps [simp]:
  "wo_ed example_world = toy_ed25519" "wo_audit example_world = example_codec" "wo_manifest example_world = example_lib"
  "wo_audit_io example_world = IoOk" "wo_write example_world = WriteOk" "wo_now example_world = ''now''"
  "wo_schedules_json example_world = schedule_codec" "wo_campaign_runs_json example_world = run_codec"
  by (simp_all add: example_world_def)

lemma example_server_simps [simp]:
  "ap_signing_key (sv_app example_server) = ''key''" "sv_audit_public_key example_server = ''key''"
  "sv_catalog example_server = catalog_seeded toy_ed25519 example_lib ''key''"
  "as_file (ap_audit (sv_app example_server)) \<noteq> None" "sv_runs example_server = []" "sv_controls example_server = []"
  "sv_schedules example_server = example_memory live_catalog" "sv_campaigns example_server = example_memory []"
  by (simp_all add: example_server_def example_plane_def publish_def empty_store_def)

lemma update_memory: "pe_update C change io (example_memory v) =
   (case change v of (Inl e, _) \<Rightarrow> (Inl e, example_memory v) | (Inr r, n) \<Rightarrow> (Inr r, example_memory n))"
  by (simp add: pe_update_def example_memory_def split: prod.splits sum.splits)

text \<open>A healthy disk takes any record under the run it belongs to.\<close>

lemma example_update:
  assumes "trail_get (as_trail a) k = Some old" and "f old = Inr rec" and "ar_run_id rec = k"
  shows "fst (as_update J k f IoOk a) = Inr (Some rec)"
  using assms by (simp add: as_update_def persist_def append_to_file_def split: option.splits prod.splits)

end
