(* ===== verification/Runs_Http.thy ===== *)
theory Runs_Http
  imports Example_Server
begin

text \<open>
  \<open>crates/asmodeus-control-plane/src/runs_http.rs\<close>: run history, verification, feedback of the Blue Team and
  cancellation of one run.
\<close>

section \<open>Reading\<close>

record list_runs_query =
  lq_limit :: "nat option"
  lq_scenario_id :: "string option"
  lq_status :: "string option"

definition list_runs :: "world \<Rightarrow> header_map \<Rightarrow> list_runs_query \<Rightarrow> server \<Rightarrow> api_error + nat \<times> audit_record list" where
  "list_runs W hdrs q s =
     and_then (who W hdrs) (\<lambda>role.
     and_then (require (can role ViewReports) ''role may not view run history'') (\<lambda>_.
     Inr (length (sv_trail s), trail_list (sv_trail s) (lq_limit q) (lq_scenario_id q) (lq_status q))))"

text \<open>The record with the state of its live handle, if it has one.\<close>

definition get_run :: "world \<Rightarrow> header_map \<Rightarrow> string \<Rightarrow> server \<Rightarrow> api_error + audit_record \<times> string option" where
  "get_run W hdrs i s =
     and_then (who W hdrs) (\<lambda>role.
     and_then (require (can role ViewReports) ''role may not view run details'') (\<lambda>_.
     and_then (or_not_found (''run not found: '' @ i) (trail_get (sv_trail s) i)) (\<lambda>r.
     Inr (r, map_option av_status (map_of (sv_runs s) i)))))"

definition verify_run :: "world \<Rightarrow> header_map \<Rightarrow> string \<Rightarrow> server \<Rightarrow> api_error + audit_record \<times> bool" where
  "verify_run W hdrs i s =
     and_then (who W hdrs) (\<lambda>role.
     and_then (require (can role ViewReports) ''role may not verify runs'') (\<lambda>_.
     and_then (or_not_found (''run not found: '' @ i) (trail_get (sv_trail s) i)) (\<lambda>r.
     Inr (r, verify_with_key (wo_ed W) (wo_audit W) r (sv_audit_public_key s)))))"

section \<open>Feedback\<close>

record feedback =
  fb_detected :: bool
  fb_mttd_ms :: "nat option"
  fb_detection_source :: "string option"
  fb_contained :: bool
  fb_mttr_ms :: "nat option"
  fb_containment_action :: "string option"

definition check_feedback :: "feedback \<Rightarrow> audit_record \<Rightarrow> api_error + unit" where
  "check_feedback p old =
     and_then (unless_unprocessable (ar_is_terminal old) ''feedback requires a terminal execution result'') (\<lambda>_.
     and_then (unless_unprocessable (\<not> (fb_contained p \<and> \<not> fb_detected p)) ''contained requires detected=true'') (\<lambda>_.
     and_then (unless_unprocessable (\<not> (fb_detected p \<and> fb_mttd_ms p = None)) ''detected feedback requires mttd_ms'') (\<lambda>_.
     unless_unprocessable (\<not> (fb_contained p \<and> fb_mttr_ms p = None)) ''contained feedback requires mttr_ms'')))"

definition unwrap_or :: "'a \<Rightarrow> 'a option \<Rightarrow> 'a" where
  "unwrap_or d x = (case x of Some v \<Rightarrow> v | None \<Rightarrow> d)"

definition feedback_record :: "string \<Rightarrow> feedback \<Rightarrow> audit_record \<Rightarrow> audit_record" where
  "feedback_record now p old =
     old\<lparr>ar_measurements := \<lparr>ms_mttd_ms = (if fb_detected p then unwrap_or 0 (fb_mttd_ms p) else 0),
           ms_mttr_ms = (if fb_contained p then unwrap_or 0 (fb_mttr_ms p) else 0),
           ms_blue_team_detected = fb_detected p\<rparr>,
         ar_evidence := Some ((unwrap_or (default_evidence\<lparr>ev_execution_mode := ''legacy_unverified''\<rparr>) (ar_evidence old))
           \<lparr>ev_feedback_received := True, ev_contained := fb_contained p\<rparr>),
         ar_detection_source := unwrap_or ''operator_feedback'' (fb_detection_source p),
         ar_containment_action := (if fb_contained p then unwrap_or ''operator_confirmed'' (fb_containment_action p)
                                   else ''UNCONFIRMED''),
         ar_timestamp_utc := now\<rparr>"

definition sign_error_text :: "sign_error + audit_record \<Rightarrow> string + audit_record" where
  "sign_error_text r = map_error (\<lambda>_. ''secret key is malformed'') r"

definition feedback_change :: "audit_record \<Rightarrow> schedule_catalog \<Rightarrow> (string + unit) \<times> schedule_catalog" where
  "feedback_change r c = (Inr (), record_feedback r c)"

definition feedback_allowed :: "world \<Rightarrow> header_map \<Rightarrow> string \<Rightarrow> feedback \<Rightarrow> server \<Rightarrow> api_error + unit" where
  "feedback_allowed W hdrs i p s =
     and_then (who W hdrs) (\<lambda>role.
     and_then (require (\<not> (role = Ciso \<or> role = Auditor)) ''role may not submit feedback'') (\<lambda>_.
     and_then (or_not_found (''run not found: '' @ i) (trail_get (sv_trail s) i)) (check_feedback p)))"

definition run_feedback :: "world \<Rightarrow> header_map \<Rightarrow> string \<Rightarrow> feedback \<Rightarrow> server \<Rightarrow> (api_error + audit_record) \<times> server" where
  "run_feedback W hdrs i p s =
     guarded (feedback_allowed W hdrs i p s)
       (\<lambda>_. case as_update (wo_audit W) i
                (\<lambda>old. sign_error_text (ar_signed (wo_ed W) (wo_audit W) (ap_signing_key (sv_app s)) (feedback_record (wo_now W) p old)))
                (wo_audit_io W) (ap_audit (sv_app s)) of
           (Inl e, a) \<Rightarrow> (Inl (ApiInternal (''audit feedback: '' @ e)), set_audit a s)
         | (Inr None, a) \<Rightarrow> (Inl (ApiNotFound (''run not found: '' @ i)), set_audit a s)
         | (Inr (Some rec), a) \<Rightarrow>
             (case pe_update (wo_schedules_json W) (feedback_change rec) (wo_write W) (sv_schedules s) of
                (Inl e, c) \<Rightarrow> (Inl (ApiInternal (''feedback saved but schedule update failed: '' @ e)),
                               (set_audit a s)\<lparr>sv_schedules := c\<rparr>)
              | (Inr _, c) \<Rightarrow> (Inr rec, (set_audit a s)\<lparr>sv_schedules := c\<rparr>))) s"

section \<open>Cancellation\<close>

datatype cancel_answer = CancelFinal string "run_evidence option" | CancelRequested

definition cancel_run :: "world \<Rightarrow> header_map \<Rightarrow> string \<Rightarrow> server \<Rightarrow> (api_error + cancel_answer) \<times> server" where
  "cancel_run W hdrs i s =
     guarded
       (and_then (who W hdrs) (\<lambda>role.
        and_then (or_not_found (''run not found: '' @ i) (trail_get (sv_trail s) i)) (\<lambda>r.
        and_then (case category_from_str (ar_category r) of Some c \<Rightarrow> Inr c | None \<Rightarrow> Inl (ApiUnprocessable ''unknown run category'')) (\<lambda>c.
        and_then (require (can role (required_capability c)) ''role may not cancel this scenario category'') (\<lambda>_. Inr r)))))
       (\<lambda>r. if ar_is_terminal r then (Inr (CancelFinal (ar_status r) (ar_evidence r)), s)
            else if map_of (sv_runs s) i \<noteq> None then (Inr CancelRequested, cancel_scenario i s)
            else (Inr (CancelFinal (ar_status r) (ar_evidence r)), s)) s"

section \<open>What feedback changes\<close>

lemma check_feedback_Inr [simp]:
  "check_feedback p old = Inr u \<longleftrightarrow> ar_is_terminal old \<and> (fb_contained p \<longrightarrow> fb_detected p \<and> fb_mttr_ms p \<noteq> None)
     \<and> (fb_detected p \<longrightarrow> fb_mttd_ms p \<noteq> None)"
  by (auto simp: check_feedback_def)

lemma sign_error_text_Inr [simp]: "sign_error_text r = Inr v \<longleftrightarrow> r = Inr v"
  by (simp add: sign_error_text_def)

text \<open>The facts of an execution that feedback must leave alone.\<close>

definition execution_facts :: "audit_record \<Rightarrow> string list \<times> (string \<times> bool \<times> string option) option" where
  "execution_facts r =
     ([ar_run_id r, ar_scenario_id r, ar_scenario_name r, ar_category r, ar_mitre_technique r, ar_mitre_tactic r,
       ar_severity r, ar_tag r, ar_initiator r, ar_runner_id r, ar_status r, ar_cleanup_status r],
      map_option (\<lambda>e. (ev_execution_mode e, ev_cleanup_confirmed e, ev_failure_reason e)) (ar_evidence r))"

lemma feedback_record_facts:
  "ar_run_id (feedback_record now p old) = ar_run_id old"
  "fst (execution_facts (feedback_record now p old)) = fst (execution_facts old)"
  "ar_evidence old \<noteq> None \<Longrightarrow> execution_facts (feedback_record now p old) = execution_facts old"
  "ar_is_terminal (feedback_record now p old) = ar_is_terminal old"
  "has_confirmed_feedback (feedback_record now p old) \<longleftrightarrow>
     (\<exists>e. ar_evidence old = Some e \<and> ev_execution_mode e = ''runner'')"
  by (auto simp: feedback_record_def execution_facts_def ar_is_terminal_def has_confirmed_feedback_def unwrap_or_def
      default_evidence_def split: option.splits)

lemma signed_same:
  assumes "ar_signed E J k r = Inr r'"
  shows "execution_facts r' = execution_facts r" "has_confirmed_feedback r' = has_confirmed_feedback r"
    "ar_is_terminal r' = ar_is_terminal r" "ar_measurements r' = ar_measurements r" "ar_run_id r' = ar_run_id r"
    "ar_evidence r' = ar_evidence r"
  using assms by (auto simp: ar_signed_Inr execution_facts_def has_confirmed_feedback_def ar_is_terminal_def)

lemma feedback_allowed_Inr [simp]:
  "feedback_allowed W hdrs i p s = Inr u \<longleftrightarrow>
     (\<exists>role old. who W hdrs = Inr role \<and> role \<noteq> Ciso \<and> role \<noteq> Auditor \<and> trail_get (sv_trail s) i = Some old
        \<and> check_feedback p old = Inr ())"
  by (auto simp: feedback_allowed_def simp del: check_feedback_Inr)

text \<open>How a feedback request ends: a check fails, the audit store refuses, or the record is published.\<close>

lemma run_feedback_cases:
  assumes "as_inv (wo_audit W) (ap_audit (sv_app s))" and "untorn (wo_audit_io W)"
    and "run_feedback W hdrs i p s = (res, s')"
  obtains e where "res = Inl e" "s' = s"
  | role old rec c r where "who W hdrs = Inr role" "role \<noteq> Ciso" "role \<noteq> Auditor"
      "trail_get (sv_trail s) i = Some old" "check_feedback p old = Inr ()"
      "ar_signed (wo_ed W) (wo_audit W) (ap_signing_key (sv_app s)) (feedback_record (wo_now W) p old) = Inr rec"
      "pe_update (wo_schedules_json W) (feedback_change rec) (wo_write W) (sv_schedules s) = (r, c)"
      "s' = (set_audit (publish (wo_audit W) rec (ap_audit (sv_app s))) s)\<lparr>sv_schedules := c\<rparr>"
      "res = (case r of Inl e \<Rightarrow> Inl (ApiInternal (''feedback saved but schedule update failed: '' @ e)) | Inr _ \<Rightarrow> Inr rec)"
proof -
  let ?f = "\<lambda>old. sign_error_text (ar_signed (wo_ed W) (wo_audit W) (ap_signing_key (sv_app s)) (feedback_record (wo_now W) p old))"
  have id [simp]: "set_audit (ap_audit (sv_app s)) s = s" by (simp add: set_audit_def)
  from guarded_cases [OF assms(3) [unfolded run_feedback_def]]
  consider (refused) e where "res = Inl e" "s' = s"
    | (checked) role old where "who W hdrs = Inr role" "role \<noteq> Ciso" "role \<noteq> Auditor"
      "trail_get (sv_trail s) i = Some old" "check_feedback p old = Inr ()"
    by (auto simp del: check_feedback_Inr)
  then show ?thesis
  proof cases
    case refused
    then show ?thesis by (rule that(1))
  next
    case checked
    obtain ures a where u: "as_update (wo_audit W) i ?f (wo_audit_io W) (ap_audit (sv_app s)) = (ures, a)" by fastforce
    from assms(3) checked have run: "(res, s') = (case (ures, a) of
           (Inl e, a) \<Rightarrow> (Inl (ApiInternal (''audit feedback: '' @ e)), set_audit a s)
         | (Inr None, a) \<Rightarrow> (Inl (ApiNotFound (''run not found: '' @ i)), set_audit a s)
         | (Inr (Some rec), a) \<Rightarrow>
             (case pe_update (wo_schedules_json W) (feedback_change rec) (wo_write W) (sv_schedules s) of
                (Inl e, c) \<Rightarrow> (Inl (ApiInternal (''feedback saved but schedule update failed: '' @ e)),
                               (set_audit a s)\<lparr>sv_schedules := c\<rparr>)
              | (Inr _, c) \<Rightarrow> (Inr rec, (set_audit a s)\<lparr>sv_schedules := c\<rparr>)))"
    proof -
      have "feedback_allowed W hdrs i p s = Inr ()" using checked by (simp del: check_feedback_Inr)
      from assms(3) [unfolded run_feedback_def guarded_def u this] show ?thesis by simp
    qed
    have "\<And>n. wo_audit_io W \<noteq> IoTorn n" using assms(2) by (simp add: untorn_def)
    from as_update_cases [OF assms(1) this u] checked(4)
    consider (none) "a = ap_audit (sv_app s)" "\<nexists>rec. ures = Inr (Some rec)"
      | (some) rec where "ures = Inr (Some rec)" "?f old = Inr rec" "a = publish (wo_audit W) rec (ap_audit (sv_app s))"
      by (auto simp del: sign_error_text_Inr)
    then show ?thesis
    proof cases
      case none
      then have "s' = s \<and> (\<exists>e. res = Inl e)" using run by (cases ures) (auto split: option.splits)
      then show ?thesis using that(1) by blast
    next
      case some
      obtain r c where pe: "pe_update (wo_schedules_json W) (feedback_change rec) (wo_write W) (sv_schedules s) = (r, c)" by fastforce
      show ?thesis
        by (rule that(2) [OF checked _ pe]) (use some run pe in \<open>auto split: sum.splits\<close>)
    qed
  qed
qed


definition example_feedback :: feedback where
  "example_feedback = \<lparr>fb_detected = True, fb_mttd_ms = Some 90, fb_detection_source = Some ''siem'',
     fb_contained = False, fb_mttr_ms = None, fb_containment_action = None\<rparr>"


end
