(* ===== verification/Scenario_Http.thy ===== *)
theory Scenario_Http
  imports Example_Server
begin

text \<open>
  \<open>crates/asmodeus-control-plane/src/scenario_http.rs\<close>: launching a scenario, the catalog as operators see it, the
  ATT&CK matrix, the emergency abort and the manifest check.
\<close>

section \<open>Launching\<close>

definition default_payload :: run_payload where
  "default_payload = \<lparr>rp_target_override = None, rp_timeout_sec = None, rp_background = False\<rparr>"

definition body_payload :: "world \<Rightarrow> bytes \<Rightarrow> api_error + run_payload" where
  "body_payload W body =
     (if body = [] then Inr default_payload
      else map_error (\<lambda>e. ApiUnprocessable (''invalid JSON body: '' @ e)) (wo_run_payload W body))"

fun launch_refused :: "category \<Rightarrow> string" where
  "launch_refused CatRedTeam = ''role may not launch Red Team scenarios''"
| "launch_refused CatChaos = ''role may not inject chaos''"

definition launch_allowed :: "world \<Rightarrow> header_map \<Rightarrow> string \<Rightarrow> bytes \<Rightarrow> server \<Rightarrow> api_error + role \<times> run_payload \<times> scenario_entry" where
  "launch_allowed W hdrs i body s =
     and_then (who W hdrs) (\<lambda>role.
     and_then (body_payload W body) (\<lambda>payload.
     and_then (or_not_found (''unknown scenario_id: '' @ i) (cg_get (sv_catalog s) i)) (\<lambda>entry.
     and_then (require (can role (required_capability (se_category entry))) (launch_refused (se_category entry))) (\<lambda>_.
     Inr (role, payload, entry)))))"

datatype run_answer = RunQueued string | RunFinished string scenario_entry role audit_record

text \<open>
  A background run is answered when it is admitted. Otherwise the handler waits: the execution ends as the
  environment says (\<open>wo_ended\<close>) and the terminal record is published.
\<close>

definition run_scenario :: "world \<Rightarrow> header_map \<Rightarrow> string \<Rightarrow> bytes \<Rightarrow> server \<Rightarrow> (api_error + run_answer) \<times> server" where
  "run_scenario W hdrs i body s =
     guarded (launch_allowed W hdrs i body s)
       (\<lambda>(role, payload, entry).
          case next_run_id (sv_app s) of (run_id, app) \<Rightarrow>
          case start_scenario (wo_ed W) (wo_audit W) (wo_manifest W) (wo_now W) (wo_audit_io W) entry role
                 (rp_target_override payload) (rp_timeout_sec payload) run_id app of
            (Inl e, app) \<Rightarrow> (Inl (api_of_exec e), s\<lparr>sv_app := app\<rparr>)
          | (Inr ad, app) \<Rightarrow>
              if rp_background payload then (Inr (RunQueued run_id), s\<lparr>sv_app := app\<rparr>)
              else (case finish_run (wo_ed W) (wo_audit W) (wo_status_text W) (wo_later W) (wo_finish_io W) ad run_id
                           (wo_ended W ad) app of
                      (Inl e, app) \<Rightarrow> (Inl (api_of_exec e), s\<lparr>sv_app := app\<rparr>)
                    | (Inr record, app) \<Rightarrow> (Inr (RunFinished run_id entry role record), s\<lparr>sv_app := app\<rparr>))) s"

section \<open>The catalog\<close>

record scenario_row =
  sw_id :: string
  sw_name :: string
  sw_category :: string
  sw_mitre_technique :: "string option"
  sw_mitre_tactic :: "string option"
  sw_fidelity :: string
  sw_claims_behavioral_coverage :: bool
  sw_severity :: string
  sw_detector :: string
  sw_description :: string

definition scenario_row_of :: "scenario_entry \<Rightarrow> scenario_row" where
  "scenario_row_of e =
     \<lparr>sw_id = se_id e, sw_name = se_name e, sw_category = category_as_str (se_category e),
      sw_mitre_technique = map_option mt_id (se_mitre e), sw_mitre_tactic = map_option mt_tactic (se_mitre e),
      sw_fidelity = fidelity_as_str (se_fidelity e), sw_claims_behavioral_coverage = claims_behavioral_coverage e,
      sw_severity = se_severity e, sw_detector = se_detector e, sw_description = se_description e\<rparr>"

abbreviation entries :: "server \<Rightarrow> scenario_entry list" where
  "entries s \<equiv> map snd (cg_entries (sv_catalog s))"

definition list_scenarios :: "world \<Rightarrow> header_map \<Rightarrow> server \<Rightarrow> api_error + scenario_row list" where
  "list_scenarios W hdrs s =
     and_then (who W hdrs) (\<lambda>role.
     and_then (require (can role ViewReports) ''role may not view scenarios'') (\<lambda>_.
     Inr (sort_key sw_id (map scenario_row_of (entries s)))))"

record technique_view =
  tv_technique_id :: string
  tv_technique_name :: "string option"
  tv_tactic :: "string option"
  tv_fidelity :: string

definition technique_view_of :: "technique_ref \<Rightarrow> technique_view" where
  "technique_view_of r =
     (let t = lookup_technique (tr_technique_id r) in
      \<lparr>tv_technique_id = tr_technique_id r, tv_technique_name = map_option mt_name t, tv_tactic = map_option mt_tactic t,
       tv_fidelity = fidelity_as_str (tr_fidelity r)\<rparr>)"

definition get_scenario :: "world \<Rightarrow> header_map \<Rightarrow> string \<Rightarrow> server \<Rightarrow>
    api_error + scenario_row \<times> technique_view list \<times> scenario_profile option \<times> string \<times> nat \<times> nat" where
  "get_scenario W hdrs i s =
     and_then (who W hdrs) (\<lambda>role.
     and_then (require (can role ViewReports) ''role may not view scenarios'') (\<lambda>_.
     and_then (or_not_found (''unknown scenario_id: '' @ i) (cg_get (sv_catalog s) i)) (\<lambda>e.
     Inr (scenario_row_of e, map technique_view_of (se_technique_refs e), se_profile e, se_target_path e,
          se_sim_mttd_ms e, se_sim_mttr_ms e))))"

section \<open>The ATT&CK matrix\<close>

record matrix_row =
  mr_scenario_id :: string
  mr_scenario_name :: string
  mr_technique_id :: string
  mr_technique_name :: string
  mr_fidelity :: fidelity
  mr_claims_behavioral_coverage :: bool
  mr_limitations :: "string option"
  mr_severity :: string
  mr_detector :: string

definition matrix_row_of :: "scenario_entry \<Rightarrow> technique_ref \<Rightarrow> mitre_technique \<Rightarrow> matrix_row" where
  "matrix_row_of e r t =
     \<lparr>mr_scenario_id = se_id e, mr_scenario_name = se_name e, mr_technique_id = mt_id t, mr_technique_name = mt_name t,
      mr_fidelity = tr_fidelity r, mr_claims_behavioral_coverage = claims_behavioral (tr_fidelity r),
      mr_limitations = map_option pf_limitations (se_profile e), mr_severity = se_severity e, mr_detector = se_detector e\<rparr>"

record matrix_acc =
  mx_tactics :: "(string \<times> matrix_row list) list"
  mx_referenced :: "string set"
  mx_best :: "(string \<times> fidelity) list"
  mx_count :: nat

definition entry_or :: "'v \<Rightarrow> ('k \<times> 'v) list \<Rightarrow> 'k \<Rightarrow> 'v" where
  "entry_or d m k = (case map_of m k of Some v \<Rightarrow> v | None \<Rightarrow> d)"

definition matrix_ref :: "scenario_entry \<Rightarrow> technique_ref \<Rightarrow> matrix_acc \<Rightarrow> matrix_acc" where
  "matrix_ref e r acc =
     (case lookup_technique (tr_technique_id r) of
        None \<Rightarrow> acc
      | Some t \<Rightarrow>
          let slot = entry_or Unspecified (mx_best acc) (tr_technique_id r) in
          acc\<lparr>mx_referenced := insert (tr_technique_id r) (mx_referenced acc),
              mx_best := AList.update (tr_technique_id r) (if tr_fidelity r > slot then tr_fidelity r else slot) (mx_best acc),
              mx_tactics := AList.update (mt_tactic t)
                (entry_or [] (mx_tactics acc) (mt_tactic t) @ [matrix_row_of e r t]) (mx_tactics acc)\<rparr>)"

definition matrix_entry :: "scenario_entry \<Rightarrow> matrix_acc \<Rightarrow> matrix_acc" where
  "matrix_entry e acc =
     (if se_technique_refs e = [] then acc
      else fold (matrix_ref e) (se_technique_refs e) (acc\<lparr>mx_count := mx_count acc + 1\<rparr>))"

record mitre_matrix =
  mm_total_scenarios :: nat
  mm_mitre_scenarios_count :: nat
  mm_techniques_referenced_count :: nat
  mm_behavioral_coverage_count :: nat
  mm_marker_only_techniques_count :: nat
  mm_tactics :: "(string \<times> matrix_row list) list"

definition matrix_of :: "scenario_entry list \<Rightarrow> mitre_matrix" where
  "matrix_of es =
     (let acc = fold matrix_entry es \<lparr>mx_tactics = [], mx_referenced = {}, mx_best = [], mx_count = 0\<rparr>;
          behavioral = length (filter (\<lambda>(_, f). claims_behavioral f) (mx_best acc)) in
      \<lparr>mm_total_scenarios = length es, mm_mitre_scenarios_count = mx_count acc,
       mm_techniques_referenced_count = card (mx_referenced acc), mm_behavioral_coverage_count = behavioral,
       mm_marker_only_techniques_count = card (mx_referenced acc) - behavioral,
       mm_tactics = sort_key fst (map (\<lambda>(t, rows). (t, sort_key mr_technique_id rows)) (mx_tactics acc))\<rparr>)"

definition mitre_matrix_http :: "world \<Rightarrow> header_map \<Rightarrow> server \<Rightarrow> api_error + mitre_matrix" where
  "mitre_matrix_http W hdrs s =
     and_then (who W hdrs) (\<lambda>role.
     and_then (require (can role ViewReports) ''role may not view MITRE matrix'') (\<lambda>_.
     Inr (matrix_of (entries s))))"

section \<open>The emergency abort\<close>

definition abort_one :: "role \<Rightarrow> string \<Rightarrow> string list \<times> server \<Rightarrow> string list \<times> server" where
  "abort_one role i x =
     (case x of (done_ids, s) \<Rightarrow>
        case store_get (pe_value (sv_campaign_runs s)) i of
          None \<Rightarrow> (done_ids, s)
        | Some r \<Rightarrow>
            if is_ok (authorize (entry_category s) r role)
            then (case request_cancel i s of (b, s') \<Rightarrow> if b then (done_ids @ [i], s') else (done_ids, s'))
            else (done_ids, s))"

definition abort_all :: "world \<Rightarrow> header_map \<Rightarrow> server \<Rightarrow> (api_error + string list \<times> string list) \<times> server" where
  "abort_all W hdrs s =
     guarded
       (and_then (who W hdrs) (\<lambda>role.
        and_then (require (can role RunRedTeam \<or> can role InjectChaos) ''role may not abort exercises'') (\<lambda>_. Inr role)))
       (\<lambda>role.
          let mine = (\<lambda>a. can role (required_capability (av_category a)));
              requested = map fst (filter (\<lambda>(i, a). mine a) (sv_runs s));
              s1 = set_runs (map (\<lambda>(i, a). (i, if mine a then active_run_cancel a else a))) s;
              (campaigns, s2) = fold (abort_one role) (map fst (sv_controls s1)) ([], s1)
          in (Inr (requested, campaigns), s2)) s"

section \<open>Checking a manifest\<close>

record manifest_check =
  mk_manifest_id :: string
  mk_manifest_name :: string
  mk_category :: category
  mk_api_version :: string
  mk_legacy :: bool
  mk_mitre_technique :: "string option"
  mk_fidelity :: string
  mk_technique_refs :: "technique_ref list"

definition validate_scenario_manifest :: "world \<Rightarrow> header_map \<Rightarrow> bytes \<Rightarrow> api_error + manifest_check" where
  "validate_scenario_manifest W hdrs body =
     and_then (who W hdrs) (\<lambda>role.
     and_then (require (can role ViewReports) ''role may not validate scenarios'') (\<lambda>_.
     and_then (unless_unprocessable (ml_utf8 (wo_manifest W) body) ''invalid UTF-8 body'') (\<lambda>_.
     case parse_and_validate (wo_manifest W) body of
       Inl e \<Rightarrow> Inl (ApiUnprocessable (manifest_error_text e))
     | Inr m \<Rightarrow>
         Inr \<lparr>mk_manifest_id = md_id (mf_metadata m), mk_manifest_name = md_name (mf_metadata m),
              mk_category = md_category (mf_metadata m), mk_api_version = mf_api_version m, mk_legacy = is_legacy m,
              mk_mitre_technique = map_option mt_id (primary_technique m),
              mk_fidelity = fidelity_as_str (effective_fidelity m), mk_technique_refs = resolved_technique_refs m\<rparr>)))"

section \<open>The matrix promotes nothing\<close>

text \<open>The references of the catalog to techniques of the pinned taxonomy.\<close>

definition known_refs :: "scenario_entry list \<Rightarrow> (scenario_entry \<times> technique_ref) set" where
  "known_refs es = {(e, r). e \<in> set es \<and> r \<in> set (se_technique_refs e) \<and> is_known_id (tr_technique_id r)}"

definition matrix_inv :: "(scenario_entry \<times> technique_ref) set \<Rightarrow> matrix_acc \<Rightarrow> bool" where
  "matrix_inv P acc \<longleftrightarrow> mx_referenced acc = (\<lambda>(e, r). tr_technique_id r) ` P
     \<and> distinct (map fst (mx_best acc)) \<and> distinct (map fst (mx_tactics acc))
     \<and> fst ` set (mx_best acc) \<subseteq> mx_referenced acc
     \<and> (\<forall>k. map_of (mx_best acc) k = Some Behavioral \<longleftrightarrow> (\<exists>(e, r) \<in> P. tr_technique_id r = k \<and> tr_fidelity r = Behavioral))
     \<and> (\<forall>t rows. map_of (mx_tactics acc) t = Some rows \<longrightarrow> (\<forall>row \<in> set rows. \<exists>(e, r) \<in> P. \<exists>mt.
          lookup_technique (tr_technique_id r) = Some mt \<and> mt_tactic mt = t \<and> row = matrix_row_of e r mt))"

lemma max_behavioral: "(if f > g then f else g) = Behavioral \<longleftrightarrow> f = Behavioral \<or> g = Behavioral"
  by (cases f; cases g) (simp_all add: less_fidelity_def)

lemma matrix_ref_inv:
  assumes "matrix_inv P acc"
  shows "matrix_inv (P \<union> (if is_known_id (tr_technique_id r) then {(e, r)} else {})) (matrix_ref e r acc)
    \<and> mx_count (matrix_ref e r acc) = mx_count acc"
proof (cases "lookup_technique (tr_technique_id r)")
  case None
  with assms show ?thesis by (simp add: matrix_ref_def is_known_id_def)
next
  case (Some t)
  let ?k = "tr_technique_id r"
  define slot where "slot = entry_or Unspecified (mx_best acc) ?k"
  define rows where "rows = entry_or [] (mx_tactics acc) (mt_tactic t)"
  have acc': "matrix_ref e r acc = acc\<lparr>mx_referenced := insert ?k (mx_referenced acc),
      mx_best := AList.update ?k (if tr_fidelity r > slot then tr_fidelity r else slot) (mx_best acc),
      mx_tactics := AList.update (mt_tactic t) (rows @ [matrix_row_of e r t]) (mx_tactics acc)\<rparr>"
    using Some by (simp add: matrix_ref_def slot_def rows_def Let_def)
  have slot: "slot = Behavioral \<longleftrightarrow> (\<exists>(e, r) \<in> P. tr_technique_id r = ?k \<and> tr_fidelity r = Behavioral)"
  proof -
    have "slot = Behavioral \<longleftrightarrow> map_of (mx_best acc) ?k = Some Behavioral"
      by (auto simp: slot_def entry_or_def split: option.splits)
    with assms show ?thesis unfolding matrix_inv_def by blast
  qed
  have best: "map_of (mx_best (matrix_ref e r acc)) k = Some Behavioral \<longleftrightarrow>
      (\<exists>(e, r) \<in> insert (e, r) P. tr_technique_id r = k \<and> tr_fidelity r = Behavioral)" for k
    using assms slot by (auto simp: acc' update_conv' max_behavioral matrix_inv_def)
  have old: "\<forall>row \<in> set rows. \<exists>(e, r) \<in> P. \<exists>mt. lookup_technique (tr_technique_id r) = Some mt
      \<and> mt_tactic mt = mt_tactic t \<and> row = matrix_row_of e r mt"
    using assms by (auto simp: matrix_inv_def rows_def entry_or_def split: option.splits)
  have rows': "\<forall>row \<in> set rs. \<exists>(e, r) \<in> insert (e, r) P. \<exists>mt. lookup_technique (tr_technique_id r) = Some mt
      \<and> mt_tactic mt = k \<and> row = matrix_row_of e r mt"
    if "map_of (mx_tactics (matrix_ref e r acc)) k = Some rs" for k rs
  proof (cases "k = mt_tactic t")
    case True
    with that have "rs = rows @ [matrix_row_of e r t]" by (simp add: acc' update_conv')
    with old True Some show ?thesis by fastforce
  next
    case False
    with that have "map_of (mx_tactics acc) k = Some rs" by (simp add: acc' update_conv')
    with assms show ?thesis by (fastforce simp: matrix_inv_def)
  qed
  have "P \<union> (if is_known_id ?k then {(e, r)} else {}) = insert (e, r) P" using Some by (simp add: is_known_id_def)
  moreover have "matrix_inv (insert (e, r) P) (matrix_ref e r acc)"
    unfolding matrix_inv_def
  proof (intro conjI allI impI)
    show "mx_referenced (matrix_ref e r acc) = (\<lambda>(e, r). tr_technique_id r) ` insert (e, r) P"
      using assms by (simp add: acc' matrix_inv_def)
    show "distinct (map fst (mx_best (matrix_ref e r acc)))" "distinct (map fst (mx_tactics (matrix_ref e r acc)))"
      using assms by (simp_all add: acc' matrix_inv_def distinct_update)
    show "fst ` set (mx_best (matrix_ref e r acc)) \<subseteq> mx_referenced (matrix_ref e r acc)"
      using assms by (auto simp: acc' matrix_inv_def dom_update)
  qed (use best rows' in blast)+
  ultimately show ?thesis by (simp add: acc')
qed

lemma matrix_refs_inv:
  assumes "matrix_inv P acc" and "set rs \<subseteq> set (se_technique_refs e)"
  shows "matrix_inv (P \<union> {(e, r) |r. r \<in> set rs \<and> is_known_id (tr_technique_id r)}) (fold (matrix_ref e) rs acc)"
  using assms
proof (induction rs arbitrary: P acc)
  case (Cons r rs)
  have "P \<union> {(e, x) |x. x \<in> set (r # rs) \<and> is_known_id (tr_technique_id x)}
      = (P \<union> (if is_known_id (tr_technique_id r) then {(e, r)} else {})) \<union> {(e, x) |x. x \<in> set rs \<and> is_known_id (tr_technique_id x)}"
    by auto
  with Cons.IH matrix_ref_inv [OF Cons.prems(1)] Cons.prems(2) show ?case by simp
qed simp

lemma matrix_entry_inv:
  assumes "matrix_inv (known_refs es) acc"
  shows "matrix_inv (known_refs (es @ [e])) (matrix_entry e acc)"
proof -
  have "known_refs (es @ [e]) = known_refs es \<union> {(e, r) |r. r \<in> set (se_technique_refs e) \<and> is_known_id (tr_technique_id r)}"
    by (auto simp: known_refs_def)
  moreover have "matrix_inv (known_refs es) (acc\<lparr>mx_count := n\<rparr>)" for n
  proof -
    have same: "mx_referenced (acc\<lparr>mx_count := n\<rparr>) = mx_referenced acc" "mx_best (acc\<lparr>mx_count := n\<rparr>) = mx_best acc"
        "mx_tactics (acc\<lparr>mx_count := n\<rparr>) = mx_tactics acc"
      by simp_all
    from assms show ?thesis unfolding matrix_inv_def same .
  qed
  ultimately show ?thesis
    using matrix_refs_inv [OF _ order_refl] assms by (cases "se_technique_refs e = []") (simp_all add: matrix_entry_def)
qed

lemma matrix_fold_inv:
  "matrix_inv (known_refs es) (fold matrix_entry es \<lparr>mx_tactics = [], mx_referenced = {}, mx_best = [], mx_count = 0\<rparr>)"
proof (induction es rule: rev_induct)
  case Nil
  show ?case by (simp add: matrix_inv_def known_refs_def)
next
  case (snoc e es)
  with matrix_entry_inv show ?case by simp
qed

lemma count_behavioral:
  assumes "distinct (map fst m)"
  shows "length (filter (\<lambda>(_, f). claims_behavioral f) m) = card {k. map_of m k = Some Behavioral}"
proof -
  have "length (filter (\<lambda>(_, f). claims_behavioral f) m) = card (fst ` set (filter (\<lambda>(_, f). claims_behavioral f) m))"
    using assms by (metis (no_types, lifting) distinct_card distinct_map_filter length_map set_map)
  also have "fst ` set (filter (\<lambda>(_, f). claims_behavioral f) m) = {k. map_of m k = Some Behavioral}"
    using assms by (force simp: map_of_eq_Some_iff)
  finally show ?thesis .
qed


lemma seeded_keys: "distinct (map fst (cg_entries (catalog_seeded E L k)))"
proof -
  have "distinct (map fst (cg_entries (fold (\<lambda>b. cg_insert (f b)) bs c)))"
    if "distinct (map fst (cg_entries c))" for f :: "builtin \<Rightarrow> scenario_entry" and bs c
    using that by (induction bs arbitrary: c) (simp_all add: cg_insert_def distinct_update)
  then show ?thesis by (simp add: catalog_seeded_def)
qed

lemma example_catalog_sound: "catalog_sound toy_ed25519 example_lib (sv_catalog example_server)"
  using seeded_sound [OF toy_correct _ example_lib_ok, of "''key''"] by (simp add: toy_ed25519_def)



section \<open>The abort reaches everything the caller may stop\<close>

text \<open>The campaigns a caller may stop: a stored run, every stage of which it may execute.\<close>

definition may_stop :: "server \<Rightarrow> role \<Rightarrow> string \<Rightarrow> bool" where
  "may_stop s role i \<longleftrightarrow>
     (case store_get (pe_value (sv_campaign_runs s)) i of None \<Rightarrow> False | Some r \<Rightarrow> is_ok (authorize (entry_category s) r role))"

lemma only_cancels_same:
  assumes "only_cancels s s'"
  shows "sv_campaign_runs s' = sv_campaign_runs s" "sv_catalog s' = sv_catalog s" "entry_category s' = entry_category s"
    "may_stop s' = may_stop s" "map fst (sv_controls s') = map fst (sv_controls s)"
proof -
  obtain r c where "s' = s\<lparr>sv_app := (sv_app s)\<lparr>ap_runs := r\<rparr>, sv_controls := c\<rparr>"
    using assms unfolding only_cancels_def by blast
  then show c: "sv_campaign_runs s' = sv_campaign_runs s" "sv_catalog s' = sv_catalog s" by simp_all
  then show e: "entry_category s' = entry_category s" by (simp add: entry_category_def fun_eq_iff)
  show "may_stop s' = may_stop s" unfolding may_stop_def fun_eq_iff c e by blast
  show "map fst (sv_controls s') = map fst (sv_controls s)" using assms unfolding only_cancels_def by blast
qed

lemma abort_one_may_stop:
  "abort_one role i (ids, s) =
     (if may_stop s role i then (case request_cancel i s of (b, s') \<Rightarrow> if b then (ids @ [i], s') else (ids, s')) else (ids, s))"
  by (simp add: abort_one_def may_stop_def split: option.splits)

text \<open>A stopped campaign: its control is cancelled, and so is the stage it is running.\<close>

definition stopped :: "server \<Rightarrow> string \<Rightarrow> bool" where
  "stopped s i \<longleftrightarrow> (\<exists>c. map_of (sv_controls s) i = Some c \<and> cc_cancelled c
     \<and> (\<forall>k a. cc_current c = Some k \<longrightarrow> map_of (sv_runs s) k = Some a \<longrightarrow> av_cancel a))"

lemma stopped_only_cancels:
  assumes "only_cancels s s'" and "stopped s i"
  shows "stopped s' i"
proof -
  obtain c where c: "map_of (sv_controls s) i = Some c" "cc_cancelled c"
      "\<And>k a. cc_current c = Some k \<Longrightarrow> map_of (sv_runs s) k = Some a \<Longrightarrow> av_cancel a"
    using assms(2) unfolding stopped_def by blast
  obtain c' where c': "map_of (sv_controls s') i = Some c'" "cc_current c' = cc_current c" "cc_cancelled c'"
    using assms(1) c(1,2) unfolding only_cancels_def by blast
  have "av_cancel a" if "cc_current c' = Some k" "map_of (sv_runs s') k = Some a" for k a
  proof -
    have "map_of (sv_runs s') k = map_of (sv_runs s) k \<or> map_of (sv_runs s') k = map_option active_run_cancel (map_of (sv_runs s) k)"
      using assms(1) unfolding only_cancels_def by blast
    with that c(3) c'(2) show ?thesis by (cases "map_of (sv_runs s) k") (auto simp: active_run_cancel_def)
  qed
  with c' show ?thesis unfolding stopped_def by blast
qed

lemma abort_fold:
  assumes "fold (abort_one role) ids (done_ids, s) = (out, s')" and "set ids \<subseteq> set (map fst (sv_controls s))"
  shows "only_cancels s s' \<and> out = done_ids @ filter (may_stop s role) ids
    \<and> (\<forall>i \<in> set ids. may_stop s role i \<longrightarrow> stopped s' i)"
  using assms
proof (induction ids arbitrary: done_ids s)
  case (Cons i ids)
  obtain b t where r: "request_cancel i s = (b, t)" by fastforce
  note rc = request_cancel_only [OF r]
  show ?case
  proof (cases "may_stop s role i")
    case False
    with Cons show ?thesis by (simp add: abort_one_may_stop)
  next
    case True
    have b: b using rc Cons.prems(2) by auto
    with Cons.prems(1) r True have f: "fold (abort_one role) ids (done_ids @ [i], t) = (out, s')"
      by (simp add: abort_one_may_stop)
    note same = only_cancels_same [OF conjunct1 [OF rc]]
    have "set ids \<subseteq> set (map fst (sv_controls t))" using Cons.prems(2) same(5) by simp
    from Cons.IH [OF f this] same(4)
    have ih: "only_cancels t s'" "out = done_ids @ i # filter (may_stop s role) ids"
        "\<forall>k \<in> set ids. may_stop s role k \<longrightarrow> stopped s' k" by simp_all
    obtain c where c: "map_of (sv_controls s) i = Some c"
      using Cons.prems(2) by (metis list.set_intros(1) map_of_eq_None_iff not_None_eq set_map subsetD)
    have "av_cancel a" if "cc_current c = Some k" "map_of (sv_runs t) k = Some a" for k a
    proof -
      have "map_of (sv_runs t) k = map_of (sv_runs s) k \<or> map_of (sv_runs t) k = map_option active_run_cancel (map_of (sv_runs s) k)"
        using rc unfolding only_cancels_def by blast
      with that rc c show ?thesis by (cases "map_of (sv_runs s) k") (auto simp: active_run_cancel_def)
    qed
    with rc c have "stopped t i" unfolding stopped_def by metis
    with ih stopped_only_cancels only_cancels_trans [OF conjunct1 [OF rc]] True show ?thesis by auto
  qed
qed simp

lemma abort_runs_only:
  "only_cancels s (set_runs (map (\<lambda>(i, a). (i, if p a then active_run_cancel a else a))) s)"
proof -
  have "map_of (map (\<lambda>(i, a). (i, if p a then active_run_cancel a else a)) xs) i
      = map_option (\<lambda>a. if p a then active_run_cancel a else a) (map_of xs i)" for xs :: "(string \<times> active_run) list" and i
    using map_of_map [of "\<lambda>a. if p a then active_run_cancel a else a" xs] by simp
  moreover have "map_option (\<lambda>a. if p a then active_run_cancel a else a) x = x
      \<or> map_option (\<lambda>a. if p a then active_run_cancel a else a) x = map_option active_run_cancel x" for x
    by (cases x) auto
  ultimately show ?thesis by (simp add: only_cancels_def set_runs_def comp_def split_def)
qed


definition example_live :: server where
  "example_live = set_runs (\<lambda>_. [(''run_9'', active_run_new CatChaos)]) example_server"


end
