(* ===== verification/Runner_Http.thy ===== *)
theory Runner_Http
  imports Example_Server
begin

text \<open>
  \<open>crates/asmodeus-control-plane/src/runner_http.rs\<close>: registering, draining, removing and probing runners.
  \<open>wo_probes\<close> are the probe steps of the watchdog and of other requests that landed while this one waited for the
  disk or for the runner; \<open>wo_registry_write\<close> says whether the snapshot could be written.
\<close>

record register_runner_request =
  rq_id :: string
  rq_name :: "string option"
  rq_endpoint :: string
  rq_tags :: "string list"

definition may_operate :: "role \<Rightarrow> bool" where
  "may_operate role \<longleftrightarrow> can role RunRedTeam \<or> can role InjectChaos"

text \<open>\<open>registry_error\<close>: only a rejected identity is an \<open>InvalidInput\<close>.\<close>

definition registry_error :: "bool \<Rightarrow> string \<Rightarrow> api_error" where
  "registry_error invalid_input e =
     (if invalid_input then ApiUnprocessable e else ApiInternal (''runner registry persistence failed: '' @ e))"

definition set_runner_maintenance ::
  "world \<Rightarrow> header_map \<Rightarrow> string \<Rightarrow> bool \<Rightarrow> server \<Rightarrow> (api_error + runner_record) \<times> server" where
  "set_runner_maintenance W hdrs i draining s =
     guarded
       (and_then (who W hdrs) (\<lambda>role. require (may_operate role) ''role may not change runner maintenance''))
       (\<lambda>_. case registry_set_draining i draining (wo_registry_write W) (fold probe_step (wo_probes W)) (sv_registry s) of
           (Inl e, r) \<Rightarrow> (Inl (registry_error False e), set_registry r s)
         | (Inr found, r) \<Rightarrow> (or_not_found (''runner not found: '' @ i) found, set_registry r s)) s"

definition list_runners :: "world \<Rightarrow> header_map \<Rightarrow> server \<Rightarrow> api_error + runner_record list" where
  "list_runners W hdrs s =
     and_then (who W hdrs) (\<lambda>role.
     and_then (require (can role ViewReports) ''role may not view runners'') (\<lambda>_.
     Inr (registry_list (rs_data (sv_registry s)))))"

text \<open>The checks of a registration, and the record it asks for.\<close>

definition registration ::
  "world \<Rightarrow> header_map \<Rightarrow> register_runner_request \<Rightarrow> api_error + runner_record" where
  "registration W hdrs payload =
     and_then (who W hdrs) (\<lambda>role.
     and_then (require (may_operate role) ''role may not register runners'') (\<lambda>_.
     let i = trim (rq_id payload) in
     and_then (unless_unprocessable (i \<noteq> []) ''runner id cannot be empty'') (\<lambda>_.
     let endpoint = trim (rq_endpoint payload) in
     and_then (unless_unprocessable (\<not> (\<not> starts_with ''http://'' endpoint \<and> \<not> starts_with ''https://'' endpoint))
                 ''runner endpoint must start with http:// or https://'') (\<lambda>_.
     Inr (runner_new i (case rq_name payload of Some n \<Rightarrow> n | None \<Rightarrow> i) endpoint (rq_tags payload)
            (wo_pkg_version W) (wo_epoch_secs W))))))"

definition register_runner ::
  "world \<Rightarrow> header_map \<Rightarrow> register_runner_request \<Rightarrow> server \<Rightarrow> (api_error + runner_record) \<times> server" where
  "register_runner W hdrs payload s =
     guarded (registration W hdrs payload)
       (\<lambda>rec. case registry_register (wo_url W) rec (wo_registry_write W) (fold probe_step (wo_probes W)) (sv_registry s) of
           (Inl e, r) \<Rightarrow>
             (Inl (registry_error (\<not> is_ok (validate_identity (wo_url W) (rr_id rec) (rr_endpoint rec))) e), set_registry r s)
         | (Inr stored, r) \<Rightarrow> (Inr stored, set_registry r s)) s"

definition deregister_runner :: "world \<Rightarrow> header_map \<Rightarrow> string \<Rightarrow> server \<Rightarrow> (api_error + unit) \<times> server" where
  "deregister_runner W hdrs i s =
     guarded
       (and_then (who W hdrs) (\<lambda>role. require (may_operate role) ''role may not deregister runners''))
       (\<lambda>_. case registry_deregister i (wo_registry_write W) (fold probe_step (wo_probes W)) (sv_registry s) of
           (Inl e, r) \<Rightarrow> (Inl (registry_error False e), set_registry r s)
         | (Inr found, r) \<Rightarrow> (if found then Inr () else Inl (ApiNotFound (''runner not found: '' @ i)), set_registry r s)) s"

definition ping_runner ::
  "world \<Rightarrow> header_map \<Rightarrow> string \<Rightarrow> server \<Rightarrow> (api_error + bool \<times> ping_reply) \<times> server" where
  "ping_runner W hdrs i s =
     guarded
       (and_then (who W hdrs) (\<lambda>role. require (can role ViewReports) ''role may not ping runners''))
       (\<lambda>_. case begin_probe i (rs_data (sv_registry s)) of
           (None, d) \<Rightarrow> (Inl (ApiNotFound (''runner not found: '' @ i)), s)
         | (Some probe, d) \<Rightarrow>
             let live = fold probe_step (wo_probes W) d in
             case wo_ping W (rr_endpoint (pb_record probe)) of
               Inr reply \<Rightarrow>
                 (case update_heartbeat probe (pg_healthy reply) (pg_cpu_usage_pct reply) (pg_version reply)
                         (wo_epoch_secs W) live of
                    (applied, d') \<Rightarrow> (Inr (applied, reply), set_registry ((sv_registry s)\<lparr>rs_data := d'\<rparr>) s))
             | Inl status \<Rightarrow>
                 (Inl (ApiBadGateway (''runner ping failed: '' @ status)),
                  set_registry ((sv_registry s)\<lparr>rs_data := snd (mark_unresponsive probe live)\<rparr>) s)) s"

end
