(* ===== verification/Campaign_Http.thy ===== *)
theory Campaign_Http
  imports Scenario_Http Resilience
begin

text \<open>
  \<open>crates/asmodeus-control-plane/src/campaign_http.rs\<close> and the report of \<open>campaign_execution.rs\<close>: campaigns, their
  runs, cancellation and resumption. The worker a launch spawns is \<open>Campaign_Exec.execute\<close>; a request that waits for
  it is two functions, \<open>run_campaign\<close> up to the admission and \<open>campaign_answer\<close> in the state the worker left.
\<close>

section \<open>The catalog of campaigns\<close>

definition may_edit_campaigns :: "role \<Rightarrow> bool" where
  "may_edit_campaigns role \<longleftrightarrow> can role ManageScenarios \<or> can role RunRedTeam \<or> role = Admin"

text \<open>The loop over the sorted steps; \<open>prev\<close> is the order of the step before.\<close>

fun check_steps :: "(string \<Rightarrow> category option) \<Rightarrow> role \<Rightarrow> nat option \<Rightarrow> campaign_step list \<Rightarrow> api_error + unit" where
  "check_steps cat role prev [] = Inr ()"
| "check_steps cat role prev (step # steps) =
     and_then (unless_unprocessable (\<not> (cs_order step = 0 \<or> prev = Some (cs_order step)))
                 ''campaign step order must be positive and unique'') (\<lambda>_.
     and_then (or_not_found (''scenario not found: '' @ cs_scenario_id step) (cat (cs_scenario_id step))) (\<lambda>c.
     and_then (require (can role (required_capability c)) ''role may not register this scenario category'') (\<lambda>_.
     check_steps cat role (Some (cs_order step)) steps)))"

definition register_allowed :: "world \<Rightarrow> header_map \<Rightarrow> campaign \<Rightarrow> server \<Rightarrow> api_error + campaign" where
  "register_allowed W hdrs campaign s =
     and_then (who W hdrs) (\<lambda>role.
     and_then (require (may_edit_campaigns role) ''role may not register attack campaigns'') (\<lambda>_.
     and_then (unless_unprocessable (trim (ca_id campaign) \<noteq> []) ''campaign id cannot be empty'') (\<lambda>_.
     and_then (unless_unprocessable (ca_steps campaign \<noteq> []) ''campaign steps cannot be empty'') (\<lambda>_.
     let ordered = campaign\<lparr>ca_steps := sort_key cs_order (ca_steps campaign)\<rparr> in
     and_then (check_steps (entry_category s) role None (ca_steps ordered)) (\<lambda>_. Inr ordered)))))"

definition register_change :: "campaign \<Rightarrow> campaign_catalog \<Rightarrow> (string + unit) \<times> campaign_catalog" where
  "register_change c cs = (Inr (), catalog_register c cs)"

definition register_campaign :: "world \<Rightarrow> header_map \<Rightarrow> campaign \<Rightarrow> server \<Rightarrow> (api_error + campaign) \<times> server" where
  "register_campaign W hdrs campaign s =
     guarded (register_allowed W hdrs campaign s)
       (\<lambda>ordered. case pe_update (wo_campaigns_json W) (register_change ordered) (wo_write W) (sv_campaigns s) of
            (Inl e, c) \<Rightarrow> (Inl (ApiInternal (''campaign persistence: '' @ e)), s\<lparr>sv_campaigns := c\<rparr>)
          | (Inr _, c) \<Rightarrow> (Inr ordered, s\<lparr>sv_campaigns := c\<rparr>)) s"

definition deregister_change :: "string \<Rightarrow> campaign_catalog \<Rightarrow> (string + bool) \<times> campaign_catalog" where
  "deregister_change i cs = (case catalog_deregister i cs of (cs', found) \<Rightarrow> (Inr found, cs'))"

definition delete_campaign :: "world \<Rightarrow> header_map \<Rightarrow> string \<Rightarrow> server \<Rightarrow> (api_error + unit) \<times> server" where
  "delete_campaign W hdrs i s =
     guarded
       (and_then (who W hdrs) (\<lambda>role. require (may_edit_campaigns role) ''role may not delete attack campaigns''))
       (\<lambda>_. case pe_update (wo_campaigns_json W) (deregister_change i) (wo_write W) (sv_campaigns s) of
            (Inl e, c) \<Rightarrow> (Inl (ApiInternal (''campaign persistence: '' @ e)), s\<lparr>sv_campaigns := c\<rparr>)
          | (Inr found, c) \<Rightarrow>
              (if found then Inr () else Inl (ApiNotFound (''campaign not found: '' @ i)), s\<lparr>sv_campaigns := c\<rparr>)) s"

definition list_campaigns :: "world \<Rightarrow> header_map \<Rightarrow> server \<Rightarrow> api_error + campaign list" where
  "list_campaigns W hdrs s =
     and_then (who W hdrs) (\<lambda>role.
     and_then (require (can role ViewReports) ''role may not view campaigns'') (\<lambda>_. Inr (pe_value (sv_campaigns s))))"

section \<open>The report of a campaign run\<close>

record campaign_run_result =
  cz_campaign_id :: string
  cz_campaign_name :: string
  cz_initiator :: string
  cz_target_override :: "string option"
  cz_total_steps :: nat
  cz_successful_steps :: nat
  cz_step_results :: "campaign_step_result list"
  cz_mean_mttd_ms :: nat
  cz_mean_mttr_ms :: nat
  cz_detection_rate_pct :: rat
  cz_recovery_speed_pct :: rat
  cz_resilience_score :: nat
  cz_confirmed_feedback_runs :: nat
  cz_simulated_runs :: nat
  cz_pending_feedback_runs :: nat
  cz_timestamp_utc :: string

text \<open>One stage: the aggregate and the measurements come from the same signed revision of its record.\<close>

definition report_step ::
  "(string \<Rightarrow> audit_record option) \<Rightarrow> campaign_step_result \<Rightarrow> aggregate \<times> campaign_step_result list
     \<Rightarrow> aggregate \<times> campaign_step_result list" where
  "report_step audit step acc =
     (case acc of (a, steps) \<Rightarrow>
        case audit (sr_run_id step) of
          None \<Rightarrow> (a, steps @ [step])
        | Some record \<Rightarrow>
            (record_run a record,
             steps @ [step\<lparr>sr_mttd_ms := ms_mttd_ms (ar_measurements record), sr_mttr_ms := ms_mttr_ms (ar_measurements record),
                           sr_detected := ms_blue_team_detected (ar_measurements record), sr_evidence := ar_evidence record\<rparr>]))"

definition campaign_report :: "(string \<Rightarrow> audit_record option) \<Rightarrow> campaign_run \<Rightarrow> campaign_run_result" where
  "campaign_report audit run =
     (case fold (report_step audit) (cr_step_results run) (ag_default, []) of (a, steps) \<Rightarrow>
      \<lparr>cz_campaign_id = cr_campaign_id run, cz_campaign_name = cr_campaign_name run, cz_initiator = cr_initiator run,
       cz_target_override = cr_target_override run, cz_total_steps = length (cr_steps run),
       cz_successful_steps = length (filter (\<lambda>r. sr_status r = COMPLETED) steps), cz_step_results = steps,
       cz_mean_mttd_ms = mean_mttd_ms a, cz_mean_mttr_ms = mean_mttr_ms a,
       cz_detection_rate_pct = detection_rate_pct a, cz_recovery_speed_pct = recovery_speed_pct a,
       cz_resilience_score = resilience_score (detection_rate_pct a) (recovery_speed_pct a),
       cz_confirmed_feedback_runs = ag_feedback_received a, cz_simulated_runs = ag_simulated_runs a,
       cz_pending_feedback_runs = ag_pending_feedback a, cz_timestamp_utc = cr_updated_utc run\<rparr>)"

section \<open>Launching\<close>

definition next_campaign_run_id :: "app \<Rightarrow> string \<times> app" where
  "next_campaign_run_id app =
     (''crun_'' @ ap_namespace app @ ''_'' @ show_hex16 (ap_counter app),
      app\<lparr>ap_counter := (ap_counter app + 1) mod 2 ^ 64\<rparr>)"

definition new_campaign_run :: "string \<Rightarrow> campaign \<Rightarrow> role \<Rightarrow> run_payload \<Rightarrow> string \<Rightarrow> campaign_run" where
  "new_campaign_run i campaign role payload now =
     \<lparr>cr_id = i, cr_campaign_id = ca_id campaign, cr_campaign_name = ca_name campaign, cr_initiator = role_as_str role,
      cr_target_override = rp_target_override payload, cr_timeout_sec = rp_timeout_sec payload, cr_steps = ca_steps campaign,
      cr_status = QUEUED, cr_step_results = [], cr_superseded_results = [], cr_resume_count = 0,
      cr_created_utc = now, cr_updated_utc = now\<rparr>"

text \<open>\<open>launch\<close> with its control handle: an admitted run gets a fresh one.\<close>

definition launch_http :: "world \<Rightarrow> campaign_run \<Rightarrow> bool \<Rightarrow> server \<Rightarrow> (api_error + campaign_run) \<times> server" where
  "launch_http W run resume s =
     (case launch (wo_campaign_runs_json W) resume (wo_now W) (trail_get (sv_trail s)) (wo_write W) run
             (map fst (sv_controls s)) (sv_campaign_runs s) of
        (Inl e, _, cell) \<Rightarrow> (Inl (api_of_campaign e), s\<lparr>sv_campaign_runs := cell\<rparr>)
      | (Inr admitted, _, cell) \<Rightarrow>
          (Inr admitted, s\<lparr>sv_campaign_runs := cell, sv_controls := (cr_id run, control_default) # sv_controls s\<rparr>))"

text \<open>Answers with the admitted run and whether the caller waits for the worker.\<close>

definition run_campaign :: "world \<Rightarrow> header_map \<Rightarrow> string \<Rightarrow> bytes \<Rightarrow> server \<Rightarrow> (api_error + campaign_run \<times> bool) \<times> server" where
  "run_campaign W hdrs i body s =
     guarded
       (and_then (who W hdrs) (\<lambda>role.
        and_then (body_payload W body) (\<lambda>payload.
        and_then (or_not_found (''campaign not found: '' @ i) (catalog_get (pe_value (sv_campaigns s)) i)) (\<lambda>campaign.
        Inr (role, payload, campaign)))))
       (\<lambda>(role, payload, campaign).
          case next_campaign_run_id (sv_app s) of (rid, app) \<Rightarrow>
          let s1 = s\<lparr>sv_app := app\<rparr>; run = new_campaign_run rid campaign role payload (wo_now W) in
          case authorize (entry_category s) run role of
            Inl e \<Rightarrow> (Inl (api_of_campaign e), s1)
          | Inr _ \<Rightarrow>
              (case launch_http W run False s1 of
                 (Inl e, s2) \<Rightarrow> (Inl e, s2)
               | (Inr admitted, s2) \<Rightarrow> (Inr (admitted, \<not> rp_background payload), s2))) s"

text \<open>The worker has ended: its control is gone, and the caller that waited gets the report.\<close>

definition campaign_answer :: "string \<Rightarrow> string + campaign_run \<Rightarrow> server \<Rightarrow> (api_error + string \<times> string \<times> campaign_run_result) \<times> server" where
  "campaign_answer rid result s =
     (let s' = s\<lparr>sv_controls := AList.delete rid (sv_controls s)\<rparr> in
      case result of
        Inl e \<Rightarrow> (Inl (api_of_campaign (CampPersistence (''campaign run persistence: '' @ e))), s')
      | Inr finished \<Rightarrow> (Inr (cr_id finished, cr_status finished, campaign_report (trail_get (sv_trail s')) finished), s'))"

section \<open>Campaign runs\<close>

record list_campaign_runs_query =
  lc_limit :: "nat option"
  lc_campaign_id :: "string option"
  lc_status :: "string option"

definition list_campaign_runs :: "world \<Rightarrow> header_map \<Rightarrow> list_campaign_runs_query \<Rightarrow> server \<Rightarrow> api_error + nat \<times> campaign_run list" where
  "list_campaign_runs W hdrs q s =
     and_then (who W hdrs) (\<lambda>role.
     and_then (require (can role ViewReports) ''role may not view campaign runs'') (\<lambda>_.
     let store = pe_value (sv_campaign_runs s) in
     Inr (length (st_runs store), store_list store (lc_limit q) (lc_campaign_id q) (lc_status q))))"

definition get_campaign_run :: "server \<Rightarrow> string \<Rightarrow> api_error + campaign_run" where
  "get_campaign_run s i = or_not_found (''campaign run not found: '' @ i) (store_get (pe_value (sv_campaign_runs s)) i)"

text \<open>The run with the stage results of its report, whether a worker owns it, and the report.\<close>

definition campaign_run_details ::
  "world \<Rightarrow> header_map \<Rightarrow> string \<Rightarrow> server \<Rightarrow> api_error + campaign_run \<times> bool \<times> campaign_run_result" where
  "campaign_run_details W hdrs i s =
     and_then (who W hdrs) (\<lambda>role.
     and_then (require (can role ViewReports) ''role may not view campaign runs'') (\<lambda>_.
     and_then (get_campaign_run s i) (\<lambda>run.
     let report = campaign_report (trail_get (sv_trail s)) run in
     Inr (run\<lparr>cr_step_results := cz_step_results report\<rparr>, map_of (sv_controls s) i \<noteq> None, report))))"

text \<open>The run of a request that stops or resumes it, authorised on every one of its stages.\<close>

definition owned_run :: "world \<Rightarrow> header_map \<Rightarrow> string \<Rightarrow> server \<Rightarrow> api_error + campaign_run" where
  "owned_run W hdrs i s =
     and_then (who W hdrs) (\<lambda>role.
     and_then (get_campaign_run s i) (\<lambda>run.
     and_then (map_error api_of_campaign (authorize (entry_category s) run role)) (\<lambda>_. Inr run)))"

datatype campaign_cancel = CampaignCancelRequested | CampaignUnchanged campaign_run

definition cancel_campaign_run :: "world \<Rightarrow> header_map \<Rightarrow> string \<Rightarrow> server \<Rightarrow> (api_error + campaign_cancel) \<times> server" where
  "cancel_campaign_run W hdrs i s =
     guarded (owned_run W hdrs i s)
       (\<lambda>run. case request_cancel i s of
           (b, s') \<Rightarrow> (Inr (if b then CampaignCancelRequested else CampaignUnchanged run), s')) s"

definition resume_campaign_run :: "world \<Rightarrow> header_map \<Rightarrow> string \<Rightarrow> server \<Rightarrow> (api_error + campaign_run) \<times> server" where
  "resume_campaign_run W hdrs i s = guarded (owned_run W hdrs i s) (\<lambda>run. launch_http W run True s) s"

end
