(* ===== verification/Schedule_Http.thy ===== *)
theory Schedule_Http
  imports Example_Server Scheduler_Safety
begin

text \<open>
  \<open>crates/asmodeus-control-plane/src/schedules_http.rs\<close>: continuous schedules. That a schedule
  cannot be used to run what its owner may not run is part of the invariant of \<open>Server_Safety\<close> (\<open>jobs_ok\<close>).
\<close>

definition may_view_schedules :: "role \<Rightarrow> bool" where
  "may_view_schedules role \<longleftrightarrow> can role ViewReports \<or> can role RunRedTeam \<or> can role InjectChaos \<or> role = Admin"

definition may_schedule :: "role \<Rightarrow> bool" where
  "may_schedule role \<longleftrightarrow> can role ManageScenarios \<or> can role RunRedTeam \<or> can role InjectChaos \<or> role = Admin"

definition list_schedules :: "world \<Rightarrow> header_map \<Rightarrow> server \<Rightarrow> api_error + scheduled_job list" where
  "list_schedules W hdrs s =
     and_then (who W hdrs) (\<lambda>role.
     and_then (require (may_view_schedules role) ''role may not view schedules'') (\<lambda>_.
     Inr (schedule_list (pe_value (sv_schedules s)))))"

definition get_schedule :: "world \<Rightarrow> header_map \<Rightarrow> string \<Rightarrow> server \<Rightarrow> api_error + scheduled_job" where
  "get_schedule W hdrs i s =
     and_then (who W hdrs) (\<lambda>role.
     and_then (require (may_view_schedules role) ''role may not view schedules'') (\<lambda>_.
     or_not_found (''schedule not found: '' @ i) (schedule_get (pe_value (sv_schedules s)) i)))"

definition list_drift_alerts :: "world \<Rightarrow> header_map \<Rightarrow> server \<Rightarrow> api_error + drift_alert list \<times> nat" where
  "list_drift_alerts W hdrs s =
     and_then (who W hdrs) (\<lambda>role.
     and_then (require (may_view_schedules role) ''role may not view drift alerts'') (\<lambda>_.
     let alerts = drift_alerts (pe_value (sv_schedules s)) in Inr (alerts, length alerts)))"

definition create_allowed :: "world \<Rightarrow> header_map \<Rightarrow> create_schedule_request \<Rightarrow> server \<Rightarrow> api_error + role" where
  "create_allowed W hdrs req s =
     and_then (who W hdrs) (\<lambda>role.
     and_then (require (may_schedule role) ''role may not schedule exercises'') (\<lambda>_.
     and_then (unless_unprocessable (trim (cq_name req) \<noteq> []) ''schedule name cannot be empty'') (\<lambda>_.
     and_then (unless_unprocessable (\<not> cq_interval_sec req < 5) ''interval must be at least 5 seconds'') (\<lambda>_.
     and_then (unless_unprocessable (cq_baseline_mttd_ms req \<noteq> Some 0) ''baseline_mttd_ms must be greater than zero'') (\<lambda>_.
     and_then (or_not_found (''scenario not found: '' @ cq_scenario_id req) (entry_category s (cq_scenario_id req))) (\<lambda>c.
     and_then (require (can role (required_capability c)) ''role may not schedule this scenario category'') (\<lambda>_.
     and_then (unless_unprocessable
        (trim (case cq_id req of Some i \<Rightarrow> i | None \<Rightarrow> default_schedule_id (cq_name req)) \<noteq> []) ''schedule id cannot be empty'') (\<lambda>_.
     Inr role))))))))"

definition create_schedule ::
  "world \<Rightarrow> header_map \<Rightarrow> create_schedule_request \<Rightarrow> server \<Rightarrow> (api_error + scheduled_job) \<times> server" where
  "create_schedule W hdrs req s =
     guarded (create_allowed W hdrs req s)
       (\<lambda>role. case next_run_id (sv_app s) of (generation, app) \<Rightarrow>
          let job = new_job generation (wo_now W) role req in
          case pe_update (wo_schedules_json W) (create_change job) (wo_write W) (sv_schedules s) of
            (Inl e, c) \<Rightarrow> (Inl (ApiInternal (''schedule persistence: '' @ e)), s\<lparr>sv_app := app, sv_schedules := c\<rparr>)
          | (Inr created, c) \<Rightarrow>
              (if created then Inr job
               else Inl (ApiUnprocessable ''schedule id already exists; delete it before replacement''),
               s\<lparr>sv_app := app, sv_schedules := c\<rparr>)) s"

definition delete_change :: "string \<Rightarrow> schedule_catalog \<Rightarrow> (string + bool) \<times> schedule_catalog" where
  "delete_change i c = (case schedule_deregister i c of (c', found) \<Rightarrow> (Inr found, c'))"

definition delete_schedule :: "world \<Rightarrow> header_map \<Rightarrow> string \<Rightarrow> server \<Rightarrow> (api_error + unit) \<times> server" where
  "delete_schedule W hdrs i s =
     guarded
       (and_then (who W hdrs) (\<lambda>role. require (may_schedule role) ''role may not delete schedules''))
       (\<lambda>_. case pe_update (wo_schedules_json W) (delete_change i) (wo_write W) (sv_schedules s) of
            (Inl e, c) \<Rightarrow> (Inl (ApiInternal (''schedule persistence: '' @ e)), s\<lparr>sv_schedules := c\<rparr>)
          | (Inr found, c) \<Rightarrow>
              (if found then Inr () else Inl (ApiNotFound (''schedule not found: '' @ i)), s\<lparr>sv_schedules := c\<rparr>)) s"

text \<open>The transaction of \<open>toggle_schedule\<close>; its own refusal is the error of kind \<open>PermissionDenied\<close>.\<close>

definition toggle_denied :: "(string \<Rightarrow> category option) \<Rightarrow> role \<Rightarrow> string \<Rightarrow> schedule_catalog \<Rightarrow> bool" where
  "toggle_denied cat role i c =
     (case schedule_get c i of
        None \<Rightarrow> False
      | Some job \<Rightarrow>
          \<not> (case cat (sj_scenario_id job) of None \<Rightarrow> False | Some k \<Rightarrow> can role (required_capability k)))"

definition toggle_change ::
  "(string \<Rightarrow> category option) \<Rightarrow> role \<Rightarrow> string \<Rightarrow> bool \<Rightarrow> schedule_catalog \<Rightarrow> (string + bool option) \<times> schedule_catalog" where
  "toggle_change cat role i enabled c =
     (if toggle_denied cat role i c then (Inl ''role may not enable this scenario category'', c)
      else (case set_enabled i enabled c of (r, c') \<Rightarrow> (Inr r, c')))"

definition toggle_schedule :: "world \<Rightarrow> header_map \<Rightarrow> string \<Rightarrow> bool \<Rightarrow> server \<Rightarrow> (api_error + bool) \<times> server" where
  "toggle_schedule W hdrs i enabled s =
     guarded
       (and_then (who W hdrs) (\<lambda>role.
        and_then (require (may_schedule role) ''role may not modify schedules'') (\<lambda>_. Inr role)))
       (\<lambda>role.
          case pe_update (wo_schedules_json W) (toggle_change (entry_category s) role i enabled) (wo_write W) (sv_schedules s) of
            (Inl e, c) \<Rightarrow>
              (Inl (if toggle_denied (entry_category s) role i (pe_value (sv_schedules s))
                    then ApiForbidden ''role may not modify this scenario category''
                    else ApiInternal (''schedule persistence: '' @ e)), s\<lparr>sv_schedules := c\<rparr>)
          | (Inr r, c) \<Rightarrow> (or_not_found (''schedule not found: '' @ i) r, s\<lparr>sv_schedules := c\<rparr>)) s"

end
