(* ===== verification/Report_Http.thy ===== *)
theory Report_Http
  imports Example_Server Scenario_Http Compliance Resilience Clickhouse
begin

text \<open>
  \<open>crates/asmodeus-control-plane/src/reporting.rs\<close> and \<open>system_http.rs\<close>: the reports and the exports a caller can
  read, built from the trail and the catalog. The Markdown and JSON texts of the reports are not modelled: an answer
  is the report itself.
\<close>

section \<open>Resilience and single runs\<close>

definition get_resilience_report :: "world \<Rightarrow> header_map \<Rightarrow> server \<Rightarrow> api_error + resilience_report" where
  "get_resilience_report W hdrs s =
     and_then (who W hdrs) (\<lambda>role.
     and_then (require (can role ViewReports) ''role may not view resilience reports'') (\<lambda>_.
     let records = trail_list (sv_trail s) None None None in Inr (build_report records (from_records records))))"

definition get_run_report :: "world \<Rightarrow> header_map \<Rightarrow> string \<Rightarrow> server \<Rightarrow> api_error + audit_record \<times> bool" where
  "get_run_report W hdrs i s =
     and_then (who W hdrs) (\<lambda>role.
     and_then (require (can role ViewReports) ''role may not view run reports'') (\<lambda>_.
     and_then (or_not_found (''run not found: '' @ i) (trail_get (sv_trail s) i)) (\<lambda>record.
     Inr (record, run_signature_verified (wo_ed W) (wo_audit W) record (Some (sv_audit_public_key s))))))"

section \<open>Compliance\<close>

definition meta_of :: "scenario_entry \<Rightarrow> scenario_meta" where
  "meta_of e =
     \<lparr>sm_id = se_id e, sm_name = se_name e, sm_category = category_as_str (se_category e),
      sm_mitre_technique = (case se_mitre e of Some t \<Rightarrow> mt_id t | None \<Rightarrow> []),
      sm_fidelity = fidelity_as_str (se_fidelity e),
      sm_technique_refs = map (\<lambda>r. \<lparr>st_technique_id = tr_technique_id r, st_fidelity = fidelity_as_str (tr_fidelity r)\<rparr>)
        (se_technique_refs e)\<rparr>"

text \<open>The catalog as the report sees it: the entry of every identifier.\<close>

definition scenario_metas :: "server \<Rightarrow> scenario_meta list" where
  "scenario_metas s = map meta_of (List.map_filter (\<lambda>i. cg_get (sv_catalog s) i) (map fst (cg_entries (sv_catalog s))))"

definition get_compliance_report :: "world \<Rightarrow> header_map \<Rightarrow> server \<Rightarrow> (api_error + compliance_report) option" where
  "get_compliance_report W hdrs s =
     (case and_then (who W hdrs) (\<lambda>role. require (can role ViewReports) ''role may not view compliance reports'') of
        Inl e \<Rightarrow> Some (Inl e)
      | Inr _ \<Rightarrow> map_option Inr (generate (wo_epoch_secs W) (scenario_metas s) (trail_list (sv_trail s) None None None)))"

section \<open>Exports and metrics\<close>

datatype export_body = JsonExport "audit_record list" | SqlExport string | NdjsonExport string | JsonlExport string

definition export_audit_trail ::
  "world \<Rightarrow> (clickhouse_json_row \<Rightarrow> string + string) \<Rightarrow> header_map \<Rightarrow> string option \<Rightarrow> server \<Rightarrow> api_error + export_body" where
  "export_audit_trail W row_json hdrs format s =
     and_then (who W hdrs) (\<lambda>role.
     and_then (require (can role ViewReports) ''role may not view audit trail'') (\<lambda>_.
     let fmt = to_ascii_lowercase (case format of Some f \<Rightarrow> f | None \<Rightarrow> ''jsonl''); t = sv_trail s in
     if fmt = ''json'' then Inr (JsonExport t)
     else if fmt \<in> set [''clickhouse'', ''clickhouse_sql'', ''sql''] then Inr (SqlExport (records_to_clickhouse_sql (wo_audit W) t))
     else if fmt = ''clickhouse_ndjson'' then
       map_error ApiInternal (and_then (records_to_clickhouse_ndjson (wo_audit W) row_json t) (\<lambda>b. Inr (NdjsonExport b)))
     else Inr (JsonlExport (export_jsonl (wo_audit W) t))))"

record mttd_view =
  mv_runs_completed :: nat
  mv_confirmed_feedback_runs :: nat
  mv_simulated_runs :: nat
  mv_pending_feedback_runs :: nat
  mv_detected_runs :: nat
  mv_contained_runs :: nat
  mv_catalog_size :: nat
  mv_mean_mttd_ms :: nat
  mv_mean_mttr_ms :: nat
  mv_detection_rate_pct :: rat

definition telemetry_mttd :: "world \<Rightarrow> header_map \<Rightarrow> server \<Rightarrow> api_error + mttd_view" where
  "telemetry_mttd W hdrs s =
     and_then (who W hdrs) (\<lambda>role.
     and_then (require (can role ViewReports) ''role may not view reports'') (\<lambda>_.
     let agg = as_aggregate (ap_audit (sv_app s)) in
     Inr \<lparr>mv_runs_completed = ag_scenarios_executed agg, mv_confirmed_feedback_runs = ag_feedback_received agg,
          mv_simulated_runs = ag_simulated_runs agg, mv_pending_feedback_runs = ag_pending_feedback agg,
          mv_detected_runs = ag_detected agg, mv_contained_runs = ag_contained agg,
          mv_catalog_size = length (cg_entries (sv_catalog s)), mv_mean_mttd_ms = mean_mttd_ms agg,
          mv_mean_mttr_ms = mean_mttr_ms agg, mv_detection_rate_pct = detection_rate_pct agg\<rparr>))"

section \<open>What a report claims is in the signed manifests\<close>

lemma fidelity_text_behavioral [simp]: "fidelity_as_str f = ''behavioral'' \<longleftrightarrow> f = Behavioral"
  by (cases f) simp_all

lemma meta_behavioral:
  assumes "is_behavioral_for_any ts (meta_of e)"
  shows "claims_behavioral_coverage e"
proof (cases "se_technique_refs e")
  case Nil
  with assms show ?thesis by (simp add: is_behavioral_for_any_def is_behavioral_def meta_of_def claims_behavioral_coverage_def)
next
  case (Cons r rs)
  with assms show ?thesis
    by (auto simp: is_behavioral_for_any_def meta_of_def claims_behavioral_coverage_def list_ex_iff)
qed

lemma metas_entry:
  assumes "m \<in> set (scenario_metas s)"
  obtains i e where "cg_get (sv_catalog s) i = Some e" "m = meta_of e"
  using assms by (auto simp: scenario_metas_def map_filter_def)



end
