(* ===== verification/Procedures.thy ===== *)
theory Procedures
  imports Manifest_Safety
begin

text \<open>
  \<open>crates/asmodeus-dsl/src/procedure.rs\<close>: the fixed planning corpus of six procedures, none of which can be
  executed by this revision, and its validation.
\<close>

section \<open>Data\<close>

definition PROCEDURE_CORPUS_VERSION :: string where
  "PROCEDURE_CORPUS_VERSION = ''asmodeus.procedure-corpus.v1''"

definition PROCEDURE_SLOT_DENOMINATOR :: nat where
  "PROCEDURE_SLOT_DENOMINATOR = 6"

definition SLOTS :: "(string \<times> string) list" where
  "SLOTS = [(''container-exec'', ''T1609''), (''shell-execution'', ''T1059.004''), (''runtime-socket-prerequisite'', ''T1611''), (''http-beacon'', ''T1071.001''), (''dns-pattern'', ''T1071.004''), (''synthetic-transfer'', ''T1041'')]"

datatype procedure_mode = PmMarker | PmReplay | PmBehavioral

datatype procedure_availability = PaUnsupported

datatype procedure_variant_kind = PvPositive | PvBenignControl

record procedure_expectation =
  px_observables :: "string list"
  px_product_effect :: string
  px_verification :: string

record procedure_variant =
  pv_kind :: procedure_variant_kind
  pv_behavior :: string
  pv_expected :: procedure_expectation

record procedure_budget =
  pu_timeout_seconds :: nat
  pu_max_processes :: nat
  pu_max_requests :: nat
  pu_max_bytes :: nat
  pu_cancellation_required :: bool
  pu_kill_switch_required :: bool

record procedure_scope =
  ps_namespace_prefix :: string
  ps_canary_path :: string
  ps_endpoint_allowlist :: "string list"
  ps_synthetic_data_only :: bool
  ps_real_credentials_forbidden :: bool

record procedure_cleanup =
  pk_required_after :: "string list"
  pk_requirements :: "string list"

record procedure_definition =
  pd_id :: string
  pd_revision :: nat
  pd_technique_id :: string
  pd_name :: string
  pd_planned_mode :: procedure_mode
  pd_availability :: procedure_availability
  pd_unsupported_reason :: string
  pd_gap :: "string option"
  pd_preconditions :: "string list"
  pd_variants :: "procedure_variant list"
  pd_budget :: procedure_budget
  pd_scope :: procedure_scope
  pd_cleanup :: procedure_cleanup

record procedure_corpus =
  po_version :: string
  po_attack_version :: string
  po_denominator :: nat
  po_procedures :: "procedure_definition list"

section \<open>The corpus\<close>

definition procedure_variant_of :: "procedure_variant_kind \<Rightarrow> string \<Rightarrow> string \<Rightarrow> procedure_variant" where
  "procedure_variant_of kind behavior observables =
     \<lparr>pv_kind = kind, pv_behavior = behavior,
      pv_expected = \<lparr>px_observables = [observables],
        px_product_effect = (if kind = PvPositive then
          ''Under the declared fixture policy, produce the configured procedure-specific detection; prevention requires separate observed enforcement evidence.''
          else ''Under the same policy, permit the benign control and produce no attack-specific alert; routine audit events may remain.''),
        px_verification = ''Correlate sensor events, product decisions and actual fixture state by unique attempt ID, procedure revision and start/stop window; compare positive and benign results. Missing telemetry or policy is NOT_RUN, never PASS.''\<rparr>\<rparr>"

type_synonym procedure_row = "string \<times> string \<times> string \<times> string \<times> string \<times> string option"

definition PROCEDURE_ROWS :: "procedure_row list" where
  "PROCEDURE_ROWS = [
   (''Container exec'',
    ''Invoke a fixed harmless canary helper through the disposable container runtime exec API.'',
    (''Invoke the identical helper through the container'' @ [chr 39] @ ''s declared normal entrypoint.''),
    ''Runtime exec audit event plus helper process lineage and canary receipt'',
    ''Normal entrypoint/helper process lineage and matching canary receipt; no runtime exec audit event for this attempt'',
    None),
   (''Shell execution'',
    (''Use the disposable container'' @ [chr 39] @ ''s shell to write a fixed synthetic canary token.''),
    ''Write the same token with the fixed helper directly, without a shell.'',
    ''Shell process lineage, fixed invocation metadata and canary file receipt'',
    ''Direct helper process lineage and matching canary file receipt; no shell process in this attempt lineage'',
    None),
   (''Test runtime socket prerequisite'',
    ''Contact only an attempt-owned mock runtime socket and request its fixed read-only fixture metadata.'',
    ''Read the same fixture metadata from an ordinary canary file without opening a socket.'',
    ''Unix socket connect and fixture request audit correlated with process identity'',
    ''Canary metadata file read receipt correlated with helper identity; no Unix socket connect or runtime fixture request for this attempt'',
    Some ''Socket accessibility is only a measured prerequisite/signal. This procedure does not escape a container or establish T1611 behavioural coverage; host/runtime sockets must never be mounted.''),
   (''HTTP beacon'',
    ''Send at most four fixed synthetic HTTP beacon messages to the attempt-owned loopback receiver.'',
    ''Send one ordinary health-check request to the same receiver.'',
    ''Receiver receipts and HTTP connection timing for the bounded beacon pattern'',
    ''One ordinary HTTP health-check receiver receipt; no repeated beacon message pattern for this attempt'',
    Some ''No command retrieval or remote control is implemented; this is a bounded synthetic protocol pattern.''),
   (''DNS pattern'',
    (''Send at most four deterministic synthetic query labels under the fixture'' @ [chr 39] @ ''s .test zone to the loopback DNS fixture.''),
    ''Send one fixed service lookup under the same .test zone.'',
    ''DNS fixture query receipts, labels and bounded query timing'',
    ''One ordinary fixture service query receipt; no synthetic C2-pattern labels or repeated query pattern for this attempt'',
    Some ''No functional C2 channel, recursive resolver forwarding or external DNS is permitted.''),
   (''Synthetic transfer'',
    ''Transmit at most 4096 bytes of generated canary data to the attempt-owned loopback receiver.'',
    ''Send a fixed small health-status payload to the same receiver.'',
    ''Sender byte count and receiver payload digest for synthetic data'',
    ''One small fixed health-status receiver receipt and payload digest; no canary-data transfer payload for this attempt'',
    Some ''No real data collection or external exfiltration; this bounded transfer does not establish whole-technique T1041 coverage.'')]"

definition procedure_of :: "string \<times> string \<Rightarrow> procedure_row \<Rightarrow> procedure_definition" where
  "procedure_of slot row =
     (case (slot, row) of ((i, technique), (name, positive, benign, positive_observable, benign_observable, gap)) \<Rightarrow>
      \<lparr>pd_id = i, pd_revision = 1, pd_technique_id = technique, pd_name = name, pd_planned_mode = PmBehavioral,
       pd_availability = PaUnsupported,
       pd_unsupported_reason = ''NOT_RUN: this revision defines contracts only; a scoped runtime adapter, lifecycle/cleanup proof and correlated product evidence are not implemented.'',
       pd_gap = gap,
       pd_preconditions = [''Disposable Linux/container fixture explicitly owned by this attempt; no production workload or host runtime socket.'',
         ''Unique attempt ID, environment manifest and pinned procedure/policy revisions recorded before start.'',
         ''Provisioned local fixtures, sensor readiness and explicit product policy with expected positive/benign decisions.'',
         ''Preflight rejects destinations, paths or namespaces outside the attempt scope; cancellation and kill switch must be operational.''],
       pd_variants = [procedure_variant_of PvPositive positive positive_observable,
                      procedure_variant_of PvBenignControl benign benign_observable],
       pd_budget = \<lparr>pu_timeout_seconds = 10, pu_max_processes = 2, pu_max_requests = 4, pu_max_bytes = 4096,
                     pu_cancellation_required = True, pu_kill_switch_required = True\<rparr>,
       pd_scope = \<lparr>ps_namespace_prefix = ''asmodeus-canary-'', ps_canary_path = ''/tmp/asmodeus-canary/'',
                    ps_endpoint_allowlist = [''127.0.0.1''], ps_synthetic_data_only = True,
                    ps_real_credentials_forbidden = True\<rparr>,
       pd_cleanup = \<lparr>pk_required_after = [''success'', ''failure'', ''crash'', ''cancel''],
         pk_requirements = [''Stop and reap only attempt-owned processes and fixture receivers; prove no process or socket remains.'',
           (''Remove only this attempt'' @ [chr 39] @ ''s namespace, sockets and canary files; verify their absence and preserve signed evidence separately.''),
           (''Persist ownership before execution so crash recovery cannot claim or remove a previous attempt'' @ [chr 39] @ ''s artifacts; reruns require fresh IDs.'')]\<rparr>\<rparr>)"

definition procedure_corpus :: procedure_corpus where
  "procedure_corpus =
     \<lparr>po_version = PROCEDURE_CORPUS_VERSION, po_attack_version = ATTACK_VERSION,
      po_denominator = PROCEDURE_SLOT_DENOMINATOR,
      po_procedures = map (\<lambda>(slot, row). procedure_of slot row) (zip SLOTS PROCEDURE_ROWS)\<rparr>"

definition validate_procedure_corpus :: "procedure_corpus \<Rightarrow> string list + unit" where
  "validate_procedure_corpus corpus =
     (let errors =
        (if po_denominator corpus \<noteq> PROCEDURE_SLOT_DENOMINATOR \<or> length (po_procedures corpus) \<noteq> PROCEDURE_SLOT_DENOMINATOR
         then [''all six slots, including unsupported slots, must remain in the denominator''] else [])
        @ map (\<lambda>p. ''unknown pinned ATT&CK technique: '' @ pd_technique_id p)
            (filter (\<lambda>p. \<not> is_known_id (pd_technique_id p)) (po_procedures corpus))
        @ (if corpus \<noteq> procedure_corpus
           then [''corpus differs from the immutable versioned contract; revise and review the corpus version''] else [])
      in if errors = [] then Inr () else Inl errors)"

section \<open>The corpus is pinned and harmless\<close>

lemma corpus_slots: "map (\<lambda>p. (pd_id p, pd_technique_id p)) (po_procedures procedure_corpus) = SLOTS"
  by (simp add: procedure_corpus_def procedure_of_def PROCEDURE_ROWS_def SLOTS_def)

lemma corpus_member:
  assumes "p \<in> set (po_procedures procedure_corpus)"
  obtains slot row where "slot \<in> set SLOTS" "p = procedure_of slot row"
  using assms by (auto simp: procedure_corpus_def dest: set_zip_leftD)

lemma slots_known: "slot \<in> set SLOTS \<Longrightarrow> is_known_id (snd slot)"
proof -
  have "list_all (\<lambda>s. is_known_id (snd s)) SLOTS" by code_simp
  then show "slot \<in> set SLOTS \<Longrightarrow> is_known_id (snd slot)" by (simp add: list_all_iff)
qed

lemma length_corpus: "length (po_procedures procedure_corpus) = 6"
  by (simp add: procedure_corpus_def SLOTS_def PROCEDURE_ROWS_def)


end
