(* ===== verification/Router.thy ===== *)
theory Router
  imports Runs_Http Scenario_Http Runner_Http Campaign_Http Schedule_Http Report_Http Procedures
begin

text \<open>
  \<open>crates/asmodeus-control-plane/src/http.rs\<close>: every route of the control plane as one function of a request, and the
  access control of the whole interface. \<open>serve\<close> is \<open>None\<close> when a request is never answered.
\<close>

section \<open>Requests and answers\<close>

datatype request =
    Healthz | Metrics | OpenapiSpec
  | ListScenarios | ListProcedures | MitreMatrix | ValidateManifest bytes | GetScenario string
  | RunScenario string bytes | AbortAll | TelemetryMttd
  | ListRunners | RegisterRunner register_runner_request | DeregisterRunner string | SetMaintenance string bool | PingRunner string
  | ListRuns list_runs_query | GetRun string | VerifyRun string | CancelRun string | RunFeedback string feedback
  | RunReport string | ResilienceReport | ComplianceReport | ExportAudit "string option"
  | ListCampaigns | RegisterCampaign campaign | DeleteCampaign string | RunCampaign string bytes
  | ListCampaignRuns list_campaign_runs_query | CampaignRunDetails string | CancelCampaignRun string | ResumeCampaignRun string
  | ListSchedules | CreateSchedule create_schedule_request | ListAlerts | GetSchedule string | ToggleSchedule string bool
  | DeleteSchedule string

datatype answer =
    AnOk | AnMetrics aggregate | AnScenarios "scenario_row list" | AnProcedures procedure_corpus | AnMatrix mitre_matrix
  | AnManifest manifest_check
  | AnScenario "scenario_row \<times> technique_view list \<times> scenario_profile option \<times> string \<times> nat \<times> nat"
  | AnRun run_answer | AnAborted "string list \<times> string list" | AnMttd mttd_view
  | AnRunners "runner_record list" | AnRunner runner_record | AnPing "bool \<times> ping_reply"
  | AnRuns "nat \<times> audit_record list" | AnRecord audit_record | AnLive "audit_record \<times> string option"
  | AnVerified "audit_record \<times> bool" | AnCancel cancel_answer | AnResilience resilience_report
  | AnCompliance compliance_report | AnExport export_body | AnCampaigns "campaign list" | AnCampaign campaign
  | AnCampaignRun "campaign_run \<times> bool" | AnCampaignRuns "nat \<times> campaign_run list"
  | AnCampaignDetails "campaign_run \<times> bool \<times> campaign_run_result" | AnCampaignCancel campaign_cancel
  | AnSchedules "scheduled_job list" | AnSchedule scheduled_job | AnAlerts "drift_alert list \<times> nat" | AnEnabled bool

definition list_procedures :: "world \<Rightarrow> header_map \<Rightarrow> api_error + procedure_corpus" where
  "list_procedures W hdrs =
     and_then (who W hdrs) (\<lambda>role.
     and_then (require (can role ViewReports) ''role may not view procedures'') (\<lambda>_. Inr procedure_corpus))"

text \<open>A handler that only reads, and one that also returns the next state.\<close>

definition reads :: "('r \<Rightarrow> answer) \<Rightarrow> api_error + 'r \<Rightarrow> server \<Rightarrow> ((api_error + answer) \<times> server) option" where
  "reads f r s = Some (map_sum id f r, s)"

definition acts :: "('r \<Rightarrow> answer) \<Rightarrow> (api_error + 'r) \<times> server \<Rightarrow> ((api_error + answer) \<times> server) option" where
  "acts f x = (case x of (r, s') \<Rightarrow> Some (map_sum id f r, s'))"

fun serve ::
  "world \<Rightarrow> (clickhouse_json_row \<Rightarrow> string + string) \<Rightarrow> header_map \<Rightarrow> request \<Rightarrow> server
     \<Rightarrow> ((api_error + answer) \<times> server) option" where
  "serve W rj h Healthz s = Some (Inr AnOk, s)"
| "serve W rj h Metrics s = Some (Inr (AnMetrics (as_aggregate (ap_audit (sv_app s)))), s)"
| "serve W rj h OpenapiSpec s = Some (Inr AnOk, s)"
| "serve W rj h ListScenarios s = reads AnScenarios (list_scenarios W h s) s"
| "serve W rj h ListProcedures s = reads AnProcedures (list_procedures W h) s"
| "serve W rj h MitreMatrix s = reads AnMatrix (mitre_matrix_http W h s) s"
| "serve W rj h (ValidateManifest body) s = reads AnManifest (validate_scenario_manifest W h body) s"
| "serve W rj h (GetScenario i) s = reads AnScenario (get_scenario W h i s) s"
| "serve W rj h (RunScenario i body) s = acts AnRun (run_scenario W h i body s)"
| "serve W rj h AbortAll s = acts AnAborted (abort_all W h s)"
| "serve W rj h TelemetryMttd s = reads AnMttd (telemetry_mttd W h s) s"
| "serve W rj h ListRunners s = reads AnRunners (list_runners W h s) s"
| "serve W rj h (RegisterRunner q) s = acts AnRunner (register_runner W h q s)"
| "serve W rj h (DeregisterRunner i) s = acts (\<lambda>_. AnOk) (deregister_runner W h i s)"
| "serve W rj h (SetMaintenance i b) s = acts AnRunner (set_runner_maintenance W h i b s)"
| "serve W rj h (PingRunner i) s = acts AnPing (ping_runner W h i s)"
| "serve W rj h (ListRuns q) s = reads AnRuns (list_runs W h q s) s"
| "serve W rj h (GetRun i) s = reads AnLive (get_run W h i s) s"
| "serve W rj h (VerifyRun i) s = reads AnVerified (verify_run W h i s) s"
| "serve W rj h (CancelRun i) s = acts AnCancel (cancel_run W h i s)"
| "serve W rj h (RunFeedback i p) s = acts AnRecord (run_feedback W h i p s)"
| "serve W rj h (RunReport i) s = reads AnVerified (get_run_report W h i s) s"
| "serve W rj h ResilienceReport s = reads AnResilience (get_resilience_report W h s) s"
| "serve W rj h ComplianceReport s = map_option (\<lambda>r. (map_sum id AnCompliance r, s)) (get_compliance_report W h s)"
| "serve W rj h (ExportAudit f) s = reads AnExport (export_audit_trail W rj h f s) s"
| "serve W rj h ListCampaigns s = reads AnCampaigns (list_campaigns W h s) s"
| "serve W rj h (RegisterCampaign c) s = acts AnCampaign (register_campaign W h c s)"
| "serve W rj h (DeleteCampaign i) s = acts (\<lambda>_. AnOk) (delete_campaign W h i s)"
| "serve W rj h (RunCampaign i body) s = acts AnCampaignRun (run_campaign W h i body s)"
| "serve W rj h (ListCampaignRuns q) s = reads AnCampaignRuns (list_campaign_runs W h q s) s"
| "serve W rj h (CampaignRunDetails i) s = reads AnCampaignDetails (campaign_run_details W h i s) s"
| "serve W rj h (CancelCampaignRun i) s = acts AnCampaignCancel (cancel_campaign_run W h i s)"
| "serve W rj h (ResumeCampaignRun i) s = acts (\<lambda>r. AnCampaignRun (r, False)) (resume_campaign_run W h i s)"
| "serve W rj h ListSchedules s = reads AnSchedules (list_schedules W h s) s"
| "serve W rj h (CreateSchedule q) s = acts AnSchedule (create_schedule W h q s)"
| "serve W rj h ListAlerts s = reads AnAlerts (list_drift_alerts W h s) s"
| "serve W rj h (GetSchedule i) s = reads AnSchedule (get_schedule W h i s) s"
| "serve W rj h (ToggleSchedule i b) s = acts AnEnabled (toggle_schedule W h i b s)"
| "serve W rj h (DeleteSchedule i) s = acts (\<lambda>_. AnOk) (delete_schedule W h i s)"

section \<open>Who may do what\<close>

text \<open>The policy, stated apart from the handlers: what the role of a caller must be allowed for a request to succeed.\<close>

fun permitted :: "server \<Rightarrow> role \<Rightarrow> request \<Rightarrow> bool" where
  "permitted s role (RunScenario i _) \<longleftrightarrow> may_run s role i"
| "permitted s role AbortAll \<longleftrightarrow> may_operate role"
| "permitted s role (RegisterRunner _) \<longleftrightarrow> may_operate role"
| "permitted s role (DeregisterRunner _) \<longleftrightarrow> may_operate role"
| "permitted s role (SetMaintenance _ _) \<longleftrightarrow> may_operate role"
| "permitted s role (CancelRun i) \<longleftrightarrow>
     (case trail_get (sv_trail s) i of
        None \<Rightarrow> False
      | Some r \<Rightarrow> (case category_from_str (ar_category r) of None \<Rightarrow> False | Some c \<Rightarrow> can role (required_capability c)))"
| "permitted s role (RunFeedback _ _) \<longleftrightarrow> role \<noteq> Ciso \<and> role \<noteq> Auditor"
| "permitted s role (RegisterCampaign c) \<longleftrightarrow>
     may_edit_campaigns role \<and> list_all (\<lambda>step. may_run s role (cs_scenario_id step)) (ca_steps c)"
| "permitted s role (DeleteCampaign _) \<longleftrightarrow> may_edit_campaigns role"
| "permitted s role (RunCampaign i _) \<longleftrightarrow> may_operate role
     \<and> (case catalog_get (pe_value (sv_campaigns s)) i of
          None \<Rightarrow> False
        | Some c \<Rightarrow> list_all (\<lambda>step. may_run s role (cs_scenario_id step)) (ca_steps c))"
| "permitted s role (CancelCampaignRun i) \<longleftrightarrow> may_stop s role i"
| "permitted s role (ResumeCampaignRun i) \<longleftrightarrow> may_stop s role i"
| "permitted s role (CreateSchedule q) \<longleftrightarrow> may_schedule role \<and> may_run s role (cq_scenario_id q)"
| "permitted s role (ToggleSchedule i _) \<longleftrightarrow> may_schedule role
     \<and> (case schedule_get (pe_value (sv_schedules s)) i of None \<Rightarrow> True | Some j \<Rightarrow> may_run s role (sj_scenario_id j))"
| "permitted s role (DeleteSchedule _) \<longleftrightarrow> may_schedule role"
| "permitted s role _ \<longleftrightarrow> can role ViewReports"

text \<open>The requests that may change the state, and the three that need no identity.\<close>

fun mutates :: "request \<Rightarrow> bool" where
  "mutates (RunScenario _ _) = True"
| "mutates AbortAll = True"
| "mutates (RegisterRunner _) = True"
| "mutates (DeregisterRunner _) = True"
| "mutates (SetMaintenance _ _) = True"
| "mutates (PingRunner _) = True"
| "mutates (CancelRun _) = True"
| "mutates (RunFeedback _ _) = True"
| "mutates (RegisterCampaign _) = True"
| "mutates (DeleteCampaign _) = True"
| "mutates (RunCampaign _ _) = True"
| "mutates (CancelCampaignRun _) = True"
| "mutates (ResumeCampaignRun _) = True"
| "mutates (CreateSchedule _) = True"
| "mutates (ToggleSchedule _ _) = True"
| "mutates (DeleteSchedule _) = True"
| "mutates _ = False"

definition open_request :: "request \<Rightarrow> bool" where
  "open_request q \<longleftrightarrow> q \<in> set [Healthz, Metrics, OpenapiSpec]"

definition without_counter :: "server \<Rightarrow> server" where
  "without_counter s = s\<lparr>sv_app := (sv_app s)\<lparr>ap_counter := 0\<rparr>\<rparr>"

section \<open>Nothing happens without permission\<close>

text \<open>What is left to show of a request: it had permission, or it failed and changed nothing.\<close>

definition denied :: "server \<Rightarrow> (api_error + answer) \<Rightarrow> server \<Rightarrow> bool" where
  "denied s res s' \<longleftrightarrow> (\<exists>e. res = Inl e) \<and> without_counter s' = without_counter s"

lemma denied_refl [simp]: "denied s (Inl e) s"
  by (simp add: denied_def)

lemma acts_guarded:
  assumes "acts f (guarded g k s) = Some (res, s')" and "\<And>a. g = Inr a \<Longrightarrow> P a"
  shows "(\<exists>a. g = Inr a \<and> P a) \<or> denied s res s'"
  using assms by (cases g) (auto simp: acts_def guarded_def denied_def)

lemma reads_Some [simp]: "reads f r s = Some (res, s') \<longleftrightarrow> res = map_sum id f r \<and> s' = s"
  by (auto simp: reads_def)

lemma acts_Some [simp]: "acts f x = Some (res, s') \<longleftrightarrow> res = map_sum id f (fst x) \<and> s' = snd x"
  by (auto simp: acts_def split: prod.splits)

lemma may_schedule_all: "can role (required_capability c) \<Longrightarrow> may_schedule role"
  by (cases role; cases c) (simp_all add: may_schedule_def)

lemma may_view_all [simp]: "may_view_schedules role" "can role ViewReports"
  by (cases role; simp add: may_view_schedules_def)+

lemma authorize_Inr:
  "authorize cat run role = Inr u \<longleftrightarrow> may_operate role \<and>
     (\<forall>step \<in> set (cr_steps run). \<exists>c. cat (cs_scenario_id step) = Some c \<and> can role (required_capability c))"
  using authorize_steps_ok [of cat role "cr_steps run"]
  by (auto simp: authorize_def may_operate_def is_ok_iff)

lemma reading_unchanged: "serve W rj h q s = Some (res, s') \<Longrightarrow> \<not> mutates q \<Longrightarrow> s' = s"
  by (cases q) auto

lemma reading_identified:
  assumes "serve W rj h q s = Some (res, s')" and "\<not> mutates q" and "\<not> open_request q"
  shows "(\<exists>role. who W h = Inr role \<and> permitted s role q) \<or> denied s res s'"
proof (cases "who W h")
  case (Inr role)
  then show ?thesis using assms(2,3) by (cases q) (simp_all add: open_request_def)
next
  case (Inl e)
  with assms show ?thesis
    by (cases q)
      (auto simp: open_request_def denied_def and_then_def list_scenarios_def list_procedures_def mitre_matrix_http_def
        validate_scenario_manifest_def get_scenario_def telemetry_mttd_def list_runners_def list_runs_def get_run_def
        verify_run_def get_run_report_def get_resilience_report_def get_compliance_report_def export_audit_trail_def
        list_campaigns_def list_campaign_runs_def campaign_run_details_def list_schedules_def list_drift_alerts_def
        get_schedule_def)
qed

lemma may_run_iff: "may_run s role i \<longleftrightarrow> (\<exists>c. entry_category s i = Some c \<and> can role (required_capability c))"
  by (simp add: may_run_def)

lemma permitted_may_stop:
  "owned_run W h i s = Inr run \<Longrightarrow> \<exists>role. who W h = Inr role \<and> may_stop s role i"
  by (auto simp: owned_run_def get_campaign_run_def may_stop_def is_ok_iff)

lemma check_steps_Inr:
  "check_steps cat role prev steps = Inr u \<Longrightarrow>
     \<forall>step \<in> set steps. \<exists>c. cat (cs_scenario_id step) = Some c \<and> can role (required_capability c)"
  by (induction cat role prev steps rule: check_steps.induct) auto

text \<open>One request at a time; \<open>run_campaign\<close> and \<open>toggle_schedule\<close> also check inside their action.\<close>

lemma run_campaign_permitted:
  assumes "run_campaign W h i body s = (res, s')"
  shows "(\<exists>role. who W h = Inr role \<and> permitted s role (RunCampaign i body))
    \<or> ((\<exists>e. res = Inl e) \<and> without_counter s' = without_counter s)"
proof -
  from guarded_cases [OF assms [unfolded run_campaign_def]]
  consider (refused) e where "res = Inl e" "s' = s"
    | (checked) role payload campaign where "who W h = Inr role" "catalog_get (pe_value (sv_campaigns s)) i = Some campaign"
        "(case next_campaign_run_id (sv_app s) of (rid, app) \<Rightarrow>
          let s1 = s\<lparr>sv_app := app\<rparr>; run = new_campaign_run rid campaign role payload (wo_now W) in
          case authorize (entry_category s) run role of
            Inl e \<Rightarrow> (Inl (api_of_campaign e), s1)
          | Inr _ \<Rightarrow>
              (case launch_http W run False s1 of
                 (Inl e, s2) \<Rightarrow> (Inl e, s2)
               | (Inr admitted, s2) \<Rightarrow> (Inr (admitted, \<not> rp_background payload), s2))) = (res, s')"
    by auto
  then show ?thesis
  proof cases
    case refused
    then show ?thesis by simp
  next
    case (checked role payload campaign)
    let ?run = "\<lambda>rid. new_campaign_run rid campaign role payload (wo_now W)"
    have steps: "cr_steps (?run rid) = ca_steps campaign" for rid by (simp add: new_campaign_run_def)
    show ?thesis
    proof (cases "may_operate role \<and> (\<forall>step \<in> set (ca_steps campaign). may_run s role (cs_scenario_id step))")
      case True
      with checked show ?thesis by (simp add: list_all_iff)
    next
      case False
      let ?n = "next_campaign_run_id (sv_app s)"
      obtain e where "authorize (entry_category s) (?run (fst ?n)) role = Inl e"
        using False authorize_Inr [of "entry_category s" "?run (fst ?n)" role] steps
        by (cases "authorize (entry_category s) (?run (fst ?n)) role") (auto simp: may_run_iff)
      with checked(3) have "res = Inl (api_of_campaign e) \<and> s' = s\<lparr>sv_app := snd ?n\<rparr>"
        by (simp add: split_def Let_def)
      then show ?thesis by (simp add: without_counter_def next_campaign_run_id_def)
    qed
  qed
qed

lemma toggle_permitted:
  assumes "toggle_schedule W h i b s = (res, s')"
  shows "(\<exists>role. who W h = Inr role \<and> permitted s role (ToggleSchedule i b)) \<or> ((\<exists>e. res = Inl e) \<and> s' = s)"
proof -
  from guarded_cases [OF assms [unfolded toggle_schedule_def]]
  consider (refused) e where "res = Inl e" "s' = s"
    | (checked) role where "who W h = Inr role" "may_schedule role"
        "(case pe_update (wo_schedules_json W) (toggle_change (entry_category s) role i b) (wo_write W) (sv_schedules s) of
            (Inl e, c) \<Rightarrow>
              (Inl (if toggle_denied (entry_category s) role i (pe_value (sv_schedules s))
                    then ApiForbidden ''role may not modify this scenario category''
                    else ApiInternal (''schedule persistence: '' @ e)), s\<lparr>sv_schedules := c\<rparr>)
          | (Inr r, c) \<Rightarrow> (or_not_found (''schedule not found: '' @ i) r, s\<lparr>sv_schedules := c\<rparr>)) = (res, s')"
    by auto
  then show ?thesis
  proof cases
    case refused
    then show ?thesis by simp
  next
    case (checked role)
    show ?thesis
    proof (cases "toggle_denied (entry_category s) role i (pe_value (sv_schedules s))")
      case True
      then have "pe_update (wo_schedules_json W) (toggle_change (entry_category s) role i b) (wo_write W) (sv_schedules s)
          = (Inl ''role may not enable this scenario category'', sv_schedules s)"
        by (simp add: pe_update_def toggle_change_def)
      with checked(3) show ?thesis by auto
    next
      case False
      with checked(1,2) show ?thesis
        by (auto simp: toggle_denied_def may_run_iff split: option.splits)
    qed
  qed
qed

lemma acting_permitted:
  assumes "serve W rj h q s = Some (res, s')" and "mutates q"
  shows "(\<exists>role. who W h = Inr role \<and> permitted s role q) \<or> denied s res s'"
proof (cases q)
  case (RunCampaign i body)
  obtain r where "run_campaign W h i body s = (r, s')" using assms(1) RunCampaign by (cases "run_campaign W h i body s") auto
  from run_campaign_permitted [OF this] this assms(1) RunCampaign show ?thesis by (auto simp: denied_def)
next
  case (ToggleSchedule i b)
  obtain r where "toggle_schedule W h i b s = (r, s')" using assms(1) ToggleSchedule by (cases "toggle_schedule W h i b s") auto
  from toggle_permitted [OF this] this assms(1) ToggleSchedule show ?thesis by (auto simp: denied_def)
next
  case (RunScenario i body)
  with assms(1) have "acts AnRun (run_scenario W h i body s) = Some (res, s')" by simp
  from acts_guarded [OF this [unfolded run_scenario_def], where P = "\<lambda>_. True"] RunScenario show ?thesis
    by (auto simp: launch_allowed_def may_run_iff entry_category_def)
next
  case (RegisterCampaign c)
  with assms(1) have "acts AnCampaign (register_campaign W h c s) = Some (res, s')" by simp
  from acts_guarded [OF this [unfolded register_campaign_def], where P = "\<lambda>_. True"] RegisterCampaign show ?thesis
    by (auto simp: register_allowed_def Let_def list_all_iff may_run_iff dest!: check_steps_Inr)
next
  case AbortAll
  with assms(1) have "acts AnAborted (abort_all W h s) = Some (res, s')" by simp
  from acts_guarded [OF this [unfolded abort_all_def], where P = "\<lambda>_. True"] AbortAll show ?thesis
    by (auto simp: may_operate_def)
next
  case (RegisterRunner p)
  with assms(1) have "acts AnRunner (register_runner W h p s) = Some (res, s')" by simp
  from acts_guarded [OF this [unfolded register_runner_def], where P = "\<lambda>_. True"] RegisterRunner show ?thesis
    by (auto simp: registration_def)
next
  case (DeregisterRunner i)
  with assms(1) have "acts (\<lambda>_. AnOk) (deregister_runner W h i s) = Some (res, s')" by simp
  from acts_guarded [OF this [unfolded deregister_runner_def], where P = "\<lambda>_. True"] DeregisterRunner show ?thesis by auto
next
  case (SetMaintenance i b)
  with assms(1) have "acts AnRunner (set_runner_maintenance W h i b s) = Some (res, s')" by simp
  from acts_guarded [OF this [unfolded set_runner_maintenance_def], where P = "\<lambda>_. True"] SetMaintenance show ?thesis by auto
next
  case (PingRunner i)
  with assms(1) have "acts AnPing (ping_runner W h i s) = Some (res, s')" by simp
  from acts_guarded [OF this [unfolded ping_runner_def], where P = "\<lambda>_. True"] PingRunner show ?thesis by auto
next
  case (CancelRun i)
  with assms(1) have "acts AnCancel (cancel_run W h i s) = Some (res, s')" by simp
  from acts_guarded [OF this [unfolded cancel_run_def], where P = "\<lambda>_. True"] CancelRun show ?thesis
    by (auto split: option.splits)
next
  case (RunFeedback i p)
  with assms(1) have "acts AnRecord (run_feedback W h i p s) = Some (res, s')" by simp
  from acts_guarded [OF this [unfolded run_feedback_def], where P = "\<lambda>_. True"] RunFeedback show ?thesis by auto
next
  case (DeleteCampaign i)
  with assms(1) have "acts (\<lambda>_. AnOk) (delete_campaign W h i s) = Some (res, s')" by simp
  from acts_guarded [OF this [unfolded delete_campaign_def], where P = "\<lambda>_. True"] DeleteCampaign show ?thesis by auto
next
  case (CancelCampaignRun i)
  with assms(1) have "acts AnCampaignCancel (cancel_campaign_run W h i s) = Some (res, s')" by simp
  from acts_guarded [OF this [unfolded cancel_campaign_run_def], where P = "\<lambda>_. True"] CancelCampaignRun show ?thesis
    by (auto dest!: permitted_may_stop)
next
  case (ResumeCampaignRun i)
  with assms(1) have "acts (\<lambda>r. AnCampaignRun (r, False)) (resume_campaign_run W h i s) = Some (res, s')" by simp
  from acts_guarded [OF this [unfolded resume_campaign_run_def], where P = "\<lambda>_. True"] ResumeCampaignRun show ?thesis
    by (auto dest!: permitted_may_stop)
next
  case (CreateSchedule p)
  with assms(1) have "acts AnSchedule (create_schedule W h p s) = Some (res, s')" by simp
  from acts_guarded [OF this [unfolded create_schedule_def], where P = "\<lambda>_. True"] CreateSchedule show ?thesis
    by (auto simp: create_allowed_def may_run_iff)
next
  case (DeleteSchedule i)
  with assms(1) have "acts (\<lambda>_. AnOk) (delete_schedule W h i s) = Some (res, s')" by simp
  from acts_guarded [OF this [unfolded delete_schedule_def], where P = "\<lambda>_. True"] DeleteSchedule show ?thesis by auto
qed (use assms(2) in simp_all)

lemma served: "\<exists>res s'. serve W rj h q s = Some (res, s')"
proof -
  have "generate secs ms rs \<noteq> None" for secs ms rs
    using days_to_ymd_eq by (auto simp: generate_def chrono_free_timestamp_def split: prod.splits)
  then have "get_compliance_report W h s \<noteq> None"
    by (auto simp: get_compliance_report_def split: sum.splits)
  then show ?thesis by (cases q) (auto simp: reads_def acts_def split: prod.splits)
qed

text \<open>
  C7: Access control of the whole interface. Every request is answered. A request that only reads leaves the state as it
  was. Apart from health, metrics and the interface description, a request either comes from a caller with an identity
  whose role the policy permits it for, object by object (the category of the scenario, of the recorded run, of every
  stage of the campaign, of the scheduled scenario), or it fails and nothing but the identifier counter has changed.
\<close>
theorem access_control:
  "\<exists>res s'. serve W rj h q s = Some (res, s') \<and> (mutates q \<or> s' = s)
     \<and> (open_request q \<or> (\<exists>role. who W h = Inr role \<and> permitted s role q)
        \<or> (\<exists>e. res = Inl e) \<and> without_counter s' = without_counter s)"
proof -
  obtain res s' where s: "serve W rj h q s = Some (res, s')" using served by blast
  show ?thesis
  proof (cases "mutates q")
    case True
    with acting_permitted [OF s True] s show ?thesis by (auto simp: denied_def)
  next
    case False
    with reading_unchanged [OF s False] reading_identified [OF s False] s show ?thesis by (auto simp: denied_def)
  qed
qed

theorem access_control_witness:
  "\<exists>e s'. serve example_world (\<lambda>_. Inl []) (example_as Ciso) AbortAll example_server = Some (Inl e, s')
     \<and> without_counter s' = without_counter example_server"
proof -
  have "\<not> permitted example_server Ciso AbortAll" by (simp add: may_operate_def)
  moreover have "who example_world (example_as Ciso) = Inr Ciso" by (rule example_who)
  moreover have "\<not> open_request AbortAll" by (simp add: open_request_def)
  ultimately show ?thesis
    using access_control [of example_world "\<lambda>_. Inl []" "example_as Ciso" AbortAll example_server] by fastforce
qed

end
