(* ===== verification/Startup.thy ===== *)
theory Startup
  imports Server Execution_Safety
begin

text \<open>
  Start-up of the control plane: \<open>config.rs\<close>, the constructors of \<open>state.rs\<close>, and what \<open>main.rs\<close> does before it
  serves. Files, environment, entropy and the outcome of each write are inputs; the parser of socket addresses of the
  standard library is a parameter.
\<close>

section \<open>Configuration\<close>

definition DEFAULT_LISTEN :: string where "DEFAULT_LISTEN = ''127.0.0.1:8842''"
definition DEFAULT_WATCHDOG_INTERVAL_SEC :: nat where "DEFAULT_WATCHDOG_INTERVAL_SEC = 30"
definition DEFAULT_SCHEDULER_INTERVAL_SEC :: nat where "DEFAULT_SCHEDULER_INTERVAL_SEC = 30"
definition MIN_SCHEDULER_INTERVAL_SEC :: nat where "MIN_SCHEDULER_INTERVAL_SEC = 5"

record 'addr control_plane_config =
  cf_listen_addr :: 'addr
  cf_watchdog_interval_sec :: nat
  cf_scheduler_interval_sec :: nat

datatype config_error = InvalidListen string | InvalidInterval string string | ZeroInterval string
  | IntervalTooSmall string nat nat

definition parse_interval :: "string \<Rightarrow> string option \<Rightarrow> nat \<Rightarrow> nat \<Rightarrow> config_error + nat" where
  "parse_interval name raw dflt min_secs =
     (case raw of
        None \<Rightarrow> Inr dflt
      | Some value \<Rightarrow>
          and_then (ok_or (InvalidInterval name value) (parse_u64 value)) (\<lambda>parsed.
          and_then (reject_if (parsed = 0) (ZeroInterval name)) (\<lambda>_.
          and_then (reject_if (parsed < min_secs) (IntervalTooSmall name min_secs parsed)) (\<lambda>_. Inr parsed))))"

definition config_from_lookup ::
  "(string \<Rightarrow> 'addr option) \<Rightarrow> (string \<Rightarrow> string option) \<Rightarrow> config_error + 'addr control_plane_config" where
  "config_from_lookup parse_addr lookup =
     (let listen_raw = (case lookup ''ASMODEUS_LISTEN'' of Some l \<Rightarrow> l | None \<Rightarrow> DEFAULT_LISTEN) in
      and_then (ok_or (InvalidListen listen_raw) (parse_addr listen_raw)) (\<lambda>listen_addr.
      and_then (parse_interval ''ASMODEUS_WATCHDOG_INTERVAL_SEC'' (lookup ''ASMODEUS_WATCHDOG_INTERVAL_SEC'')
                  DEFAULT_WATCHDOG_INTERVAL_SEC 1) (\<lambda>watchdog.
      and_then (parse_interval ''ASMODEUS_SCHEDULER_INTERVAL_SEC'' (lookup ''ASMODEUS_SCHEDULER_INTERVAL_SEC'')
                  DEFAULT_SCHEDULER_INTERVAL_SEC MIN_SCHEDULER_INTERVAL_SEC) (\<lambda>scheduler.
      Inr \<lparr>cf_listen_addr = listen_addr, cf_watchdog_interval_sec = watchdog, cf_scheduler_interval_sec = scheduler\<rparr>))))"

section \<open>The audit key\<close>

definition KEY_CHECK :: bytes where "KEY_CHECK = ''asmodeus-audit-key-check''"

text \<open>\<open>path\<close> is the key file, if one is configured, with its text if it can be read; \<open>demo\<close> is a fresh key.\<close>

definition load_audit_key :: "ed25519 \<Rightarrow> bytes \<Rightarrow> string option option \<Rightarrow> bool \<Rightarrow> string + bytes" where
  "load_audit_key E demo path on_disk =
     (case path of
        None \<Rightarrow> if on_disk then Inl ''ASMODEUS_AUDIT_SIGNING_KEY is required with ASMODEUS_AUDIT_LOG'' else Inr demo
      | Some None \<Rightarrow> Inl ''io error''
      | Some (Some text) \<Rightarrow>
          let hex = trim text in
          and_then (reject_if (length hex \<noteq> 128 \<or> \<not> is_ascii hex) ''audit key must contain 64 hex-encoded bytes'') (\<lambda>_.
          and_then (ok_or ''invalid audit key hex'' (hex_pairs hex)) (\<lambda>key.
          case (public_key_from_secret_key E key, sign_message E KEY_CHECK key) of
            (Inr pk, Inr proof_bytes) \<Rightarrow>
              and_then (reject_if (\<not> is_valid E KEY_CHECK proof_bytes pk) ''inconsistent audit key'') (\<lambda>_. Inr key)
          | _ \<Rightarrow> Inl ''secret key is malformed'')))"

section \<open>The application state\<close>

text \<open>\<open>with_runner\<close>: the registry an endpoint from the environment seeds.\<close>

definition runner_seed :: "string option \<Rightarrow> string \<Rightarrow> nat \<Rightarrow> registry_data" where
  "runner_seed endpoint pkg_version now =
     (case endpoint of
        Some ep \<Rightarrow> with_default ''default-runner'' ep [''default'', ''endpoint_agent''] pkg_version now
      | None \<Rightarrow> \<lparr>rd_runners = [], rd_require_runner = False, rd_next_epoch = 0\<rparr>)"

text \<open>What start-up finds on disk; without a state directory there are no snapshots.\<close>

record storage =
  sg_runners :: "snapshot_file option"
  sg_audit :: "string option"
  sg_campaign_runs :: "disk option"
  sg_campaigns :: "disk option"
  sg_schedules :: "disk option"

text \<open>\<open>ios\<close> are the outcomes of the appends of recovery, \<open>entropy\<close> is the namespace of this process.\<close>

definition with_storage ::
  "world \<Rightarrow> catalog \<Rightarrow> registry_data \<Rightarrow> storage \<Rightarrow> bytes \<Rightarrow> io_outcome list \<Rightarrow> bytes option \<Rightarrow> string + server" where
  "with_storage W cat seed files key ios entropy =
     and_then (with_persistence (wo_url W) (wo_registry_write W) (sg_runners files) seed) (\<lambda>registry.
     and_then (open_audit (wo_ed W) (wo_audit W) key (wo_now W) ios (sg_audit files)) (\<lambda>audit.
     and_then (ok_or ''run ID entropy unavailable'' entropy) (\<lambda>namespace.
     and_then (pe_load (wo_campaign_runs_json W) (sg_campaign_runs files) default_store) (\<lambda>campaign_runs.
     and_then (validate_store (pe_value campaign_runs)) (\<lambda>_.
     and_then (pe_load (wo_campaigns_json W) (sg_campaigns files) campaign_seed) (\<lambda>campaigns.
     and_then (pe_load (wo_schedules_json W) (sg_schedules files) schedule_seed) (\<lambda>schedules.
     Inr \<lparr>sv_app = \<lparr>ap_catalog_key = cg_public_key cat, ap_signing_key = key, ap_registry = rs_data registry,
                      ap_audit = audit, ap_runs = [], ap_events = [], ap_namespace = run_namespace namespace, ap_counter = 1\<rparr>,
          sv_audit_public_key = ed_public (wo_ed W) key, sv_registry_disk = rs_disk registry, sv_catalog = cat,
          sv_campaigns = campaigns, sv_campaign_runs = campaign_runs, sv_controls = [], sv_schedules = schedules\<rparr>)))))))"

text \<open>\<open>main\<close>: jobs and campaign runs that were in flight are marked before anything is served.\<close>

definition recover_schedules_change :: "schedule_catalog \<Rightarrow> (string + unit) \<times> schedule_catalog" where
  "recover_schedules_change c = (Inr (), schedule_recover c)"

definition recover_runs_change :: "string \<Rightarrow> campaign_run_store \<Rightarrow> (string + nat) \<times> campaign_run_store" where
  "recover_runs_change now st = (case recover_interrupted now st of (n, st') \<Rightarrow> (Inr n, st'))"

definition start_server ::
  "world \<Rightarrow> write_outcome \<Rightarrow> write_outcome \<Rightarrow> catalog \<Rightarrow> registry_data \<Rightarrow> storage \<Rightarrow> bytes \<Rightarrow> io_outcome list
     \<Rightarrow> bytes option \<Rightarrow> string + server" where
  "start_server W w1 w2 cat seed files key ios entropy =
     and_then (with_storage W cat seed files key ios entropy) (\<lambda>s.
     case pe_update (wo_schedules_json W) recover_schedules_change w1 (sv_schedules s) of
       (Inl e, _) \<Rightarrow> Inl e
     | (Inr _, schedules) \<Rightarrow>
         (case pe_update (wo_campaign_runs_json W) (recover_runs_change (wo_now W)) w2 (sv_campaign_runs s) of
            (Inl e, _) \<Rightarrow> Inl e
          | (Inr _, campaign_runs) \<Rightarrow> Inr (s\<lparr>sv_schedules := schedules, sv_campaign_runs := campaign_runs\<rparr>)))"

end
