(* ===== verification/Server_Safety.thy ===== *)
theory Server_Safety
  imports Router Startup
begin

text \<open>
  The control plane as a whole: an invariant of the server state, one conjunct per component, and that every request of
  the interface keeps it (\<open>serve_step\<close>). \<open>Server_Restart\<close> draws the consequence for a crash.
\<close>

section \<open>The invariant, one component at a time\<close>

definition libs_ok :: "world \<Rightarrow> bool" where
  "libs_ok W \<longleftrightarrow> ed_correct (wo_ed W) \<and> codec_ok (wo_audit W) \<and> json_ok (wo_campaigns_json W)
     \<and> json_ok (wo_campaign_runs_json W) \<and> json_ok (wo_schedules_json W)"

definition audit_ok :: "world \<Rightarrow> server \<Rightarrow> bool" where
  "audit_ok W s \<longleftrightarrow> as_inv (wo_audit W) (ap_audit (sv_app s)) \<and> ed_sk_ok (wo_ed W) (ap_signing_key (sv_app s))
     \<and> (\<forall>r \<in> set (sv_trail s). verify_with_key (wo_ed W) (wo_audit W) r (ed_public (wo_ed W) (ap_signing_key (sv_app s))))"

text \<open>A registered campaign has a plan that its runs can be validated with.\<close>

definition plans_ok :: "campaign_catalog \<Rightarrow> bool" where
  "plans_ok cs \<longleftrightarrow> catalog_inv cs \<and> (\<forall>c \<in> set cs. ca_steps c \<noteq> [] \<and> valid_plan (ca_steps c))"

definition campaigns_ok :: "world \<Rightarrow> server \<Rightarrow> bool" where
  "campaigns_ok W s \<longleftrightarrow> pe_inv (wo_campaigns_json W) campaign_seed plans_ok (sv_campaigns s)"

definition crun_id :: "string \<Rightarrow> nat \<Rightarrow> string" where
  "crun_id ns n = ''crun_'' @ ns @ ''_'' @ show_hex16 n"

text \<open>The identifiers this process has yet to hand out are not in the store.\<close>

definition runs_ok :: "world \<Rightarrow> server \<Rightarrow> bool" where
  "runs_ok W s \<longleftrightarrow> pe_inv (wo_campaign_runs_json W) default_store store_ok (sv_campaign_runs s)
     \<and> (\<forall>n. ap_counter (sv_app s) \<le> n \<longrightarrow> n < 2 ^ 64 \<longrightarrow>
          store_get (pe_value (sv_campaign_runs s)) (crun_id (ap_namespace (sv_app s)) n) = None)"

text \<open>A job runs as the role that owns it, and that role may run its scenario.\<close>

definition job_authorized :: "(string \<Rightarrow> category option) \<Rightarrow> scheduled_job \<Rightarrow> bool" where
  "job_authorized cat j \<longleftrightarrow> (\<exists>c. cat (sj_scenario_id j) = Some c \<and> can (sj_role j) (required_capability c))"

definition jobs_ok :: "(string \<Rightarrow> category option) \<Rightarrow> schedule_catalog \<Rightarrow> bool" where
  "jobs_ok cat c \<longleftrightarrow> sched_inv c \<and> (\<forall>j \<in> set (sc_jobs c). job_authorized cat j)"

definition schedules_ok :: "world \<Rightarrow> server \<Rightarrow> bool" where
  "schedules_ok W s \<longleftrightarrow> pe_inv (wo_schedules_json W) schedule_seed (jobs_ok (entry_category s)) (sv_schedules s)"

definition server_inv :: "world \<Rightarrow> server \<Rightarrow> bool" where
  "server_inv W s \<longleftrightarrow> audit_ok W s \<and> agree (wo_url W) (sv_registry s) \<and> campaigns_ok W s \<and> runs_ok W s
     \<and> schedules_ok W s \<and> entry_category s [] = None"

section \<open>Schedules\<close>

lemma feedback_job_owner:
  "sj_role (fst (feedback_job r j)) = sj_role j" "sj_scenario_id (fst (feedback_job r j)) = sj_scenario_id j"
  by (auto simp: feedback_job_def Let_def split: option.splits if_splits)

lemma job_change_owner: "sj_role (job_change x j) = sj_role j" "sj_scenario_id (job_change x j) = sj_scenario_id j"
  by (auto simp: job_change_def claimed_def outcome_job_def Let_def feedback_job_owner split: sched_op.splits)

lemma jobs_ok_step:
  assumes "jobs_ok cat c" and "\<And>g t role q. x = SoCreate g t role q \<Longrightarrow> job_authorized cat (new_job g t role q)"
  shows "jobs_ok cat (sched_step x c)"
proof -
  have inv: "sched_inv c" using assms(1) by (simp add: jobs_ok_def)
  then have dist: "distinct (map sj_id (sc_jobs c))" by (simp add: sched_inv_def)
  have "job_authorized cat (job_change x j) = job_authorized cat j" for j
    by (simp add: job_authorized_def job_change_owner)
  with assms show ?thesis
    using sched_inv_step [OF inv] by (auto simp: jobs_ok_def sched_step_jobs [OF dist] split: sched_op.splits if_splits)
qed

lemma keeps_step:
  assumes "\<And>c r c'. change c = (Inr r, c') \<Longrightarrow> c' = c \<or> (\<exists>x. c' = sched_step x c
      \<and> (\<forall>g t role q. x = SoCreate g t role q \<longrightarrow> job_authorized cat (new_job g t role q)))"
  shows "keeps (jobs_ok cat) change"
  unfolding keeps_def
proof (intro allI impI)
  fix c r c' assume "jobs_ok cat c" "change c = (Inr r, c')"
  with assms [of c r c'] jobs_ok_step [of cat c] show "jobs_ok cat c'" by blast
qed

lemma schedule_changes_keep:
  "keeps (jobs_ok cat) (feedback_change r)"
  "keeps (jobs_ok cat) (delete_change i)"
  "keeps (jobs_ok cat) (toggle_change cat' role i b)"
  "keeps (jobs_ok cat) recover_schedules_change"
  "job_authorized cat (new_job g t role q) \<Longrightarrow> keeps (jobs_ok cat) (create_change (new_job g t role q))"
proof -
  show "keeps (jobs_ok cat) (feedback_change r)"
    by (rule keeps_step) (auto simp: feedback_change_def intro!: exI [of _ "SoFeedback r"])
  show "keeps (jobs_ok cat) (delete_change i)"
    by (rule keeps_step) (auto simp: delete_change_def split: prod.splits intro!: exI [of _ "SoDelete i"])
  show "keeps (jobs_ok cat) (toggle_change cat' role i b)"
    by (rule keeps_step) (auto simp: toggle_change_def split: prod.splits if_splits intro!: exI [of _ "SoEnable i b"])
  show "keeps (jobs_ok cat) recover_schedules_change"
    by (rule keeps_step) (auto simp: recover_schedules_change_def intro!: exI [of _ "SoRecover"])
  assume "job_authorized cat (new_job g t role q)"
  then show "keeps (jobs_ok cat) (create_change (new_job g t role q))"
    by (intro keeps_step) (auto intro!: exI [of _ "SoCreate g t role q"])
qed

lemma pe_keeps:
  assumes "json_ok C" and "pe_inv C d ok p" and "keeps ok change" and "pe_update C change io p = (r, p')"
  shows "pe_inv C d ok p'"
  using pe_update_inv [OF assms(1,2), of change io] assms(3,4) by (auto simp: keeps_def)

section \<open>The audit trail\<close>

lemma upsert_member: "x \<in> set (upsert r t) \<Longrightarrow> x = r \<or> x \<in> set t"
  by (auto simp: upsert_def split: option.splits dest!: subsetD [OF set_update_subset_insert])

text \<open>What a handler may do to the trail: publish a record its key signed, or nothing.\<close>

lemma audit_ok_publish:
  assumes "libs_ok W" and "audit_ok W s" and "ar_signed (wo_ed W) (wo_audit W) (ap_signing_key (sv_app s)) r = Inr r'"
    and "ap_audit (sv_app s') = publish (wo_audit W) r' (ap_audit (sv_app s))"
    and "ap_signing_key (sv_app s') = ap_signing_key (sv_app s)"
  shows "audit_ok W s'"
proof -
  have E: "ed_correct (wo_ed W)" "codec_ok (wo_audit W)" using assms(1) by (simp_all add: libs_ok_def)
  have t: "sv_trail s' = upsert r' (sv_trail s)" using assms(4) by (simp add: publish_def)
  note signed_record_verifies [OF E(1) assms(3)]
  then show ?thesis
    using assms(2,4,5) publish_inv [OF E(2)] upsert_member [of _ r' "sv_trail s"] unfolding audit_ok_def t by auto
qed

lemma audit_ok_cong:
  "ap_audit (sv_app s') = ap_audit (sv_app s) \<Longrightarrow> ap_signing_key (sv_app s') = ap_signing_key (sv_app s)
     \<Longrightarrow> audit_ok W s' = audit_ok W s"
  by (simp add: audit_ok_def)

definition signs :: "world \<Rightarrow> bytes \<Rightarrow> audit_store \<Rightarrow> audit_store \<Rightarrow> bool" where
  "signs W key a a' \<longleftrightarrow> a' = a \<or> (\<exists>r r'. ar_signed (wo_ed W) (wo_audit W) key r = Inr r' \<and> a' = publish (wo_audit W) r' a)"

lemma audit_ok_signs:
  assumes "libs_ok W" and "audit_ok W s" and "signs W (ap_signing_key (sv_app s)) (ap_audit (sv_app s)) (ap_audit (sv_app s'))"
    and "ap_signing_key (sv_app s') = ap_signing_key (sv_app s)"
  shows "audit_ok W s'"
  using assms audit_ok_publish [OF assms(1,2)] by (auto simp: signs_def audit_ok_def)

text \<open>What a start and the end of a run leave alone.\<close>

definition same_plane :: "app \<Rightarrow> app \<Rightarrow> bool" where
  "same_plane app app' \<longleftrightarrow> ap_signing_key app' = ap_signing_key app \<and> ap_registry app' = ap_registry app
     \<and> ap_namespace app' = ap_namespace app \<and> ap_counter app' = ap_counter app"

lemma start_signs:
  assumes "as_inv (wo_audit W) (ap_audit app)" and "untorn io"
    and "start_scenario (wo_ed W) (wo_audit W) L now io entry role target timeout_sec rid app = (r, app')"
  shows "signs W (ap_signing_key app) (ap_audit app) (ap_audit app') \<and> same_plane app app'"
proof (cases "admit (wo_ed W) (wo_audit W) L now app entry role target timeout_sec rid")
  case (Inl e)
  with assms(3) show ?thesis by (simp add: start_scenario_def signs_def same_plane_def)
next
  case (Inr ad)
  then obtain x where x: "ar_signed (wo_ed W) (wo_audit W) (ap_signing_key app) x = Inr (ad_record ad)"
    using admit_Inr by blast
  obtain ar a where a: "as_append (wo_audit W) (ad_record ad) io (ap_audit app) = (ar, a)" by fastforce
  have "\<And>n. io \<noteq> IoTorn n" using assms(2) by (simp add: untorn_def)
  from as_append_cases [OF assms(1) this a] x have "signs W (ap_signing_key app) (ap_audit app) a"
    by (auto simp: signs_def)
  with assms(3) Inr a show ?thesis
    by (cases ar) (auto simp: start_scenario_def same_plane_def)
qed

lemma finish_signs:
  assumes "as_inv (wo_audit W) (ap_audit app)" and "untorn io"
    and "finish_run (wo_ed W) (wo_audit W) T now io ad rid out app = (r, app')"
  shows "signs W (ap_signing_key app) (ap_audit app) (ap_audit app') \<and> same_plane app app'"
proof -
  let ?f = "\<lambda>x. case ar_signed (wo_ed W) (wo_audit W) (ap_signing_key app)
      (finished_record now (exec_mode (ad_endpoint ad)) (settle T (exec_mode (ad_endpoint ad)) out) x) of
      Inl _ \<Rightarrow> Inl ''secret key is malformed'' | Inr r' \<Rightarrow> Inr r'"
  obtain ur a where u: "as_update (wo_audit W) rid ?f io (ap_audit app) = (ur, a)" by fastforce
  have "\<And>n. io \<noteq> IoTorn n" using assms(2) by (simp add: untorn_def)
  moreover have "(case x of Inl _ \<Rightarrow> Inl m | Inr r \<Rightarrow> Inr r) = Inr v \<longleftrightarrow> x = Inr v"
    for x :: "sign_error + audit_record" and m :: string and v
    by (cases x) auto
  ultimately have "signs W (ap_signing_key app) (ap_audit app) a"
    using as_update_cases [OF assms(1) _ u] unfolding signs_def by fastforce
  with assms(3) u show ?thesis
    by (auto simp: finish_run_def Let_def same_plane_def set_live_status_def split: sum.splits option.splits)
qed

section \<open>Campaigns and their runs\<close>

lemma valid_plan_Cons:
  "valid_plan (x # xs) \<longleftrightarrow> cs_order x \<noteq> 0 \<and> cs_scenario_id x \<noteq> []
     \<and> (xs \<noteq> [] \<longrightarrow> cs_order x < cs_order (hd xs)) \<and> valid_plan xs"
proof -
  let ?P = "\<lambda>ys i. cs_order (ys ! i) \<noteq> 0 \<and> cs_scenario_id (ys ! i) \<noteq> []
      \<and> \<not> (i > 0 \<and> cs_order (ys ! (i - 1)) \<ge> cs_order (ys ! i))"
  have split: "(\<forall>i < Suc n. Q i) \<longleftrightarrow> Q 0 \<and> (\<forall>i < n. Q (Suc i))" for Q n
    by (auto simp: less_Suc_eq_0_disj)
  have v: "valid_plan ys \<longleftrightarrow> (\<forall>i < length ys. ?P ys i)" for ys
    by (simp add: valid_plan_def list_all_iff Ball_def)
  have "valid_plan (x # xs) \<longleftrightarrow> ?P (x # xs) 0 \<and> (\<forall>i < length xs. ?P (x # xs) (Suc i))"
    unfolding v length_Cons by (rule split)
  moreover have "(\<forall>i < length xs. ?P (x # xs) (Suc i))
      \<longleftrightarrow> (\<forall>i < length xs. ?P xs i) \<and> (xs \<noteq> [] \<longrightarrow> cs_order x < cs_order (hd xs))"
    by (cases xs) (auto simp: nth_Cons split: nat.splits)
  ultimately show ?thesis unfolding v [of xs] by auto
qed

lemma valid_plan_Nil [simp]: "valid_plan []"
  by (simp add: valid_plan_def)

lemma check_steps_plan:
  assumes "check_steps cat role prev steps = Inr u" and "cat [] = None" and "sorted (map cs_order steps)"
    and "\<forall>p. prev = Some p \<longrightarrow> (\<forall>x \<in> set steps. p \<le> cs_order x)"
  shows "valid_plan steps \<and> (\<forall>p. prev = Some p \<longrightarrow> steps \<noteq> [] \<longrightarrow> p < cs_order (hd steps))"
  using assms
proof (induction cat role prev steps rule: check_steps.induct)
  case (2 cat role prev step steps)
  from 2(2) have c: "cs_order step \<noteq> 0" "prev \<noteq> Some (cs_order step)" "check_steps cat role (Some (cs_order step)) steps = Inr u"
    and "cat (cs_scenario_id step) \<noteq> None" by auto
  then have sid: "cs_scenario_id step \<noteq> []" using 2(3) by auto
  have "valid_plan steps \<and> (steps \<noteq> [] \<longrightarrow> cs_order step < cs_order (hd steps))"
  proof -
    have "sorted (map cs_order steps)" "\<forall>x \<in> set steps. cs_order step \<le> cs_order x" using 2(4) by auto
    with 2(1,3) c 2(2) show ?thesis by auto
  qed
  moreover have "p < cs_order step" if "prev = Some p" for p
  proof -
    have "p \<le> cs_order step" "p \<noteq> cs_order step" using 2(5) c(2) that by auto
    then show ?thesis by simp
  qed
  ultimately show ?case using c sid by (simp add: valid_plan_Cons)
qed simp

lemma register_allowed_plan:
  assumes "register_allowed W h c s = Inr ordered" and "entry_category s [] = None"
  shows "ca_steps ordered \<noteq> [] \<and> valid_plan (ca_steps ordered)"
proof -
  have o: "ordered = c\<lparr>ca_steps := sort_key cs_order (ca_steps c)\<rparr>" "ca_steps c \<noteq> []"
    and "\<exists>role. check_steps (entry_category s) role None (ca_steps ordered) = Inr ()"
    using assms(1) by (auto simp: register_allowed_def Let_def)
  then obtain role where k: "check_steps (entry_category s) role None (ca_steps ordered) = Inr ()" by blast
  have "sorted (map cs_order (ca_steps ordered))" by (simp add: o(1))
  from check_steps_plan [OF k assms(2) this] have "valid_plan (ca_steps ordered)" by simp
  moreover have "ca_steps ordered \<noteq> []"
    using o by (metis campaign.select_convs(4) campaign.surjective campaign.update_convs(4) length_0_conv length_sort)
  ultimately show ?thesis by simp
qed

lemma campaign_changes_keep:
  "ca_steps c \<noteq> [] \<and> valid_plan (ca_steps c) \<Longrightarrow> keeps plans_ok (register_change c)"
  "keeps plans_ok (deregister_change i)"
proof -
  show "keeps plans_ok (deregister_change i)"
    using deregister_inv by (fastforce simp: keeps_def deregister_change_def plans_ok_def catalog_deregister_def Let_def)
  assume c: "ca_steps c \<noteq> [] \<and> valid_plan (ca_steps c)"
  have "set (catalog_register c cs) \<subseteq> insert c (set cs)" for cs
    by (auto simp: catalog_register_def split: option.splits dest!: subsetD [OF set_update_subset_insert])
  with c show "keeps plans_ok (register_change c)"
    using register_inv by (fastforce simp: keeps_def register_change_def plans_ok_def)
qed

text \<open>Sixteen hexadecimal digits tell the identifiers of one process apart.\<close>

lemma hex_digits_inj:
  assumes "m < 16 ^ k" and "n < 16 ^ k" and "\<And>i. i < k \<Longrightarrow> m div 16 ^ i mod 16 = n div 16 ^ i mod (16 :: nat)"
  shows "m = n"
  using assms
proof (induction k arbitrary: m n)
  case (Suc k)
  have "m div 16 = n div 16"
  proof (rule Suc.IH)
    show "m div 16 < 16 ^ k" "n div 16 < 16 ^ k" using Suc.prems(1,2) by (auto simp: less_mult_imp_div_less)
    show "m div 16 div 16 ^ i mod 16 = n div 16 div 16 ^ i mod 16" if "i < k" for i
      using Suc.prems(3) [of "Suc i"] that by (simp add: div_mult2_eq [symmetric] mult.commute)
  qed
  moreover have "m mod 16 = n mod 16" using Suc.prems(3) [of 0] by simp
  ultimately show ?case by (metis div_mult_mod_eq)
qed simp

lemma hex_digit_inj:
  assumes "a < 16" and "b < 16" and "hex_digit a = hex_digit b"
  shows "a = b"
proof -
  have "(if a < 10 then 48 + a else 87 + a) = (if b < 10 then 48 + b else 87 + b)"
    using arg_cong [OF assms(3), of byte] assms(1,2) by (simp add: hex_digit_byte)
  then show ?thesis by (simp split: if_splits)
qed

lemma crun_id_inj:
  assumes "m < 2 ^ 64" and "n < 2 ^ 64" and "crun_id ns m = crun_id ns n"
  shows "m = n"
proof (rule hex_digits_inj)
  show "m < 16 ^ 16" "n < 16 ^ 16" using assms(1,2) by simp_all
  have "\<forall>i \<in> set (rev [0..<16]). hex_digit (m div 16 ^ i mod 16) = hex_digit (n div 16 ^ i mod 16)"
    using assms(3) unfolding crun_id_def show_hex16_def append_same_eq same_append_eq map_eq_conv .
  then have "hex_digit (m div 16 ^ i mod 16) = hex_digit (n div 16 ^ i mod 16)" if "i < 16" for i
    using that unfolding set_rev set_upt by simp
  then show "m div 16 ^ i mod 16 = n div 16 ^ i mod 16" if "i < 16" for i
    using hex_digit_inj that by (meson mod_less_divisor zero_less_numeral)
qed

lemma insert_get_None:
  assumes "store_get st k = None" and "k \<noteq> cr_id r"
  shows "store_get (store_insert r st) k = None"
proof -
  have "set (st_runs (store_insert r st)) \<subseteq> insert r (set (st_runs st))"
    using subseq_set [OF retain_subseq] by (fastforce simp: store_insert_def prune_def)
  with assms show ?thesis by (fastforce simp: store_get_def find_None_iff)
qed

lemma launch_change_get_None:
  assumes "store_ok st" and "launch_change resume now audit run st = (Inr res, st')" and "store_get st k = None"
    and "\<not> resume \<Longrightarrow> k \<noteq> cr_id run"
  shows "store_get st' k = None"
proof (cases resume)
  case False
  with assms insert_get_None [OF assms(3)] show ?thesis by (auto simp: launch_change_def)
next
  case True
  with assms(2) have x: "prepare_resume now audit (cr_id run) st = (res, st')"
    by (auto simp: launch_change_def split: prod.splits)
  from prepare_resume_spec [OF assms(1) x] assms(3) show ?thesis
    by (cases res; cases "k = cr_id run") auto
qed

section \<open>What a handler may replace\<close>

lemma inv_catalog [simp]: "entry_category (s\<lparr>sv_app := a\<rparr>) = entry_category s" "entry_category (s\<lparr>sv_schedules := c\<rparr>) = entry_category s"
  "entry_category (s\<lparr>sv_campaigns := p\<rparr>) = entry_category s" "entry_category (s\<lparr>sv_campaign_runs := q\<rparr>) = entry_category s"
  "entry_category (s\<lparr>sv_controls := r\<rparr>) = entry_category s" "entry_category (s\<lparr>sv_registry_disk := d\<rparr>) = entry_category s"
  by (simp_all add: entry_category_def fun_eq_iff)

lemma inv_schedules:
  "server_inv W s \<Longrightarrow> pe_inv (wo_schedules_json W) schedule_seed (jobs_ok (entry_category s)) c \<Longrightarrow> server_inv W (s\<lparr>sv_schedules := c\<rparr>)"
  by (simp add: server_inv_def audit_ok_def campaigns_ok_def runs_ok_def schedules_ok_def sv_registry_def)

lemma inv_campaigns:
  "server_inv W s \<Longrightarrow> pe_inv (wo_campaigns_json W) campaign_seed plans_ok c \<Longrightarrow> server_inv W (s\<lparr>sv_campaigns := c\<rparr>)"
  by (simp add: server_inv_def audit_ok_def campaigns_ok_def runs_ok_def schedules_ok_def sv_registry_def)

lemma inv_registry: "server_inv W s \<Longrightarrow> agree (wo_url W) r \<Longrightarrow> server_inv W (set_registry r s)"
  by (cases r) (simp add: server_inv_def audit_ok_def campaigns_ok_def runs_ok_def schedules_ok_def sv_registry_def set_registry_def)

lemma inv_controls: "server_inv W (s\<lparr>sv_controls := c\<rparr>) = server_inv W s"
  by (simp add: server_inv_def audit_ok_def campaigns_ok_def runs_ok_def schedules_ok_def sv_registry_def)

text \<open>The application state may have signed a record and handed out identifiers.\<close>

lemma inv_app:
  assumes "libs_ok W" and "server_inv W s" and "signs W (ap_signing_key (sv_app s)) (ap_audit (sv_app s)) (ap_audit app)"
    and "ap_signing_key app = ap_signing_key (sv_app s)" "ap_registry app = ap_registry (sv_app s)"
    and "ap_namespace app = ap_namespace (sv_app s)" "ap_counter (sv_app s) \<le> ap_counter app"
  shows "server_inv W (s\<lparr>sv_app := app\<rparr>)"
proof -
  have "audit_ok W (s\<lparr>sv_app := app\<rparr>)"
    by (rule audit_ok_signs [OF assms(1)]) (use assms(2-4) in \<open>simp_all add: server_inv_def\<close>)
  with assms show ?thesis
    by (simp add: server_inv_def campaigns_ok_def runs_ok_def schedules_ok_def sv_registry_def)
qed

lemma inv_audit:
  assumes "libs_ok W" and "server_inv W s" and "signs W (ap_signing_key (sv_app s)) (ap_audit (sv_app s)) a"
  shows "server_inv W (set_audit a s)"
  unfolding set_audit_def by (rule inv_app [OF assms(1,2)]) (use assms(3) in simp_all)

lemma inv_cancels:
  assumes "server_inv W s" and "only_cancels s s'"
  shows "server_inv W s'"
proof -
  obtain rs cs where s': "s' = s\<lparr>sv_app := (sv_app s)\<lparr>ap_runs := rs\<rparr>, sv_controls := cs\<rparr>"
    using assms(2) unfolding only_cancels_def by blast
  with assms(1) show ?thesis
    by (simp add: server_inv_def audit_ok_def campaigns_ok_def runs_ok_def schedules_ok_def sv_registry_def)
qed

lemma inv_runs:
  assumes "server_inv W s" and "pe_inv (wo_campaign_runs_json W) default_store store_ok c"
    and "\<And>n. ap_counter (sv_app s) \<le> n \<Longrightarrow> n < 2 ^ 64 \<Longrightarrow>
          store_get (pe_value (sv_campaign_runs s)) (crun_id (ap_namespace (sv_app s)) n) = None \<Longrightarrow>
          store_get (pe_value c) (crun_id (ap_namespace (sv_app s)) n) = None"
  shows "server_inv W (s\<lparr>sv_campaign_runs := c\<rparr>)"
  using assms by (simp add: server_inv_def audit_ok_def campaigns_ok_def runs_ok_def schedules_ok_def sv_registry_def)

section \<open>Launching a campaign run\<close>

lemma launch_http_inv:
  assumes "libs_ok W" and "server_inv W s" and "\<not> resume \<Longrightarrow> fresh_run run (pe_value (sv_campaign_runs s))"
    and "\<not> resume \<Longrightarrow> \<forall>n. ap_counter (sv_app s) \<le> n \<longrightarrow> n < 2 ^ 64 \<longrightarrow> cr_id run \<noteq> crun_id (ap_namespace (sv_app s)) n"
    and "launch_http W run resume s = (r, s')"
  shows "server_inv W s'"
proof -
  let ?cell = "sv_campaign_runs s" and ?C = "wo_campaign_runs_json W" and ?key = "crun_id (ap_namespace (sv_app s))"
  let ?change = "launch_change resume (wo_now W) (trail_get (sv_trail s)) run"
  have inv: "pe_inv ?C default_store store_ok ?cell" and ok: "store_ok (pe_value ?cell)" and C: "json_ok ?C"
    using assms(1,2) by (simp_all add: server_inv_def runs_ok_def pe_inv_def libs_ok_def)
  obtain res act c where l: "launch ?C resume (wo_now W) (trail_get (sv_trail s)) (wo_write W) run (map fst (sv_controls s)) ?cell = (res, act, c)"
    by (cases "launch ?C resume (wo_now W) (trail_get (sv_trail s)) (wo_write W) run (map fst (sv_controls s)) ?cell") auto
  have c: "c = ?cell \<or> c = snd (pe_update ?C ?change (wo_write W) ?cell)"
    using l by (auto simp: launch_def split: if_splits prod.splits sum.splits resume_error.splits)
  have "server_inv W (s\<lparr>sv_campaign_runs := c\<rparr>)"
  proof (cases "c = ?cell")
    case True
    then show ?thesis using assms(2) by simp
  next
    case False
    with c obtain ures where u: "pe_update ?C ?change (wo_write W) ?cell = (ures, c)" by (metis prod.collapse)
    show ?thesis
    proof (rule inv_runs [OF assms(2)])
      show "pe_inv ?C default_store store_ok c"
        using pe_update_inv [OF C inv, of ?change "wo_write W"] launch_change_ok [OF ok assms(3)] u by auto
      show "store_get (pe_value c) (?key n) = None"
        if n: "ap_counter (sv_app s) \<le> n" "n < 2 ^ 64" "store_get (pe_value ?cell) (?key n) = None" for n
        using u
      proof (cases rule: pe_update_cases)
        case 1
        with n show ?thesis by simp
      next
        case (2 x v)
        from launch_change_get_None [OF ok 2(1) n(3)] assms(4) n(1,2) 2(3) show ?thesis by (metis (full_types))
      qed
    qed
  qed
  moreover have "s' = s\<lparr>sv_campaign_runs := c\<rparr> \<or> (\<exists>k. s' = s\<lparr>sv_campaign_runs := c, sv_controls := k\<rparr>)"
    using assms(5) l by (cases res) (auto simp: launch_http_def)
  ultimately show ?thesis using inv_controls by auto
qed

section \<open>Every request keeps the invariant\<close>

lemma guarded_inv:
  assumes "server_inv W s" and "\<And>a. g = Inr a \<Longrightarrow> server_inv W (snd (k a))"
  shows "server_inv W (snd (guarded g k s))"
  using assms by (cases g) (simp_all add: guarded_def)

text \<open>A handler that answers by the result of a transaction and stores its state.\<close>

lemma snd_transaction [simp]:
  "snd (case f of (Inl e, c) \<Rightarrow> (g e c, S c) | (Inr x, c) \<Rightarrow> (g' x c, S c)) = S (snd f)"
  by (simp split: prod.split sum.split)

text \<open>The registry: its changes, and probes between them.\<close>

lemma probes_agree: "agree L r \<Longrightarrow> agree L (r\<lparr>rs_data := fold probe_step xs (rs_data r)\<rparr>)"
proof (induction xs arbitrary: r)
  case (Cons x xs)
  from reg_step_agree [OF Cons.prems, of "OProbe x"] Cons.IH [of "r\<lparr>rs_data := probe_step x (rs_data r)\<rparr>"]
  show ?case by simp
qed simp

lemma registry_requests_inv:
  assumes "server_inv W s"
  shows "server_inv W (snd (register_runner W h p s))" and "server_inv W (snd (set_runner_maintenance W h i b s))"
    and "server_inv W (snd (deregister_runner W h i s))"
proof -
  have "agree (wo_url W) (sv_registry s)" using assms by (simp add: server_inv_def)
  note step = inv_registry [OF assms reg_step_agree [OF this]]
  show "server_inv W (snd (register_runner W h p s))"
    unfolding register_runner_def using step [of "ORegister _ _ _"] by (intro guarded_inv [OF assms]) simp
  show "server_inv W (snd (set_runner_maintenance W h i b s))"
    unfolding set_runner_maintenance_def using step [of "ODrain _ _ _ _"] by (intro guarded_inv [OF assms]) simp
  show "server_inv W (snd (deregister_runner W h i s))"
    unfolding deregister_runner_def using step [of "ODeregister _ _ _"] by (intro guarded_inv [OF assms]) simp
qed

lemma ping_inv:
  assumes "server_inv W s"
  shows "server_inv W (snd (ping_runner W h i s))"
  unfolding ping_runner_def
proof (rule guarded_inv [OF assms])
  let ?d = "rs_data (sv_registry s)"
  have "agree (wo_url W) (sv_registry s)" using assms by (simp add: server_inv_def)
  note keep = inv_registry [OF assms probes_agree [OF this]]
  obtain found d where b: "begin_probe i ?d = (found, d)" by fastforce
  show "server_inv W (snd (case begin_probe i ?d of
           (None, d) \<Rightarrow> (Inl (ApiNotFound (''runner not found: '' @ i)), s)
         | (Some probe, d) \<Rightarrow>
             let live = fold probe_step (wo_probes W) d in
             case wo_ping W (rr_endpoint (pb_record probe)) of
               Inr reply \<Rightarrow>
                 (case update_heartbeat probe (pg_healthy reply) (pg_cpu_usage_pct reply) (pg_version reply)
                         (wo_epoch_secs W) live of
                    (applied, d') \<Rightarrow> (Inr (applied, reply), set_registry ((sv_registry s)\<lparr>rs_data := d'\<rparr>) s))
             | Inl status \<Rightarrow>
                 (Inl (ApiBadGateway (''runner ping failed: '' @ status)),
                  set_registry ((sv_registry s)\<lparr>rs_data := snd (mark_unresponsive probe live)\<rparr>) s)))"
  proof (cases found)
    case None
    with b assms show ?thesis by simp
  next
    case (Some probe)
    let ?live = "fold probe_step (wo_probes W) d"
    show ?thesis
    proof (cases "wo_ping W (rr_endpoint (pb_record probe))")
      case (Inl e)
      from keep [of "PBegin i # wo_probes W @ [PMark probe]"] b
      have "server_inv W (set_registry ((sv_registry s)\<lparr>rs_data := snd (mark_unresponsive probe ?live)\<rparr>) s)" by simp
      with b Some Inl show ?thesis by (simp add: Let_def)
    next
      case (Inr reply)
      let ?beat = "update_heartbeat probe (pg_healthy reply) (pg_cpu_usage_pct reply) (pg_version reply) (wo_epoch_secs W) ?live"
      from keep [of "PBegin i # wo_probes W @ [PHeartbeat probe (pg_healthy reply) (pg_cpu_usage_pct reply) (pg_version reply) (wo_epoch_secs W)]"] b
      have "server_inv W (set_registry ((sv_registry s)\<lparr>rs_data := snd ?beat\<rparr>) s)" by simp
      with b Some Inr show ?thesis by (simp add: Let_def split_def)
    qed
  qed
qed

text \<open>Campaigns and schedules: one transaction each.\<close>

lemma pe_keeps_snd: "json_ok C \<Longrightarrow> pe_inv C d ok p \<Longrightarrow> keeps ok change \<Longrightarrow> pe_inv C d ok (snd (pe_update C change io p))"
  using pe_keeps by (metis prod.collapse)

lemma campaign_requests_inv:
  assumes "libs_ok W" and "server_inv W s"
  shows "server_inv W (snd (register_campaign W h c s))" and "server_inv W (snd (delete_campaign W h i s))"
proof -
  have j: "json_ok (wo_campaigns_json W)" and inv: "pe_inv (wo_campaigns_json W) campaign_seed plans_ok (sv_campaigns s)"
    and cat: "entry_category s [] = None"
    using assms by (simp_all add: libs_ok_def server_inv_def campaigns_ok_def)
  note keep = inv_campaigns [OF assms(2) pe_keeps_snd [OF j inv]]
  show "server_inv W (snd (delete_campaign W h i s))"
    unfolding delete_campaign_def using keep [OF campaign_changes_keep(2)] by (intro guarded_inv [OF assms(2)]) simp
  show "server_inv W (snd (register_campaign W h c s))"
    unfolding register_campaign_def
    using keep [OF campaign_changes_keep(1) [OF register_allowed_plan [OF _ cat]]] by (intro guarded_inv [OF assms(2)]) simp
qed

lemma schedule_requests_inv:
  assumes "libs_ok W" and "server_inv W s"
  shows "server_inv W (snd (delete_schedule W h i s))" and "server_inv W (snd (toggle_schedule W h i b s))"
    and "ap_counter (sv_app s) + 1 < 2 ^ 64 \<Longrightarrow> server_inv W (snd (create_schedule W h q s))"
proof -
  have j: "json_ok (wo_schedules_json W)" and inv: "pe_inv (wo_schedules_json W) schedule_seed (jobs_ok (entry_category s)) (sv_schedules s)"
    using assms by (simp_all add: libs_ok_def server_inv_def schedules_ok_def)
  note keep = inv_schedules [OF assms(2) pe_keeps_snd [OF j inv]]
  show "server_inv W (snd (delete_schedule W h i s))"
    unfolding delete_schedule_def using keep [OF schedule_changes_keep(2)] by (intro guarded_inv [OF assms(2)]) simp
  show "server_inv W (snd (toggle_schedule W h i b s))"
    unfolding toggle_schedule_def using keep [OF schedule_changes_keep(3)] by (intro guarded_inv [OF assms(2)]) simp
  assume c: "ap_counter (sv_app s) + 1 < 2 ^ 64"
  obtain g app where n: "next_run_id (sv_app s) = (g, app)" by fastforce
  have "server_inv W (s\<lparr>sv_app := app\<rparr>)"
    by (rule inv_app [OF assms]) (use n c in \<open>auto simp: next_run_id_def signs_def\<close>)
  note keep' = inv_schedules [OF this pe_keeps_snd [OF j], simplified]
  show "server_inv W (snd (create_schedule W h q s))"
    unfolding create_schedule_def
  proof (rule guarded_inv [OF assms(2)])
    fix role assume a: "create_allowed W h q s = Inr role"
    then have "job_authorized (entry_category s) (new_job g (wo_now W) role q)"
      by (auto simp: create_allowed_def job_authorized_def new_job_def)
    from keep' [OF inv schedule_changes_keep(5) [OF this]]
    show "server_inv W (snd (case next_run_id (sv_app s) of (generation, app) \<Rightarrow>
          let job = new_job generation (wo_now W) role q in
          case pe_update (wo_schedules_json W) (create_change job) (wo_write W) (sv_schedules s) of
            (Inl e, c) \<Rightarrow> (Inl (ApiInternal (''schedule persistence: '' @ e)), s\<lparr>sv_app := app, sv_schedules := c\<rparr>)
          | (Inr created, c) \<Rightarrow>
              (if created then Inr job
               else Inl (ApiUnprocessable ''schedule id already exists; delete it before replacement''),
               s\<lparr>sv_app := app, sv_schedules := c\<rparr>)))"
      by (simp add: n Let_def)
  qed
qed

text \<open>Cancellation only cancels.\<close>

lemma cancel_requests_inv:
  assumes "server_inv W s"
  shows "server_inv W (snd (cancel_run W h i s))" and "server_inv W (snd (cancel_campaign_run W h i s))"
    and "server_inv W (snd (abort_all W h s))"
proof -
  show "server_inv W (snd (cancel_run W h i s))"
    unfolding cancel_run_def using inv_cancels [OF assms cancel_scenario_only] assms
    by (intro guarded_inv [OF assms]) simp
  obtain b t where r: "request_cancel i s = (b, t)" by fastforce
  show "server_inv W (snd (cancel_campaign_run W h i s))"
    unfolding cancel_campaign_run_def using inv_cancels [OF assms conjunct1 [OF request_cancel_only [OF r]]]
    by (intro guarded_inv [OF assms]) (simp add: r)
  show "server_inv W (snd (abort_all W h s))"
    unfolding abort_all_def
  proof (rule guarded_inv [OF assms])
    fix role
    let ?mine = "\<lambda>a. can role (required_capability (av_category a))"
    let ?s1 = "set_runs (map (\<lambda>(i, a). (i, if ?mine a then active_run_cancel a else a))) s"
    obtain ids s2 where f: "fold (abort_one role) (map fst (sv_controls ?s1)) ([], ?s1) = (ids, s2)" by fastforce
    have "server_inv W s2"
      using inv_cancels [OF inv_cancels [OF assms abort_runs_only] conjunct1 [OF abort_fold [OF f]]] by simp
    with f show "server_inv W (snd (let mine = ?mine;
              requested = map fst (filter (\<lambda>(i, a). mine a) (sv_runs s));
              s1 = set_runs (map (\<lambda>(i, a). (i, if mine a then active_run_cancel a else a))) s;
              (campaigns, s2) = fold (abort_one role) (map fst (sv_controls s1)) ([], s1)
          in (Inr (requested, campaigns), s2)))"
      by (simp add: Let_def)
  qed
qed

text \<open>Runs: what they write to the trail is signed.\<close>

lemma feedback_inv:
  assumes "libs_ok W" and "server_inv W s" and "untorn (wo_audit_io W)"
  shows "server_inv W (snd (run_feedback W h i p s))"
proof -
  obtain res s' where r: "run_feedback W h i p s = (res, s')" by fastforce
  have a: "as_inv (wo_audit W) (ap_audit (sv_app s))" using assms(2) by (simp add: server_inv_def audit_ok_def)
  from a assms(3) r have "server_inv W s'"
  proof (cases rule: run_feedback_cases)
    case 1
    then show ?thesis using assms(2) by simp
  next
    case (2 role old rec c q)
    let ?t = "set_audit (publish (wo_audit W) rec (ap_audit (sv_app s))) s"
    have "signs W (ap_signing_key (sv_app s)) (ap_audit (sv_app s)) (publish (wo_audit W) rec (ap_audit (sv_app s)))"
      using 2(6) unfolding signs_def by blast
    then have t: "server_inv W ?t" by (rule inv_audit [OF assms(1,2)])
    have "json_ok (wo_schedules_json W)" "pe_inv (wo_schedules_json W) schedule_seed (jobs_ok (entry_category s)) (sv_schedules s)"
      using assms(1,2) by (simp_all add: libs_ok_def server_inv_def schedules_ok_def)
    from pe_keeps [OF this schedule_changes_keep(1) 2(7)] inv_schedules [OF t, of c] 2(8) show ?thesis
      by (simp add: set_audit_def)
  qed
  with r show ?thesis by simp
qed

lemma scenario_inv:
  assumes "libs_ok W" and "server_inv W s" and "untorn (wo_audit_io W)" and "untorn (wo_finish_io W)"
    and "ap_counter (sv_app s) + 1 < 2 ^ 64"
  shows "server_inv W (snd (run_scenario W h i body s))"
  unfolding run_scenario_def
proof (rule guarded_inv [OF assms(2)])
  fix x :: "role \<times> run_payload \<times> scenario_entry"
  obtain role payload entry where x: "x = (role, payload, entry)" by (cases x)
  obtain rid app where n: "next_run_id (sv_app s) = (rid, app)" by fastforce
  obtain r app1 where st: "start_scenario (wo_ed W) (wo_audit W) (wo_manifest W) (wo_now W) (wo_audit_io W) entry role
                 (rp_target_override payload) (rp_timeout_sec payload) rid app = (r, app1)" by fastforce
  have app: "app = (sv_app s)\<lparr>ap_counter := ap_counter (sv_app s) + 1\<rparr>" using n assms(5) by (auto simp: next_run_id_def)
  have a: "as_inv (wo_audit W) (ap_audit app)" using assms(2) by (simp add: app server_inv_def audit_ok_def)
  from start_signs [OF a assms(3) st] have 1: "signs W (ap_signing_key app) (ap_audit app) (ap_audit app1)" "same_plane app app1"
    by simp_all
  have s1: "server_inv W (s\<lparr>sv_app := app1\<rparr>)"
    by (rule inv_app [OF assms(1,2)]) (use 1 in \<open>simp_all add: app same_plane_def\<close>)
  have s2: "server_inv W (s\<lparr>sv_app := app2\<rparr>)"
    if fin: "finish_run (wo_ed W) (wo_audit W) (wo_status_text W) (wo_later W) (wo_finish_io W) ad rid out app1 = (r2, app2)"
    for ad out r2 app2
  proof -
    have "as_inv (wo_audit W) (ap_audit app1)" using s1 by (simp add: server_inv_def audit_ok_def)
    from finish_signs [OF this assms(4) fin]
    have "signs W (ap_signing_key app1) (ap_audit app1) (ap_audit app2)" "same_plane app1 app2" by simp_all
    then have "server_inv W ((s\<lparr>sv_app := app1\<rparr>)\<lparr>sv_app := app2\<rparr>)"
      by (intro inv_app [OF assms(1) s1]) (simp_all add: same_plane_def)
    then show ?thesis by simp
  qed
  show "server_inv W (snd (case x of (role, payload, entry) \<Rightarrow>
          case next_run_id (sv_app s) of (run_id, app) \<Rightarrow>
          case start_scenario (wo_ed W) (wo_audit W) (wo_manifest W) (wo_now W) (wo_audit_io W) entry role
                 (rp_target_override payload) (rp_timeout_sec payload) run_id app of
            (Inl e, app) \<Rightarrow> (Inl (api_of_exec e), s\<lparr>sv_app := app\<rparr>)
          | (Inr ad, app) \<Rightarrow>
              if rp_background payload then (Inr (RunQueued run_id), s\<lparr>sv_app := app\<rparr>)
              else (case finish_run (wo_ed W) (wo_audit W) (wo_status_text W) (wo_later W) (wo_finish_io W) ad run_id
                           (wo_ended W ad) app of
                      (Inl e, app) \<Rightarrow> (Inl (api_of_exec e), s\<lparr>sv_app := app\<rparr>)
                    | (Inr record, app) \<Rightarrow> (Inr (RunFinished run_id entry role record), s\<lparr>sv_app := app\<rparr>))))"
  proof (cases r)
    case (Inl e)
    with s1 show ?thesis by (simp add: x n st)
  next
    case (Inr ad)
    obtain r2 app2 where fin: "finish_run (wo_ed W) (wo_audit W) (wo_status_text W) (wo_later W) (wo_finish_io W) ad rid
        (wo_ended W ad) app1 = (r2, app2)" by fastforce
    from s1 s2 [OF fin] show ?thesis by (cases r2) (simp_all add: x n st Inr fin)
  qed
qed

text \<open>Campaign runs: a registered plan makes a run that is ready, under an identifier nobody has.\<close>

lemma campaign_plan:
  assumes "plans_ok cs" and "catalog_get cs i = Some c"
  shows "ca_steps c \<noteq> [] \<and> valid_plan (ca_steps c)"
  using assms by (auto simp: plans_ok_def catalog_get_def dest!: find_SomeD)

lemma resume_inv:
  assumes "libs_ok W" and "server_inv W s"
  shows "server_inv W (snd (resume_campaign_run W h i s))"
  unfolding resume_campaign_run_def
proof (rule guarded_inv [OF assms(2)])
  fix run
  obtain r s' where "launch_http W run True s = (r, s')" by fastforce
  from launch_http_inv [OF assms _ _ this] this show "server_inv W (snd (launch_http W run True s))" by simp
qed

lemma run_campaign_inv:
  assumes "libs_ok W" and "server_inv W s" and "ap_counter (sv_app s) + 1 < 2 ^ 64"
  shows "server_inv W (snd (run_campaign W h i body s))"
  unfolding run_campaign_def
proof (rule guarded_inv [OF assms(2)], goal_cases)
  case (1 x)
  obtain role payload c where x: "x = (role, payload, c)" by (cases x)
  have c: "catalog_get (pe_value (sv_campaigns s)) i = Some c" using 1 by (simp add: x)
  have "plans_ok (pe_value (sv_campaigns s))" using assms(2) by (simp add: server_inv_def campaigns_ok_def pe_inv_def)
  note plan = campaign_plan [OF this c]
  obtain rid app where n: "next_campaign_run_id (sv_app s) = (rid, app)" by fastforce
  have rid: "rid = crun_id (ap_namespace (sv_app s)) (ap_counter (sv_app s))"
    and app: "app = (sv_app s)\<lparr>ap_counter := ap_counter (sv_app s) + 1\<rparr>"
    using n assms(3) by (auto simp: next_campaign_run_id_def crun_id_def)
  let ?run = "new_campaign_run rid c role payload (wo_now W)" and ?s1 = "s\<lparr>sv_app := app\<rparr>"
  have s1: "server_inv W ?s1" by (rule inv_app [OF assms(1,2)]) (simp_all add: app signs_def)
  have "store_get (pe_value (sv_campaign_runs s)) rid = None"
    using assms(2,3) by (simp add: server_inv_def runs_ok_def rid)
  moreover have "run_ok ?run"
    using plan by (simp add: run_ok_def new_campaign_run_def known_status_def valid_progress_def rid crun_id_def QUEUED_def COMPLETED_def)
  ultimately have fresh: "fresh_run ?run (pe_value (sv_campaign_runs ?s1))"
    by (simp add: fresh_run_def worker_ready_def new_campaign_run_def)
  have new: "\<forall>m. ap_counter (sv_app ?s1) \<le> m \<longrightarrow> m < 2 ^ 64 \<longrightarrow> cr_id ?run \<noteq> crun_id (ap_namespace (sv_app ?s1)) m"
  proof (intro allI impI notI)
    fix m assume m: "ap_counter (sv_app ?s1) \<le> m" "m < 2 ^ 64" "cr_id ?run = crun_id (ap_namespace (sv_app ?s1)) m"
    then have "ap_counter (sv_app s) = m"
      using assms(3) by (intro crun_id_inj [of _ _ "ap_namespace (sv_app s)"]) (simp_all add: app rid new_campaign_run_def)
    with m(1) show False by (simp add: app)
  qed
  obtain r s2 where l: "launch_http W ?run False ?s1 = (r, s2)" by fastforce
  have s2: "server_inv W s2" by (rule launch_http_inv [OF assms(1) s1 _ _ l]) (use fresh new in blast)+
  show ?case
    using s1 s2 by (cases r) (simp_all add: x n l Let_def split: sum.split)
qed

text \<open>The identifier counter moves by at most one, and a part with a file keeps it.\<close>

definition on_disk :: "server \<Rightarrow> bool" where
  "on_disk s \<longleftrightarrow> sv_registry_disk s \<noteq> None \<and> as_file (ap_audit (sv_app s)) \<noteq> None
     \<and> pe_disk (sv_campaign_runs s) \<noteq> None \<and> pe_disk (sv_campaigns s) \<noteq> None \<and> pe_disk (sv_schedules s) \<noteq> None"

definition stays :: "server \<Rightarrow> server \<Rightarrow> bool" where
  "stays s s' \<longleftrightarrow> ap_counter (sv_app s') \<le> Suc (ap_counter (sv_app s)) \<and> on_disk s' = on_disk s"

lemma stays_refl [simp]: "stays s s"
  by (simp add: stays_def)

lemma stays_guarded: "(\<And>a. g = Inr a \<Longrightarrow> stays s (snd (k a))) \<Longrightarrow> stays s (snd (guarded g k s))"
  by (cases g) (simp_all add: guarded_def)

lemma files_stay [simp]:
  "pe_disk (snd (pe_update C change io p)) = None \<longleftrightarrow> pe_disk p = None"
  "as_file (snd (as_update J i f aio a)) = None \<longleftrightarrow> as_file a = None"
  "as_file (snd (as_append J r aio a)) = None \<longleftrightarrow> as_file a = None"
  "rs_disk (snd (registry_register L rec ok ps d)) = None \<longleftrightarrow> rs_disk d = None"
  "rs_disk (snd (registry_set_draining i b ok ps d)) = None \<longleftrightarrow> rs_disk d = None"
  "rs_disk (snd (registry_deregister i ok ps d)) = None \<longleftrightarrow> rs_disk d = None"
proof -
  show "pe_disk (snd (pe_update C change io p)) = None \<longleftrightarrow> pe_disk p = None"
    by (auto simp: pe_update_def split: prod.split sum.split option.split write_outcome.split)
  have persist: "as_file (snd (persist J r aio a)) = None \<longleftrightarrow> as_file a = None" for r
    by (simp add: persist_def split: prod.split option.split)
  show "as_file (snd (as_append J r aio a)) = None \<longleftrightarrow> as_file a = None"
    using persist [of r] by (cases "persist J r aio a") (auto simp: as_append_def split: sum.split)
  show "as_file (snd (as_update J i f aio a)) = None \<longleftrightarrow> as_file a = None"
  proof (cases "trail_get (as_trail a) i")
    case (Some old)
    show ?thesis
    proof (cases "f old")
      case (Inr rec)
      with Some persist [of rec] show ?thesis
        by (cases "persist J rec aio a") (auto simp: as_update_def split: sum.split)
    qed (simp add: as_update_def Some)
  qed (simp add: as_update_def)
  have update: "rs_disk (snd (registry_update f ok ps d)) = None \<longleftrightarrow> rs_disk d = None" for f :: "registry_data \<Rightarrow> 'r \<times> registry_data"
    by (simp add: registry_update_def Let_def split_def)
  show "rs_disk (snd (registry_set_draining i b ok ps d)) = None \<longleftrightarrow> rs_disk d = None"
    "rs_disk (snd (registry_deregister i ok ps d)) = None \<longleftrightarrow> rs_disk d = None"
    by (simp_all add: registry_set_draining_def registry_deregister_def update)
  show "rs_disk (snd (registry_register L rec ok ps d)) = None \<longleftrightarrow> rs_disk d = None"
    by (simp add: registry_register_def update split: sum.split)
qed

lemma registry_disk [simp]: "rs_disk (sv_registry s) = sv_registry_disk s" "sv_registry_disk (set_registry r s) = rs_disk r"
  by (simp_all add: sv_registry_def set_registry_def)

lemma stays_cancels: "only_cancels s s' \<Longrightarrow> stays s s'"
proof -
  assume "only_cancels s s'"
  then obtain rs cs where s': "s' = s\<lparr>sv_app := (sv_app s)\<lparr>ap_runs := rs\<rparr>, sv_controls := cs\<rparr>"
    unfolding only_cancels_def by blast
  then show "stays s s'" by (simp add: stays_def on_disk_def)
qed

lemma launch_http_app: "sv_app (snd (launch_http W run resume s)) = sv_app s"
  by (simp add: launch_http_def split: prod.split sum.split)

lemma launch_http_stays: "stays s (snd (launch_http W run resume s))"
proof -
  obtain r act c where l: "launch (wo_campaign_runs_json W) resume (wo_now W) (trail_get (sv_trail s)) (wo_write W) run
      (map fst (sv_controls s)) (sv_campaign_runs s) = (r, act, c)" by (metis prod.collapse)
  let ?change = "launch_change resume (wo_now W) (trail_get (sv_trail s)) run"
  obtain u cell where u: "pe_update (wo_campaign_runs_json W) ?change (wo_write W) (sv_campaign_runs s) = (u, cell)" by fastforce
  have "c = sv_campaign_runs s \<or> c = cell"
    using l u by (auto simp: launch_def split: if_splits sum.splits resume_error.splits)
  moreover have "pe_disk cell = None \<longleftrightarrow> pe_disk (sv_campaign_runs s) = None"
    using files_stay(1) [of "wo_campaign_runs_json W" ?change "wo_write W" "sv_campaign_runs s"] u by simp
  ultimately have "pe_disk c = None \<longleftrightarrow> pe_disk (sv_campaign_runs s) = None" by auto
  then show ?thesis by (simp add: launch_http_def l stays_def on_disk_def split: sum.split del: not_None_eq)
qed

lemma stays_app: "ap_counter app \<le> Suc (ap_counter (sv_app s)) \<Longrightarrow> (as_file (ap_audit app) = None \<longleftrightarrow> as_file (ap_audit (sv_app s)) = None)
    \<Longrightarrow> stays s (s\<lparr>sv_app := app\<rparr>)"
  by (simp add: stays_def on_disk_def)

lemma scenario_stays:
  assumes "as_inv (wo_audit W) (ap_audit (sv_app s))" and "untorn (wo_audit_io W)" and "untorn (wo_finish_io W)"
  shows "stays s (snd (run_scenario W h i body s))"
  unfolding run_scenario_def
proof (rule stays_guarded, goal_cases)
  case (1 x)
  obtain role payload entry where x: "x = (role, payload, entry)" by (cases x)
  obtain rid app where n: "next_run_id (sv_app s) = (rid, app)" by fastforce
  obtain r app1 where st: "start_scenario (wo_ed W) (wo_audit W) (wo_manifest W) (wo_now W) (wo_audit_io W) entry role
                 (rp_target_override payload) (rp_timeout_sec payload) rid app = (r, app1)" by fastforce
  have app: "ap_audit app = ap_audit (sv_app s)" "ap_counter app \<le> Suc (ap_counter (sv_app s))"
    using n by (auto simp: next_run_id_def)
  have same_file: "as_file a' = None \<longleftrightarrow> as_file a = None" if "signs W key a a'" for key a a'
    using that by (auto simp: signs_def publish_def)
  have s1: "signs W (ap_signing_key app) (ap_audit app) (ap_audit app1)" "ap_counter app1 = ap_counter app"
    using start_signs [OF _ assms(2) st] assms(1) app(1) by (simp_all add: same_plane_def)
  have 2: "stays s (s\<lparr>sv_app := app1\<rparr>)" using s1(2) app same_file [OF s1(1)] by (intro stays_app) simp_all
  show ?case
  proof (cases r)
    case (Inl e)
    with 2 show ?thesis by (simp add: x n st)
  next
    case (Inr ad)
    obtain r2 app2 where fin: "finish_run (wo_ed W) (wo_audit W) (wo_status_text W) (wo_later W) (wo_finish_io W) ad rid
        (wo_ended W ad) app1 = (r2, app2)" by fastforce
    have "ap_counter app2 = ap_counter app1 \<and> (as_file (ap_audit app2) = None \<longleftrightarrow> as_file (ap_audit app1) = None)"
      using fin unfolding finish_run_def Let_def set_live_status_def
      by (auto split: sum.splits option.splits prod.splits) (metis files_stay(2) snd_conv)+
    then have "stays s (s\<lparr>sv_app := app2\<rparr>)" using s1(2) app same_file [OF s1(1)] by (intro stays_app) simp_all
    with 2 show ?thesis by (cases r2) (simp_all add: x n st Inr fin)
  qed
qed

lemma acting_stays:
  "stays s (snd (register_runner W h p s))" "stays s (snd (deregister_runner W h i s))"
  "stays s (snd (set_runner_maintenance W h i b s))" "stays s (snd (ping_runner W h i s))"
  "stays s (snd (run_feedback W h i f s))"
  "stays s (snd (register_campaign W h c s))" "stays s (snd (delete_campaign W h i s))"
  "stays s (snd (resume_campaign_run W h i s))" "stays s (snd (create_schedule W h q s))"
  "stays s (snd (toggle_schedule W h i b s))" "stays s (snd (delete_schedule W h i s))"
proof -
  show "stays s (snd (register_runner W h p s))" "stays s (snd (deregister_runner W h i s))" "stays s (snd (set_runner_maintenance W h i b s))"
    unfolding register_runner_def deregister_runner_def set_runner_maintenance_def
    by (rule stays_guarded, simp add: stays_def on_disk_def set_registry_def del: not_None_eq)+
  show "stays s (snd (ping_runner W h i s))"
    unfolding ping_runner_def
    by (rule stays_guarded) (simp add: stays_def on_disk_def set_registry_def sv_registry_def Let_def split: prod.split option.split sum.split del: not_None_eq)
  show "stays s (snd (register_campaign W h c s))" "stays s (snd (delete_campaign W h i s))"
    "stays s (snd (toggle_schedule W h i b s))" "stays s (snd (delete_schedule W h i s))"
    unfolding register_campaign_def delete_campaign_def toggle_schedule_def delete_schedule_def
    by (rule stays_guarded, simp add: stays_def on_disk_def del: not_None_eq)+
  show "stays s (snd (resume_campaign_run W h i s))"
    unfolding resume_campaign_run_def by (rule stays_guarded) (rule launch_http_stays)
  show "stays s (snd (create_schedule W h q s))"
    unfolding create_schedule_def
    by (rule stays_guarded) (simp add: next_run_id_def Let_def stays_def on_disk_def del: not_None_eq)
  show "stays s (snd (run_feedback W h i f s))"
    unfolding run_feedback_def
  proof (rule stays_guarded, goal_cases)
    case 1
    let ?f = "\<lambda>old. sign_error_text (ar_signed (wo_ed W) (wo_audit W) (ap_signing_key (sv_app s)) (feedback_record (wo_now W) f old))"
    obtain r a where u: "as_update (wo_audit W) i ?f (wo_audit_io W) (ap_audit (sv_app s)) = (r, a)" by fastforce
    have a: "as_file a = None \<longleftrightarrow> as_file (ap_audit (sv_app s)) = None"
      using files_stay(2) [of "wo_audit W" i ?f "wo_audit_io W" "ap_audit (sv_app s)"] u by simp
    have "stays s (set_audit a s)" "stays s ((set_audit a s)\<lparr>sv_schedules := c\<rparr>)"
      if "pe_disk c = None \<longleftrightarrow> pe_disk (sv_schedules s) = None" for c
      using a that by (simp_all add: stays_def on_disk_def set_audit_def del: not_None_eq)
    then show ?case by (simp add: u split: sum.split option.split)
  qed
qed

lemma run_campaign_stays: "stays s (snd (run_campaign W h i body s))"
  unfolding run_campaign_def
proof (rule stays_guarded, goal_cases)
  case (1 x)
  obtain role payload c where x: "x = (role, payload, c)" by (cases x)
  obtain rid app where n: "next_campaign_run_id (sv_app s) = (rid, app)" by fastforce
  have "stays s (s\<lparr>sv_app := app\<rparr>)"
    using n by (intro stays_app) (auto simp: next_campaign_run_id_def)
  moreover obtain r s2 where l: "launch_http W (new_campaign_run rid c role payload (wo_now W)) False (s\<lparr>sv_app := app\<rparr>) = (r, s2)"
    by fastforce
  moreover have "sv_app s2 = app" "on_disk s2 = on_disk (s\<lparr>sv_app := app\<rparr>)"
    using launch_http_app [of W "new_campaign_run rid c role payload (wo_now W)" False "s\<lparr>sv_app := app\<rparr>"]
      launch_http_stays [of "s\<lparr>sv_app := app\<rparr>" W "new_campaign_run rid c role payload (wo_now W)" False] l
    by (simp_all add: stays_def)
  ultimately show ?case
    by (cases r) (simp_all add: x n Let_def stays_def split: sum.split)
qed

lemma serve_step:
  assumes "libs_ok W" and "server_inv W s" and "untorn (wo_audit_io W)" and "untorn (wo_finish_io W)"
    and "ap_counter (sv_app s) + 1 < 2 ^ 64" and "serve W rj h q s = Some (res, s')"
  shows "server_inv W s' \<and> stays s s'"
proof (cases "mutates q")
  case False
  with reading_unchanged [OF assms(6)] assms(2) show ?thesis by simp
next
  case True
  have a: "as_inv (wo_audit W) (ap_audit (sv_app s))" using assms(2) by (simp add: server_inv_def audit_ok_def)
  have c: "stays s (snd (cancel_run W h i s))" "stays s (snd (cancel_campaign_run W h i s))" "stays s (snd (abort_all W h s))" for i
  proof -
    show "stays s (snd (cancel_run W h i s))"
      unfolding cancel_run_def by (rule stays_guarded) (simp add: stays_cancels [OF cancel_scenario_only])
    obtain b t where r: "request_cancel i s = (b, t)" by fastforce
    show "stays s (snd (cancel_campaign_run W h i s))"
      unfolding cancel_campaign_run_def
      by (rule stays_guarded) (simp add: r stays_cancels [OF conjunct1 [OF request_cancel_only [OF r]]])
    show "stays s (snd (abort_all W h s))"
      unfolding abort_all_def
    proof (rule stays_guarded, goal_cases)
      case (1 role)
      let ?s1 = "set_runs (map (\<lambda>(i, a). (i, if can role (required_capability (av_category a)) then active_run_cancel a else a))) s"
      obtain ids s2 where f: "fold (abort_one role) (map fst (sv_controls s)) ([], ?s1) = (ids, s2)" by fastforce
      have "only_cancels ?s1 s2" using abort_fold [OF f] by simp
      from stays_cancels [OF only_cancels_trans [OF abort_runs_only this]] f show ?case by (simp add: Let_def)
    qed
  qed
  from True show ?thesis
    using assms(6) registry_requests_inv [OF assms(2)] ping_inv [OF assms(2)] campaign_requests_inv [OF assms(1,2)]
      schedule_requests_inv [OF assms(1,2)] cancel_requests_inv [OF assms(2)] feedback_inv [OF assms(1-3)]
      scenario_inv [OF assms(1-5)] resume_inv [OF assms(1,2)] run_campaign_inv [OF assms(1,2,5)] assms(5)
      acting_stays c scenario_stays [OF a assms(3,4)] run_campaign_stays
    by (cases q) (simp_all only: serve.simps acts_Some mutates.simps simp_thms)
qed

end
