(* ===== verification/Server_Restart.thy ===== *)
theory Server_Restart
  imports Server_Safety
begin

text \<open>
  A life of the control plane: requests of any callers, a crash, and the start of a new process on the files the old one
  left. \<open>life\<close> serves a list of requests, each in its own world; \<open>storage_of\<close> is what they leave on disk.
\<close>

section \<open>A life of the control plane\<close>

definition same_libs :: "world \<Rightarrow> world \<Rightarrow> bool" where
  "same_libs W V \<longleftrightarrow> wo_ed V = wo_ed W \<and> wo_audit V = wo_audit W \<and> wo_url V = wo_url W
     \<and> wo_campaigns_json V = wo_campaigns_json W \<and> wo_campaign_runs_json V = wo_campaign_runs_json W
     \<and> wo_schedules_json V = wo_schedules_json W"

lemma same_libs_inv: "same_libs W V \<Longrightarrow> libs_ok V = libs_ok W \<and> server_inv V s = server_inv W s"
  by (simp add: same_libs_def libs_ok_def server_inv_def audit_ok_def campaigns_ok_def runs_ok_def schedules_ok_def)

text \<open>Requests, each in the world it arrives in; \<open>serve\<close> answers every one.\<close>

fun life :: "(clickhouse_json_row \<Rightarrow> string + string) \<Rightarrow> (world \<times> header_map \<times> request) list \<Rightarrow> server \<Rightarrow> server" where
  "life rj [] s = s"
| "life rj ((W, h, q) # qs) s = (case serve W rj h q s of None \<Rightarrow> s | Some (_, s') \<Rightarrow> life rj qs s')"

lemma life_inv:
  assumes "libs_ok W" and "server_inv W s" and "ap_counter (sv_app s) + length qs < 2 ^ 64"
    and "\<forall>(V, h, q) \<in> set qs. same_libs W V \<and> untorn (wo_audit_io V) \<and> untorn (wo_finish_io V)"
  shows "server_inv W (life rj qs s) \<and> on_disk (life rj qs s) = on_disk s"
  using assms(2-4)
proof (induction qs arbitrary: s)
  case (Cons x qs)
  obtain V h q where x: "x = (V, h, q)" by (cases x)
  then have V: "same_libs W V" "untorn (wo_audit_io V)" "untorn (wo_finish_io V)" using Cons.prems(3) by auto
  note same = same_libs_inv [OF V(1)]
  obtain r s' where s': "serve V rj h q s = Some (r, s')" using served by blast
  have step: "server_inv V s' \<and> stays s s'"
    by (rule serve_step [OF _ _ V(2,3) _ s']) (use same assms(1) Cons.prems(1,2) in simp_all)
  then have "server_inv W s'" "ap_counter (sv_app s') + length qs < 2 ^ 64"
    using same Cons.prems(2) by (auto simp: stays_def)
  from Cons.IH [OF this] Cons.prems(3) s' step show ?case by (simp add: x stays_def)
qed simp

section \<open>Restart\<close>

definition storage_of :: "server \<Rightarrow> storage" where
  "storage_of s = \<lparr>sg_runners = map_option (\<lambda>sn. SnapBytes (Some sn)) (sv_registry_disk s), sg_audit = as_file (ap_audit (sv_app s)),
     sg_campaign_runs = pe_disk (sv_campaign_runs s), sg_campaigns = pe_disk (sv_campaigns s), sg_schedules = pe_disk (sv_schedules s)\<rparr>"

lemma recover_loop_succeeds:
  "ed_sk_ok E key \<Longrightarrow> \<exists>s'. recover_loop E J key now [] olds s = (Inr (), s')"
proof (induction olds arbitrary: s)
  case (Cons old olds)
  then have "\<exists>r. ar_signed E J key (interrupted now old) = Inr r" by (simp add: ar_signed_Inr)
  then obtain r where r: "ar_signed E J key (interrupted now old) = Inr r" by blast
  have "fst (persist J r IoOk s) = Inr ()" by (simp add: persist_def append_to_file_def split: option.splits)
  then obtain s1 where "persist J r IoOk s = (Inr (), s1)" by (metis prod.collapse)
  with Cons r show ?case by simp
qed simp

lemma reopen_audit:
  assumes "libs_ok W" and "audit_ok W s" and "as_file (ap_audit (sv_app s)) = Some f"
  shows "\<exists>a. open_audit (wo_ed W) (wo_audit W) (ap_signing_key (sv_app s)) now [] (Some f) = Inr a"
proof -
  let ?a = "ap_audit (sv_app s)" and ?key = "ap_signing_key (sv_app s)"
  have inv: "as_inv (wo_audit W) ?a" and key: "ed_sk_ok (wo_ed W) ?key"
    and good: "\<forall>r \<in> set (as_trail ?a). verify_with_key (wo_ed W) (wo_audit W) r (ed_public (wo_ed W) ?key)"
    using assms(2) by (simp_all add: audit_ok_def)
  have load: "as_load (wo_audit W) (Some f) = Inr ?a"
    using inv assms(3) by (cases ?a) (simp add: as_inv_def as_load_def)
  have "untrusted (wo_ed W) (wo_audit W) (ed_public (wo_ed W) ?key) (as_trail ?a) = None"
    using good by (simp add: untrusted_def find_None_iff)
  moreover obtain a where "recover_incomplete (wo_ed W) (wo_audit W) ?key now [] ?a = (Inr (), a)"
    using recover_loop_succeeds [OF key] unfolding recover_incomplete_def by blast
  ultimately show ?thesis using load key by (simp add: open_audit_def public_key_from_secret_key_def)
qed

text \<open>An update whose change succeeds on a healthy disk.\<close>

lemma pe_update_WriteOk:
  assumes "change (pe_value p) = (Inr r, v)"
  shows "\<exists>p'. pe_update C change WriteOk p = (Inr r, p') \<and> pe_value p' = v"
  using assms by (auto simp: pe_update_def split: option.splits)

lemma recover_get_None: "store_get st k = None \<Longrightarrow> store_get (snd (recover_interrupted now st)) k = None"
  by (auto simp: store_get_def recover_interrupted_def find_None_iff interrupt_run_def)

lemma restart:
  assumes "libs_ok W" and "server_inv W s" and "on_disk s" and "same_libs W V"
    and "\<And>n. store_get (pe_value (sv_campaign_runs s)) (crun_id (run_namespace ns) n) = None"
  shows "\<exists>t. start_server V WriteOk WriteOk (sv_catalog s) seed (storage_of s) (ap_signing_key (sv_app s)) [] (Some ns) = Inr t
    \<and> server_inv W t
    \<and> pe_value (sv_campaigns t) = pe_value (sv_campaigns s)
    \<and> pe_value (sv_campaign_runs t) = snd (recover_interrupted (wo_now V) (pe_value (sv_campaign_runs s)))
    \<and> pe_value (sv_schedules t) = schedule_recover (pe_value (sv_schedules s))
    \<and> durable (ap_registry (sv_app t)) = durable (ap_registry (sv_app s))
    \<and> map ar_run_id (sv_trail t) = map ar_run_id (sv_trail s) \<and> (\<forall>r \<in> set (sv_trail t). ar_is_terminal r)
    \<and> (\<forall>r \<in> set (sv_trail s). ar_is_terminal r \<longrightarrow> trail_get (sv_trail t) (ar_run_id r) = Some r)"
proof -
  let ?key = "ap_signing_key (sv_app s)"
  have libs: "wo_ed V = wo_ed W" "wo_audit V = wo_audit W" "wo_url V = wo_url W" "wo_campaigns_json V = wo_campaigns_json W"
    "wo_campaign_runs_json V = wo_campaign_runs_json W" "wo_schedules_json V = wo_schedules_json W"
    using assms(4) by (simp_all add: same_libs_def)
  have E: "ed_correct (wo_ed W)" "codec_ok (wo_audit W)" "json_ok (wo_campaign_runs_json W)" "json_ok (wo_schedules_json W)"
    using assms(1) by (simp_all add: libs_ok_def)
  obtain f sn where f: "as_file (ap_audit (sv_app s)) = Some f" and sn: "sv_registry_disk s = Some sn"
    and disk: "pe_disk (sv_campaign_runs s) \<noteq> None" "pe_disk (sv_campaigns s) \<noteq> None" "pe_disk (sv_schedules s) \<noteq> None"
    using assms(3) by (auto simp: on_disk_def)
  have audit: "audit_ok W s" and reg: "agree (wo_url W) (sv_registry s)" and cat: "entry_category s [] = None"
    and campaigns: "pe_inv (wo_campaigns_json W) campaign_seed plans_ok (sv_campaigns s)"
    and runs: "pe_inv (wo_campaign_runs_json W) default_store store_ok (sv_campaign_runs s)"
    and schedules: "pe_inv (wo_schedules_json W) schedule_seed (jobs_ok (entry_category s)) (sv_schedules s)"
    using assms(2) by (simp_all add: server_inv_def campaigns_ok_def runs_ok_def schedules_ok_def)
  \<comment> \<open>the registry\<close>
  have "validate_snapshot (wo_url W) sn = Inr () \<and> durable (into_data sn) = durable (rs_data (sv_registry s))"
    using reg sn by (intro restart_view) (auto simp: agree_def sv_registry_def)
  then have v: "validate_snapshot (wo_url W) sn = Inr ()" and dur: "durable (into_data sn) = durable (ap_registry (sv_app s))"
    by (simp_all add: sv_registry_def)
  have r1: "with_persistence (wo_url W) ok (Some (SnapBytes (Some sn))) seed = Inr \<lparr>rs_data = into_data sn, rs_disk = Some sn\<rparr>" for ok
    using v by (simp add: with_persistence_def)
  \<comment> \<open>the trail\<close>
  obtain a where a: "open_audit (wo_ed W) (wo_audit W) ?key (wo_now V) [] (Some f) = Inr a"
    using reopen_audit [OF assms(1) audit f] by blast
  have "boundary (Some f)" using audit f by (simp add: boundary_def audit_ok_def as_inv_def)
  from open_audit_spec [OF E(2,1) _ this a]
  obtain a0 where a0: "as_load (wo_audit W) (Some f) = Inr a0" and inv: "as_inv (wo_audit W) a"
    and good: "\<forall>r \<in> set (as_trail a). ar_is_terminal r \<and> verify_with_key (wo_ed W) (wo_audit W) r (ed_public (wo_ed W) ?key)"
    and ids: "map ar_run_id (as_trail a) = map ar_run_id (as_trail a0)"
    and fin: "\<forall>r \<in> set (as_trail a0). ar_is_terminal r \<longrightarrow> trail_get (as_trail a) (ar_run_id r) = Some r" by auto
  have tr: "as_trail a0 = sv_trail s"
    using a0 audit f by (auto simp: audit_ok_def as_inv_def as_load_def)
  \<comment> \<open>the snapshots\<close>
  note load = pe_inv_reload [OF campaigns disk(2)] pe_inv_reload [OF runs disk(1)] pe_inv_reload [OF schedules disk(3)]
  have "validate_store (pe_value (sv_campaign_runs s)) = Inr ()" using runs by (simp add: validate_store_iff pe_inv_def)
  then have w: "with_storage V (sv_catalog s) seed (storage_of s) ?key [] (Some ns) = Inr
     \<lparr>sv_app = \<lparr>ap_catalog_key = cg_public_key (sv_catalog s), ap_signing_key = ?key, ap_registry = into_data sn,
                ap_audit = a, ap_runs = [], ap_events = [], ap_namespace = run_namespace ns, ap_counter = 1\<rparr>,
      sv_audit_public_key = ed_public (wo_ed W) ?key, sv_registry_disk = Some sn, sv_catalog = sv_catalog s,
      sv_campaigns = sv_campaigns s, sv_campaign_runs = sv_campaign_runs s, sv_controls = [], sv_schedules = sv_schedules s\<rparr>"
    using load by (simp add: with_storage_def storage_of_def libs sn f r1 a)
  let ?rc = "recover_runs_change (wo_now V)" and ?st = "pe_value (sv_campaign_runs s)"
  obtain sp where sp: "pe_update (wo_schedules_json W) recover_schedules_change WriteOk (sv_schedules s) = (Inr (), sp)"
      "pe_value sp = schedule_recover (pe_value (sv_schedules s))"
    using pe_update_WriteOk [of recover_schedules_change] by (fastforce simp: recover_schedules_change_def)
  have "?rc ?st = (Inr (fst (recover_interrupted (wo_now V) ?st)), snd (recover_interrupted (wo_now V) ?st))"
    by (simp add: recover_runs_change_def split_def)
  from pe_update_WriteOk [where C = "wo_campaign_runs_json W" and change = ?rc and p = "sv_campaign_runs s", OF this]
  obtain rp where rp: "pe_update (wo_campaign_runs_json W) ?rc WriteOk (sv_campaign_runs s) = (Inr (fst (recover_interrupted (wo_now V) ?st)), rp)"
      "pe_value rp = snd (recover_interrupted (wo_now V) ?st)" by blast
  let ?t = "\<lparr>sv_app = \<lparr>ap_catalog_key = cg_public_key (sv_catalog s), ap_signing_key = ?key, ap_registry = into_data sn,
                ap_audit = a, ap_runs = [], ap_events = [], ap_namespace = run_namespace ns, ap_counter = 1\<rparr>,
      sv_audit_public_key = ed_public (wo_ed W) ?key, sv_registry_disk = Some sn, sv_catalog = sv_catalog s,
      sv_campaigns = sv_campaigns s, sv_campaign_runs = rp, sv_controls = [], sv_schedules = sp\<rparr>"
  have start: "start_server V WriteOk WriteOk (sv_catalog s) seed (storage_of s) ?key [] (Some ns) = Inr ?t"
    by (simp add: start_server_def w libs sp(1) rp(1))
  \<comment> \<open>the invariant\<close>
  have "pe_inv (wo_schedules_json W) schedule_seed (jobs_ok (entry_category s)) sp"
    by (rule pe_keeps [OF E(4) schedules schedule_changes_keep(4) sp(1)])
  moreover have "pe_inv (wo_campaign_runs_json W) default_store store_ok rp"
    by (rule pe_keeps [OF E(3) runs _ rp(1)]) (use recover_ok [of _ "wo_now V"] in \<open>fastforce simp: keeps_def recover_runs_change_def split: prod.splits\<close>)
  moreover have "agree (wo_url W) \<lparr>rs_data = into_data sn, rs_disk = Some sn\<rparr>" by (rule into_data_agree [OF v])
  moreover have "entry_category ?t = entry_category s" by (simp add: entry_category_def fun_eq_iff)
  ultimately have "server_inv W ?t"
    using campaigns cat audit inv good assms(5) recover_get_None
    by (simp add: server_inv_def campaigns_ok_def runs_ok_def schedules_ok_def audit_ok_def sv_registry_def rp(2))
  with start show ?thesis using sp(2) rp(2) dur ids good fin by (intro exI [of _ ?t]) (simp add: tr)
qed


section \<open>A control plane with everything on disk\<close>

definition w_campaign :: "campaign wire" where
  "w_campaign = w_map (\<lambda>((a, b), (c, d)). \<lparr>ca_id = a, ca_name = b, ca_description = c, ca_steps = d\<rparr>)
     (\<lambda>x. ((ca_id x, ca_name x), (ca_description x, ca_steps x))) (w_pair (w_pair w_str w_str) (w_pair w_str (w_list w_step)))"

lemma w_campaign_ok [simp]: "wire_ok w_campaign"
  unfolding w_campaign_def by (rule w_map_ok) simp_all

definition stored_world :: world where
  "stored_world = example_world\<lparr>wo_campaigns_json := json_of (w_list w_campaign)\<rparr>"

definition stored_record :: audit_record where
  "stored_record = example_done\<lparr>ar_signature_hex := to_hex (ed_sign toy_ed25519 (canonical_bytes example_codec example_done) ''key''),
     ar_public_key_hex := to_hex (ed_public toy_ed25519 ''key'')\<rparr>"

definition stored_server :: server where
  "stored_server = (set_audit (publish example_codec stored_record empty_store) example_server)\<lparr>sv_registry_disk := Some (from_data empty_registry),
     sv_campaigns := \<lparr>pe_value = [], pe_disk = Some (Bytes (js_enc (json_of (w_list w_campaign)) []))\<rparr>,
     sv_campaign_runs := \<lparr>pe_value = default_store, pe_disk = Some Absent\<rparr>,
     sv_schedules := \<lparr>pe_value = schedule_new, pe_disk = Some (Bytes (js_enc schedule_codec schedule_new))\<rparr>\<rparr>"

lemma stored_libs: "libs_ok stored_world"
  by (simp add: libs_ok_def stored_world_def toy_correct example_codec_ok json_of_ok run_codec_ok schedule_codec_ok)

lemma stored_inv: "server_inv stored_world stored_server"
proof -
  have "ar_signed toy_ed25519 example_codec ''key'' example_done = Inr stored_record"
    by (simp add: ar_signed_Inr stored_record_def toy_ed25519_def)
  from signed_record_verifies [OF toy_correct this]
  have "verify_with_key toy_ed25519 example_codec stored_record (ed_public toy_ed25519 ''key'')" by blast
  moreover have "as_inv example_codec (publish example_codec stored_record empty_store)"
    by (rule publish_inv [OF example_codec_ok]) (simp add: as_inv_def empty_store_def from_jsonl_def)
  moreover have "as_trail (publish example_codec stored_record empty_store) = [stored_record]"
    by (simp add: publish_def empty_store_def upsert_def)
  ultimately have 1: "audit_ok stored_world stored_server"
    by (simp add: audit_ok_def stored_world_def stored_server_def set_audit_def) (simp add: toy_ed25519_def)
  have "sv_registry stored_server = \<lparr>rs_data = empty_registry, rs_disk = Some (from_data empty_registry)\<rparr>"
    by (simp add: sv_registry_def stored_server_def set_audit_def example_server_def example_plane_def empty_registry_def)
  moreover have "config_map empty_registry = (\<lambda>_. None)"
    by (simp add: config_map_def fun_eq_iff runner_at_def empty_registry_def)
  ultimately have 2: "agree (wo_url stored_world) (sv_registry stored_server)"
    using empty_registry_inv from_data_canonical by (simp add: agree_def valid_view_def durable_def)
  have 3: "campaigns_ok stored_world stored_server"
    using json_of_ok [of "w_list w_campaign"]
    by (simp add: campaigns_ok_def pe_inv_def stored_server_def stored_world_def plans_ok_def catalog_inv_def json_ok_def)
  have 4: "runs_ok stored_world stored_server"
    by (simp add: runs_ok_def pe_inv_def stored_server_def default_store_def store_ok_def store_get_def)
  have 5: "schedules_ok stored_world stored_server"
    using schedule_codec_ok
    by (simp add: schedules_ok_def pe_inv_def stored_server_def stored_world_def jobs_ok_def sched_inv_def schedule_new_def json_ok_def
        alerts_ok_def)
  have 6: "entry_category stored_server [] = None" by (simp add: entry_category_def stored_server_def) code_simp
  from 1 2 3 4 5 6 show ?thesis by (simp add: server_inv_def)
qed



end
